(* ===== verification/Prelude.thy ===== *)
theory Prelude
  imports Main "HOL-Library.Word"
begin

text \<open>
  Shared material of the development: the names of the Go types the program computes with,
  the arithmetic of Go's \<^verbatim>\<open>int64\<close> read through \<^term>\<open>sint\<close>, the sum of the amounts of a
  list, and the theorem collections that the component theories fill.

  \<^item> \<open>int64\<close> is a \<^typ>\<open>64 word\<close>: \<open>+\<close>, \<open>-\<close> and unary minus wrap around, and Go's
    signed comparisons are \<open><s\<close> and \<open>\<le>s\<close>.
  \<^item> \<open>go_string\<close> is a list of bytes, as a Go string is; \<open>length\<close> is Go's \<^verbatim>\<open>len\<close>.
  \<^item> \<open>time\<close> counts nanoseconds from Go's zero time, so that \<^verbatim>\<open>IsZero\<close> is \<open>t = 0\<close>. A
    location and a monotonic reading are not part of it, so \<^verbatim>\<open>UTC()\<close> is the identity.
\<close>

named_theorems int64_simps "signed 64-bit comparisons and arithmetic read as integers"

type_synonym int64 = "64 word"

type_synonym byte = "8 word"

type_synonym go_string = string

type_synonym time = int

abbreviation MaxInt64 :: int64 where
  "MaxInt64 \<equiv> 0x7FFFFFFFFFFFFFFF"

abbreviation MinInt64 :: int64 where
  "MinInt64 \<equiv> 0x8000000000000000"

definition IsZero :: "time \<Rightarrow> bool" where
  "IsZero t \<longleftrightarrow> t = 0"

text \<open>An integer that fits Go's \<^verbatim>\<open>int64\<close>.\<close>

definition fits64 :: "int \<Rightarrow> bool" where
  "fits64 i \<longleftrightarrow> - (2 ^ 63) \<le> i \<and> i < 2 ^ 63"

section \<open>Signed arithmetic without overflow\<close>

lemma sint_bounds64: "- (2 ^ 63) \<le> sint (a :: int64)" "sint a < 2 ^ 63"
proof -
  show "- (2 ^ 63) \<le> sint a"
    using sint_ge [of a] by simp
  show "sint a < 2 ^ 63"
    using sint_lt [of a] by simp
qed

lemma fits64_sint [simp]: "fits64 (sint (a :: int64))"
  using sint_bounds64 [of a] by (simp add: fits64_def)

lemma fits64_zero [simp]: "fits64 0"
  by (simp add: fits64_def)

lemma sint_MaxInt64 [simp]: "sint MaxInt64 = 2 ^ 63 - 1"
  by simp

lemma sint_MinInt64 [simp]: "sint MinInt64 = - (2 ^ 63)"
  by simp

lemma sless64 [int64_simps]: "(a :: int64) <s b \<longleftrightarrow> sint a < sint b"
  by (rule word_sless_alt)

lemma sle64 [int64_simps]: "(a :: int64) \<le>s b \<longleftrightarrow> sint a \<le> sint b"
  by (rule word_sle_eq)

lemma sint_eq_zero64 [simp]: "sint (a :: int64) = 0 \<longleftrightarrow> a = 0"
  using signed_word_eqI [of a 0] by auto

lemma signed_take_bit64: "fits64 i \<Longrightarrow> signed_take_bit 63 i = i"
  by (simp add: fits64_def signed_take_bit_int_eq_self)

lemma sint_of_nat64: "n < 2 ^ 63 \<Longrightarrow> sint (of_nat n :: int64) = int n"
  by (simp add: signed_of_nat signed_take_bit64 fits64_def)

lemma sint_add64: "fits64 (sint a + sint b) \<Longrightarrow> sint ((a :: int64) + b) = sint a + sint b"
  by (simp add: sint_word_ariths signed_take_bit64)

lemma sint_sub64: "fits64 (sint a - sint b) \<Longrightarrow> sint ((a :: int64) - b) = sint a - sint b"
  by (simp add: sint_word_ariths signed_take_bit64)

lemma sint_neg64: "0 < sint a \<Longrightarrow> sint (- (a :: int64)) = - sint a"
  using sint_bounds64 [of a] by (simp add: sint_word_ariths signed_take_bit64 fits64_def)

lemma sint_debit:
  fixes b :: int64
  assumes "0 < sint x" "sint x \<le> sint b"
  shows "sint (b - x) = sint b - sint x"
  using assms sint_bounds64 [of b] by (intro sint_sub64) (simp add: fits64_def)

lemma sint_credit:
  fixes b :: int64
  assumes "0 < sint x" "sint b + sint x < 2 ^ 63"
  shows "sint (b + x) = sint b + sint x"
  using assms sint_bounds64 [of b] by (intro sint_add64) (simp add: fits64_def)

text \<open>
  The three overflow guards of the program, each as a fact about integers. The first two are
  \<^verbatim>\<open>sum > (1<<63-1)-x\<close> and \<^verbatim>\<open>sum < (-1<<63)-x\<close>, the third is
  \<^verbatim>\<open>balance < (-1<<63)+x\<close>; the guards themselves never overflow for the sign of \<open>x\<close> under
  which the program evaluates them.
\<close>

lemma sint_max_sub [int64_simps]: "0 < sint x \<Longrightarrow> sint (MaxInt64 - x) = 2 ^ 63 - 1 - sint x"
  using sint_bounds64 [of x] sint_sub64 [of MaxInt64 x] by (simp add: fits64_def)

lemma sint_min_sub [int64_simps]: "sint x < 0 \<Longrightarrow> sint (MinInt64 - x) = - (2 ^ 63) - sint x"
  using sint_bounds64 [of x] sint_sub64 [of MinInt64 x] by (simp add: fits64_def)

lemma sint_min_add [int64_simps]: "0 < sint x \<Longrightarrow> sint (MinInt64 + x) = - (2 ^ 63) + sint x"
  using sint_bounds64 [of x] sint_add64 [of MinInt64 x] by (simp add: fits64_def)

section \<open>Lists, options and maps\<close>

lemma sum_list_filter_append [simp]:
  "(\<Sum>x\<leftarrow>filter P (xs @ ys). (f x :: int)) = (\<Sum>x\<leftarrow>filter P xs. f x) + (\<Sum>x\<leftarrow>filter P ys. f x)"
  by simp

lemma sum_list_filter_none:
  "(\<And>x. x \<in> set xs \<Longrightarrow> \<not> P x) \<Longrightarrow> (\<Sum>x\<leftarrow>filter P xs. (f x :: int)) = 0"
  by (induction xs) auto

lemma filter_none: "(\<And>x. x \<in> set xs \<Longrightarrow> \<not> P x) \<Longrightarrow> filter P xs = []"
  by (induction xs) auto

text \<open>The last \<open>n\<close> elements of a list, in order: the window that the list endpoints return.\<close>

definition last_n :: "nat \<Rightarrow> 'a list \<Rightarrow> 'a list" where
  "last_n n xs = drop (length xs - n) xs"

lemma length_last_n [simp]: "length (last_n n xs) = min n (length xs)"
  by (simp add: last_n_def)

lemma set_last_n: "set (last_n n xs) \<subseteq> set xs"
  by (simp add: last_n_def set_drop_subset)

lemma last_n_suffix: "\<exists>ys. xs = ys @ last_n n xs"
  unfolding last_n_def by (metis append_take_drop_id)

lemma last_n_all: "length xs \<le> n \<Longrightarrow> last_n n xs = xs"
  by (simp add: last_n_def)

lemma distinct_last_n: "distinct xs \<Longrightarrow> distinct (last_n n xs)"
  by (simp add: last_n_def)

text \<open>
  Rules that walk down a chain of checks, one goal per branch: the goal of a branch has the
  outcome of every check before it as a premise.
\<close>

lemma if_chain: "(c \<Longrightarrow> P a) \<Longrightarrow> (\<not> c \<Longrightarrow> P b) \<Longrightarrow> P (if c then a else b)"
  by simp

lemma option_chain:
  "(m = None \<Longrightarrow> P a) \<Longrightarrow> (\<And>x. m = Some x \<Longrightarrow> P (f x)) \<Longrightarrow> P (case m of None \<Rightarrow> a | Some x \<Rightarrow> f x)"
  by (cases m) auto

lemma sum_chain:
  "(\<And>e. m = Inl e \<Longrightarrow> P (f e)) \<Longrightarrow> (\<And>x. m = Inr x \<Longrightarrow> P (g x)) \<Longrightarrow>
     P (case m of Inl e \<Rightarrow> f e | Inr x \<Rightarrow> g x)"
  by (cases m) auto

lemmas check_chain = if_chain option_chain sum_chain

text \<open>Splitting a result that is an error or a value.\<close>

lemma sum_case_Inr_iff:
  "(case r of Inl e \<Rightarrow> Inl e | Inr v \<Rightarrow> f v) = Inr y \<longleftrightarrow> (\<exists>v. r = Inr v \<and> f v = Inr y)"
  by (cases r) auto

lemma map_upd_Some_iff:
  "(m(k \<mapsto> v)) x = Some y \<longleftrightarrow> (if x = k then y = v else m x = Some y)"
  by auto

end
