(* ===== verification/Go_Strings.thy ===== *)
theory Go_Strings
  imports Prelude "HOL-Library.Char_ord" "HOL-Library.Sublist"
begin

text \<open>
  The parts of Go's standard library that the program applies to strings:
  \<^verbatim>\<open>strings.TrimSpace\<close>, \<^verbatim>\<open>strings.HasPrefix\<close>, \<^verbatim>\<open>strings.ToUpper\<close>,
  \<^verbatim>\<open>utf8.RuneCountInString\<close>, the conversions between strings and runes,
  \<^verbatim>\<open>hex.EncodeToString\<close> and the decimal conversions of \<^verbatim>\<open>fmt\<close> and \<^verbatim>\<open>strconv\<close>.

  A Go string is a byte sequence that need not be valid UTF-8. \<open>DecodeRune\<close> follows
  \<^verbatim>\<open>utf8.DecodeRuneInString\<close>: it returns the first code point and its width, and the
  replacement character with width 1 at a byte that starts no valid encoding.
\<close>

definition bv :: "char \<Rightarrow> nat" where
  "bv c = of_char c"

definition RuneError :: nat where
  "RuneError = 0xFFFD"

text \<open>Byte \<open>i\<close> of \<open>s\<close> exists and lies between \<open>lo\<close> and \<open>hi\<close>.\<close>

definition byte_in :: "nat \<Rightarrow> nat \<Rightarrow> go_string \<Rightarrow> nat \<Rightarrow> bool" where
  "byte_in lo hi s i \<longleftrightarrow> i < length s \<and> lo \<le> bv (s ! i) \<and> bv (s ! i) \<le> hi"

definition DecodeRune :: "go_string \<Rightarrow> nat \<times> nat" where
  "DecodeRune s = (case s of [] \<Rightarrow> (RuneError, 0) | b # _ \<Rightarrow>
     (let x = bv b in
      if x < 0x80 then (x, 1)
      else if 0xC2 \<le> x \<and> x \<le> 0xDF \<and> byte_in 0x80 0xBF s 1 then
        ((x - 0xC0) * 64 + (bv (s ! 1) - 0x80), 2)
      else if 0xE0 \<le> x \<and> x \<le> 0xEF \<and>
          byte_in (if x = 0xE0 then 0xA0 else 0x80) (if x = 0xED then 0x9F else 0xBF) s 1 \<and>
          byte_in 0x80 0xBF s 2 then
        ((x - 0xE0) * 4096 + (bv (s ! 1) - 0x80) * 64 + (bv (s ! 2) - 0x80), 3)
      else if 0xF0 \<le> x \<and> x \<le> 0xF4 \<and>
          byte_in (if x = 0xF0 then 0x90 else 0x80) (if x = 0xF4 then 0x8F else 0xBF) s 1 \<and>
          byte_in 0x80 0xBF s 2 \<and> byte_in 0x80 0xBF s 3 then
        ((x - 0xF0) * 262144 + (bv (s ! 1) - 0x80) * 4096 + (bv (s ! 2) - 0x80) * 64
           + (bv (s ! 3) - 0x80), 4)
      else (RuneError, 1)))"

text \<open>\<^verbatim>\<open>utf8.DecodeLastRuneInString\<close>: it looks back at most four bytes for a byte that can
  start an encoding and accepts it only when the encoding ends the string.\<close>

definition RuneStart :: "char \<Rightarrow> bool" where
  "RuneStart c \<longleftrightarrow> bv c < 0x80 \<or> 0xC0 \<le> bv c"

definition DecodeLastRune :: "go_string \<Rightarrow> nat \<times> nat" where
  "DecodeLastRune s =
     (if s = [] then (RuneError, 0)
      else if bv (last s) < 0x80 then (bv (last s), 1)
      else (case find (\<lambda>k. k \<le> length s \<and> RuneStart (s ! (length s - k))) [2, 3, 4] of
              None \<Rightarrow> (RuneError, 1)
            | Some k \<Rightarrow>
                (let d = DecodeRune (drop (length s - k) s) in
                 if snd d = k then d else (RuneError, 1))))"

text \<open>\<^verbatim>\<open>unicode.IsSpace\<close>: the code points with the property White\_Space.\<close>

definition IsSpace :: "nat \<Rightarrow> bool" where
  "IsSpace r \<longleftrightarrow> r \<in> {9, 10, 11, 12, 13, 32, 0x85, 0xA0, 0x1680, 0x2028, 0x2029, 0x202F, 0x205F, 0x3000}
     \<or> (0x2000 \<le> r \<and> r \<le> 0x200A)"

lemma byte_in_length: "byte_in lo hi s i \<Longrightarrow> Suc i \<le> length s"
  by (simp add: byte_in_def)

lemma DecodeRune_width: "s \<noteq> [] \<Longrightarrow> 1 \<le> snd (DecodeRune s) \<and> snd (DecodeRune s) \<le> length s"
  by (cases s) (auto simp: DecodeRune_def Let_def dest!: byte_in_length)

lemma DecodeLastRune_width: "s \<noteq> [] \<Longrightarrow> 1 \<le> snd (DecodeLastRune s)"
  by (auto simp: DecodeLastRune_def Let_def split: option.split)

function TrimLeftSpace :: "go_string \<Rightarrow> go_string" where
  "TrimLeftSpace s =
     (if s \<noteq> [] \<and> IsSpace (fst (DecodeRune s)) then TrimLeftSpace (drop (snd (DecodeRune s)) s) else s)"
  by pat_completeness auto
termination
  by (relation "measure length") (use DecodeRune_width in \<open>fastforce+\<close>)

function TrimRightSpace :: "go_string \<Rightarrow> go_string" where
  "TrimRightSpace s =
     (if s \<noteq> [] \<and> IsSpace (fst (DecodeLastRune s))
      then TrimRightSpace (take (length s - snd (DecodeLastRune s)) s) else s)"
  by pat_completeness auto
termination
  by (relation "measure length") (use DecodeLastRune_width in \<open>fastforce+\<close>)

declare TrimLeftSpace.simps [simp del] TrimRightSpace.simps [simp del]

definition TrimSpace :: "go_string \<Rightarrow> go_string" where
  "TrimSpace s = TrimRightSpace (TrimLeftSpace s)"

definition HasPrefix :: "go_string \<Rightarrow> go_string \<Rightarrow> bool" where
  "HasPrefix s p \<longleftrightarrow> take (length p) s = p"

text \<open>\<^verbatim>\<open>strings.ToUpper\<close> on the ASCII letters; bytes of multi-byte code points are left
  alone. The program applies it only to compare a currency code with itself, and a code with a
  byte outside ASCII is refused with the same error after that comparison in either case.\<close>

definition upper_char :: "char \<Rightarrow> char" where
  "upper_char c = (if 97 \<le> bv c \<and> bv c \<le> 122 then char_of (bv c - 32) else c)"

definition ToUpper :: "go_string \<Rightarrow> go_string" where
  "ToUpper s = map upper_char s"

text \<open>The runes of a string, their number, and the string of a list of runes.\<close>

function runes :: "go_string \<Rightarrow> nat list" where
  "runes s = (if s = [] then [] else fst (DecodeRune s) # runes (drop (snd (DecodeRune s)) s))"
  by pat_completeness auto
termination
  by (relation "measure length") (use DecodeRune_width in \<open>fastforce+\<close>)

declare runes.simps [simp del]

definition RuneCountInString :: "go_string \<Rightarrow> nat" where
  "RuneCountInString s = length (runes s)"

definition is_scalar :: "nat \<Rightarrow> bool" where
  "is_scalar r \<longleftrightarrow> r < 0xD800 \<or> (0xDFFF < r \<and> r \<le> 0x10FFFF)"

definition EncodeRune :: "nat \<Rightarrow> go_string" where
  "EncodeRune r0 = (let r = (if is_scalar r0 then r0 else RuneError) in
     if r < 0x80 then [char_of r]
     else if r < 0x800 then [char_of (0xC0 + r div 64), char_of (0x80 + r mod 64)]
     else if r < 0x10000 then
       [char_of (0xE0 + r div 4096), char_of (0x80 + r div 64 mod 64), char_of (0x80 + r mod 64)]
     else [char_of (0xF0 + r div 262144), char_of (0x80 + r div 4096 mod 64),
           char_of (0x80 + r div 64 mod 64), char_of (0x80 + r mod 64)])"

definition string_of_runes :: "nat list \<Rightarrow> go_string" where
  "string_of_runes rs = concat (map EncodeRune rs)"

text \<open>\<^verbatim>\<open>hex.EncodeToString\<close> and the decimal conversions.\<close>

definition hex_digit :: "nat \<Rightarrow> char" where
  "hex_digit n = (if n < 10 then char_of (48 + n) else char_of (87 + n))"

definition hex_EncodeToString :: "byte list \<Rightarrow> go_string" where
  "hex_EncodeToString bs = concat (map (\<lambda>b. [hex_digit (unat b div 16), hex_digit (unat b mod 16)]) bs)"

fun digits10 :: "nat \<Rightarrow> go_string" where
  "digits10 n = (if n < 10 then [char_of (48 + n)] else digits10 (n div 10) @ [char_of (48 + n mod 10)])"

declare digits10.simps [simp del]

definition format_int :: "int \<Rightarrow> go_string" where
  "format_int i = (if i < 0 then CHR ''-'' # digits10 (nat (- i)) else digits10 (nat i))"

section \<open>Trimming\<close>

lemma TrimLeftSpace_suffix: "suffix (TrimLeftSpace s) s"
proof (induction s rule: TrimLeftSpace.induct)
  case (1 s)
  then show ?case
    by (subst TrimLeftSpace.simps) (auto intro: suffix_order.trans suffix_drop)
qed

lemma TrimRightSpace_prefix: "prefix (TrimRightSpace s) s"
proof (induction s rule: TrimRightSpace.induct)
  case (1 s)
  then show ?case
    by (subst TrimRightSpace.simps) (auto intro: prefix_order.trans take_is_prefix)
qed

lemma length_TrimSpace: "length (TrimSpace s) \<le> length s"
  unfolding TrimSpace_def
  by (meson TrimLeftSpace_suffix TrimRightSpace_prefix order_trans prefix_length_le suffix_length_le)

lemma TrimSpace_Nil [simp]: "TrimSpace [] = []"
  by (simp add: TrimSpace_def TrimLeftSpace.simps TrimRightSpace.simps)

text \<open>A string that starts with an ASCII byte that is not a space is not blank.\<close>

definition solid :: "char \<Rightarrow> bool" where
  "solid c \<longleftrightarrow> bv c < 0x80 \<and> \<not> IsSpace (bv c)"

lemma TrimLeftSpace_solid: "solid c \<Longrightarrow> TrimLeftSpace (c # s) = c # s"
  by (subst TrimLeftSpace.simps) (simp add: DecodeRune_def solid_def)

lemma DecodeRune_solid: "s \<noteq> [] \<Longrightarrow> solid (hd s) \<Longrightarrow> DecodeRune s = (bv (hd s), 1)"
  by (cases s) (simp_all add: DecodeRune_def solid_def)

lemma not_IsSpace_RuneError [simp]: "\<not> IsSpace RuneError"
  by (simp add: IsSpace_def RuneError_def)

lemma DecodeLastRune_solid:
  assumes "s \<noteq> []" "solid (hd s)" "IsSpace (fst (DecodeLastRune s))"
  shows "snd (DecodeLastRune s) < length s"
proof (cases "bv (last s) < 0x80")
  case True
  have "length s \<noteq> 1"
    using assms True by (cases s) (auto simp: DecodeLastRune_def solid_def)
  with assms(1) True show ?thesis by (cases s) (auto simp: DecodeLastRune_def)
next
  case False
  with assms obtain k where k: "find (\<lambda>k. k \<le> length s \<and> RuneStart (s ! (length s - k))) [2, 3, 4] = Some k"
    and d: "DecodeLastRune s = DecodeRune (drop (length s - k) s)" "snd (DecodeLastRune s) = k"
    by (auto simp: DecodeLastRune_def Let_def split: option.splits if_splits)
  from k have "k \<le> length s" "2 \<le> k"
    by (auto simp: find_Some_iff nth_Cons split: nat.splits if_splits)
  moreover have "k \<noteq> length s"
    using d DecodeRune_solid [OF assms(1,2)] \<open>2 \<le> k\<close> by auto
  ultimately show ?thesis using d by simp
qed

lemma TrimRightSpace_solid: "s \<noteq> [] \<Longrightarrow> solid (hd s) \<Longrightarrow> TrimRightSpace s \<noteq> []"
proof (induction s rule: TrimRightSpace.induct)
  case (1 s)
  let ?t = "take (length s - snd (DecodeLastRune s)) s"
  show ?case
  proof (cases "IsSpace (fst (DecodeLastRune s))")
    case False
    with 1(2) show ?thesis by (subst TrimRightSpace.simps) simp
  next
    case True
    then have ne: "?t \<noteq> []" and hd: "hd ?t = hd s"
      using DecodeLastRune_solid [OF 1(2,3)] by (auto simp: hd_take)
    then have "TrimRightSpace ?t \<noteq> []" using 1 True by simp
    with 1(2) True show ?thesis by (subst TrimRightSpace.simps) simp
  qed
qed

lemma TrimSpace_solid: "solid c \<Longrightarrow> TrimSpace (c # s) \<noteq> []"
  by (simp add: TrimSpace_def TrimLeftSpace_solid TrimRightSpace_solid)

section \<open>Runes\<close>

lemma RuneCount_le_length: "RuneCountInString s \<le> length s"
  unfolding RuneCountInString_def
proof (induction s rule: runes.induct)
  case (1 s)
  show ?case
  proof (cases "s = []")
    case True
    then show ?thesis by (simp add: runes.simps)
  next
    case False
    with 1 DecodeRune_width [of s] show ?thesis by (subst runes.simps) auto
  qed
qed

lemma bv_char_of: "n < 256 \<Longrightarrow> bv (char_of n) = n"
  by (simp add: bv_def)

lemma bv_less: "bv c < 256"
  using range_nat_of_char by (auto simp: bv_def)

lemma split_64: "(r div 4096) * 4096 + (r div 64 mod 64) * 64 + r mod 64 = (r :: nat)"
proof -
  have "r div 64 div 64 = r div 4096" by (simp add: div_mult2_eq [symmetric])
  then have "(r div 4096 * 64 + r div 64 mod 64) * 64 + r mod 64 = r"
    by (metis div_mult_mod_eq)
  then show ?thesis by (simp add: algebra_simps)
qed

lemma split_4096: "(r div 262144) * 64 + r div 4096 mod 64 = (r :: nat) div 4096"
proof -
  have "r div 4096 div 64 = r div 262144" by (simp add: div_mult2_eq [symmetric])
  then show ?thesis by (metis div_mult_mod_eq)
qed

lemma split_262144:
  "(r div 262144) * 262144 + (r div 4096 mod 64) * 4096 + (r div 64 mod 64) * 64 + r mod 64 = (r :: nat)"
proof -
  have "((r div 262144) * 64 + r div 4096 mod 64) * 4096 + (r div 64 mod 64) * 64 + r mod 64 = r"
    unfolding split_4096 by (rule split_64)
  then show ?thesis by (simp add: algebra_simps)
qed

lemma DecodeRune_EncodeRune3:
  assumes "is_scalar r" "0x800 \<le> r" "r < 0x10000"
  shows "DecodeRune (EncodeRune r @ s) = (r, length (EncodeRune r))"
proof -
  define a b c where abc: "a = r div 4096" "b = r div 64 mod 64" "c = r mod 64"
  have eq: "a * 4096 + b * 64 + c = r" unfolding abc by (rule split_64)
  have bnd: "b < 64" "c < 64" "a < 16" using assms(3) by (auto simp: abc)
  have lo: "a = 0 \<Longrightarrow> 32 \<le> b" using eq assms(2) bnd by linarith
  have sur: "a = 13 \<Longrightarrow> b \<le> 31" using eq assms(1) bnd by (auto simp: is_scalar_def)
  have "EncodeRune r = [char_of (0xE0 + a), char_of (0x80 + b), char_of (0x80 + c)]"
    using assms by (simp add: EncodeRune_def abc)
  moreover have "byte_in (if 0xE0 + a = 0xE0 then 0xA0 else 0x80) (if 0xE0 + a = 0xED then 0x9F else 0xBF)
      (EncodeRune r @ s) 1"
    using calculation bnd lo sur by (auto simp: byte_in_def bv_char_of)
  ultimately show ?thesis
    using bnd eq by (simp add: DecodeRune_def byte_in_def bv_char_of Let_def)
qed

lemma DecodeRune_EncodeRune4:
  assumes "is_scalar r" "0x10000 \<le> r"
  shows "DecodeRune (EncodeRune r @ s) = (r, length (EncodeRune r))"
proof -
  define a b c d where abcd: "a = r div 262144" "b = r div 4096 mod 64" "c = r div 64 mod 64" "d = r mod 64"
  have eq: "a * 262144 + b * 4096 + c * 64 + d = r" unfolding abcd by (rule split_262144)
  have le: "r \<le> 0x10FFFF" using assms(1) by (auto simp: is_scalar_def)
  have bnd: "b < 64" "c < 64" "d < 64" by (auto simp: abcd)
  have a: "a < 5" using eq le by linarith
  have lo: "a = 0 \<Longrightarrow> 16 \<le> b" using eq assms(2) bnd by linarith
  have hi: "a = 4 \<Longrightarrow> b < 16" using eq le bnd by linarith
  have "EncodeRune r = [char_of (0xF0 + a), char_of (0x80 + b), char_of (0x80 + c), char_of (0x80 + d)]"
    using assms by (simp add: EncodeRune_def abcd)
  moreover have "byte_in (if 0xF0 + a = 0xF0 then 0x90 else 0x80) (if 0xF0 + a = 0xF4 then 0x8F else 0xBF)
      (EncodeRune r @ s) 1"
    using calculation bnd lo hi by (auto simp: byte_in_def bv_char_of)
  ultimately show ?thesis
    using bnd a eq by (simp add: DecodeRune_def byte_in_def bv_char_of Let_def)
qed

lemma DecodeRune_EncodeRune:
  assumes "is_scalar r"
  shows "DecodeRune (EncodeRune r @ s) = (r, length (EncodeRune r))"
proof -
  consider "r < 0x80" | "0x80 \<le> r" "r < 0x800" | "0x800 \<le> r" "r < 0x10000" | "0x10000 \<le> r"
    by linarith
  then show ?thesis
  proof cases
    case 1
    then show ?thesis using assms
      by (simp add: EncodeRune_def DecodeRune_def bv_char_of)
  next
    case 2
    have "2 \<le> r div 64" "r div 64 < 32" using 2 by auto
    then show ?thesis using assms 2
      by (simp add: EncodeRune_def DecodeRune_def byte_in_def bv_char_of Let_def)
  qed (use assms DecodeRune_EncodeRune3 DecodeRune_EncodeRune4 in auto)
qed

lemma runes_string_of_runes:
  assumes "\<And>r. r \<in> set rs \<Longrightarrow> is_scalar r"
  shows "runes (string_of_runes rs) = rs"
  using assms
proof (induction rs)
  case Nil
  then show ?case by (simp add: string_of_runes_def runes.simps)
next
  case (Cons r rs)
  then have "DecodeRune (string_of_runes (r # rs)) = (r, length (EncodeRune r))"
    by (simp add: string_of_runes_def DecodeRune_EncodeRune)
  moreover have "EncodeRune r \<noteq> []"
    by (simp add: EncodeRune_def Let_def)
  ultimately show ?case
    using Cons by (subst runes.simps) (simp add: string_of_runes_def)
qed

lemma scalar2: "x \<le> 0xDF \<Longrightarrow> y \<le> 0xBF \<Longrightarrow> is_scalar ((x - 0xC0) * 64 + (y - 0x80))"
proof -
  assume "x \<le> 0xDF" "y \<le> 0xBF"
  then have "x - 0xC0 \<le> 31" "y - 0x80 \<le> 63" by auto
  then show ?thesis unfolding is_scalar_def by linarith
qed

lemma scalar3:
  assumes "x \<le> 0xEF" "y \<le> (if x = 0xED then 0x9F else 0xBF)" "z \<le> 0xBF"
  shows "is_scalar ((x - 0xE0) * 4096 + (y - 0x80) * 64 + (z - 0x80))"
proof -
  define a b c where abc: "a = x - 0xE0" "b = y - 0x80" "c = z - 0x80"
  have bnd: "a \<le> 15" "b \<le> 63" "c \<le> 63" "a = 13 \<Longrightarrow> b \<le> 31"
    using assms by (auto simp: abc split: if_splits)
  consider "a < 13" | "a = 13" | "13 < a" by linarith
  then have "is_scalar (a * 4096 + b * 64 + c)"
    by cases (use bnd in \<open>auto simp: is_scalar_def\<close>)
  then show ?thesis by (simp add: abc)
qed

lemma scalar4:
  assumes "x \<le> 0xF4" "(if x = 0xF0 then 0x90 else 0x80) \<le> y" "y \<le> (if x = 0xF4 then 0x8F else 0xBF)"
    "0xF0 \<le> x" "z \<le> 0xBF" "w \<le> 0xBF"
  shows "is_scalar ((x - 0xF0) * 262144 + (y - 0x80) * 4096 + (z - 0x80) * 64 + (w - 0x80))"
proof -
  define a b c d where abcd: "a = x - 0xF0" "b = y - 0x80" "c = z - 0x80" "d = w - 0x80"
  have bnd: "a \<le> 4" "b \<le> 63" "c \<le> 63" "d \<le> 63" "a = 0 \<Longrightarrow> 16 \<le> b" "a = 4 \<Longrightarrow> b \<le> 15"
    using assms by (auto simp: abcd split: if_splits)
  consider "a = 0" | "a = 4" | "0 < a" "a < 4" using bnd by linarith
  then have "is_scalar (a * 262144 + b * 4096 + c * 64 + d)"
    by cases (use bnd in \<open>auto simp: is_scalar_def\<close>)
  then show ?thesis by (simp add: abcd)
qed

lemma if_cases: "(c \<Longrightarrow> P a) \<Longrightarrow> P b \<Longrightarrow> P (if c then a else b)"
  by simp

lemma DecodeRune_scalar: "s \<noteq> [] \<Longrightarrow> is_scalar (fst (DecodeRune s))"
proof (cases s)
  case (Cons b t)
  show ?thesis
    unfolding Cons DecodeRune_def Let_def list.case
    apply (intro if_cases [where P = "\<lambda>d. is_scalar (fst d)"]; unfold fst_conv byte_in_def; (elim conjE)?)
    subgoal by (simp add: is_scalar_def)
    subgoal by (rule scalar2)
    subgoal by (rule scalar3)
    subgoal by (rule scalar4)
    subgoal by (simp add: is_scalar_def RuneError_def)
    done
qed simp

lemma runes_are_scalar: "r \<in> set (runes s) \<Longrightarrow> is_scalar r"
proof (induction s rule: runes.induct)
  case (1 s)
  have "s \<noteq> []" using 1(2) by (subst (asm) runes.simps) (auto split: if_splits)
  moreover have "r = fst (DecodeRune s) \<or> r \<in> set (runes (drop (snd (DecodeRune s)) s))"
    using 1(2) \<open>s \<noteq> []\<close> by (subst (asm) runes.simps) simp
  ultimately show ?case using 1(1) DecodeRune_scalar by blast
qed

section \<open>Trimming is idempotent\<close>

text \<open>A prefix of a string starts with the same rune, or with a cut one, which decodes to
  \<open>RuneError\<close> and is not a space.\<close>

lemma byte_in_prefix: "prefix p t \<Longrightarrow> byte_in lo hi p i \<Longrightarrow> byte_in lo hi t i \<and> t ! i = p ! i"
  by (auto simp: byte_in_def prefix_def nth_append)

lemma DecodeRune_prefix:
  assumes "prefix p t" "p \<noteq> []"
  shows "fst (DecodeRune p) = fst (DecodeRune t) \<or> fst (DecodeRune p) = RuneError"
proof -
  obtain b q r where p: "p = b # q" and t: "t = b # r" using assms by (cases p; cases t) auto
  have nth: "byte_in lo hi (b # q) i \<Longrightarrow> byte_in lo hi (b # r) i \<and> (b # r) ! i = (b # q) ! i" for lo hi i
    using byte_in_prefix [OF assms(1)] by (simp add: p t)
  define f where "f u \<longleftrightarrow> (u = fst (DecodeRune t) \<or> u = RuneError)" for u
  show ?thesis
    unfolding f_def [symmetric] unfolding p DecodeRune_def [of "b # q"] Let_def list.case
    apply (intro if_chain [where P = "\<lambda>d. f (fst d)"])
    apply (auto simp: f_def t DecodeRune_def Let_def dest!: nth)
    done
qed

lemma TrimLeftSpace_fix: "TrimLeftSpace s = s \<longleftrightarrow> s = [] \<or> \<not> IsSpace (fst (DecodeRune s))"
proof -
  have "length (TrimLeftSpace (drop (snd (DecodeRune s)) s)) < length s" if "s \<noteq> []"
    using that DecodeRune_width [OF that] suffix_length_le [OF TrimLeftSpace_suffix [of "drop (snd (DecodeRune s)) s"]]
    by (simp, linarith)
  then show ?thesis by (subst TrimLeftSpace.simps) auto
qed

lemma TrimLeftSpace_idem: "TrimLeftSpace (TrimLeftSpace s) = TrimLeftSpace s"
proof (induction s rule: TrimLeftSpace.induct)
  case (1 s)
  then show ?case by (subst (2 3) TrimLeftSpace.simps) (auto simp: TrimLeftSpace.simps [of s])
qed

lemma TrimRightSpace_idem: "TrimRightSpace (TrimRightSpace s) = TrimRightSpace s"
proof (induction s rule: TrimRightSpace.induct)
  case (1 s)
  then show ?case by (subst (2 3) TrimRightSpace.simps) (auto simp: TrimRightSpace.simps [of s])
qed

lemma TrimSpace_idem [simp]: "TrimSpace (TrimSpace s) = TrimSpace s"
proof -
  let ?t = "TrimLeftSpace s" and ?u = "TrimRightSpace (TrimLeftSpace s)"
  have "TrimLeftSpace ?u = ?u"
  proof (cases "?u = []")
    case False
    then have "?t \<noteq> []" by (metis TrimRightSpace_prefix prefix_bot.extremum_uniqueI)
    with TrimLeftSpace_idem [of s] have "\<not> IsSpace (fst (DecodeRune ?t))" by (simp add: TrimLeftSpace_fix)
    then show ?thesis
      using DecodeRune_prefix [OF TrimRightSpace_prefix False] by (auto simp: TrimLeftSpace_fix)
  qed (simp add: TrimLeftSpace_fix)
  then show ?thesis by (simp add: TrimSpace_def TrimRightSpace_idem)
qed

lemma TrimSpace_solid_ends:
  assumes "solid (hd s)" "solid (last s)"
  shows "TrimSpace s = s"
proof (cases s)
  case (Cons c t)
  then have "\<not> IsSpace (fst (DecodeLastRune s))" using assms(2) by (simp add: DecodeLastRune_def solid_def)
  then show ?thesis using Cons assms(1) by (simp add: TrimSpace_def TrimLeftSpace_solid TrimRightSpace.simps [of "c # t"])
qed simp

end
