(* ===== verification/Domain.thy ===== *)
theory Domain
  imports Go_Strings
begin

text \<open>
  \<^verbatim>\<open>internal/domain\<close>: the data of the ledger and its validation.

  Each Go struct is a record whose fields carry the struct's name first. An \<^verbatim>\<open>error\<close> is
  identified by what \<^verbatim>\<open>errors.Is\<close> and \<^verbatim>\<open>errors.As\<close> can observe of it, the error at the end of
  its \<^verbatim>\<open>Unwrap\<close> chain: the sentinels of \<^verbatim>\<open>errors.go\<close>, the two errors of a context, a
  PostgreSQL error with its SQLSTATE and constraint, and other errors by their text. So
  \<^verbatim>\<open>fmt.Errorf("%w: ...", e)\<close> is \<open>e\<close>. A function that returns \<^verbatim>\<open>error\<close> returns an
  option, where \<open>None\<close> is Go's \<^verbatim>\<open>nil\<close>; one that returns a value and an error returns a sum.
\<close>

datatype error =
    ErrInvalidInput
  | ErrNotFound
  | ErrForbidden
  | ErrInsufficientFunds
  | ErrCurrencyMismatch
  | ErrIdempotencyConflict
  | ErrTransferLimit
  | ErrRequestTooLarge
  | ErrUnsupportedMedia
  | ContextCanceled
  | ContextDeadlineExceeded
  | PgError (sqlstate: go_string) (constraint_name: go_string)
  | ErrNoRows
  | ErrOther go_string

text \<open>What \<^verbatim>\<open>ctx.Err()\<close> returns when an operation looks at its context.\<close>

type_synonym ctx = "error option"

section \<open>Principals, accounts and transfers\<close>

type_synonym role = go_string

definition RoleCustomer :: role where "RoleCustomer = ''customer''"

definition RoleOperator :: role where "RoleOperator = ''operator''"

definition RoleAdmin :: role where "RoleAdmin = ''admin''"

definition RoleAuditor :: role where "RoleAuditor = ''auditor''"

lemmas role_defs = RoleCustomer_def RoleOperator_def RoleAdmin_def RoleAuditor_def

record principal =
  principal_ID :: go_string
  principal_Role :: role

definition Principal_Valid :: "principal \<Rightarrow> bool" where
  "Principal_Valid p =
     (if TrimSpace (principal_ID p) = [] \<or> 128 < length (principal_ID p) then False
      else principal_Role p \<in> {RoleCustomer, RoleOperator, RoleAdmin, RoleAuditor})"

record account =
  account_ID :: go_string
  account_OwnerID :: go_string
  account_Currency :: go_string
  account_BalanceMinor :: int64
  account_System :: bool
  account_CreatedAt :: time

definition ValidateCurrency :: "go_string \<Rightarrow> error option" where
  "ValidateCurrency v =
     (if length v \<noteq> 3 \<or> ToUpper v \<noteq> v then Some ErrInvalidInput
      else if \<exists>r \<in> set (runes v). r < 65 \<or> 90 < r then Some ErrInvalidInput
      else None)"

record transfer_intent =
  intent_FromAccountID :: go_string
  intent_ToAccountID :: go_string
  intent_AmountMinor :: int64
  intent_Description :: go_string

definition TransferIntent_Equal :: "transfer_intent \<Rightarrow> transfer_intent \<Rightarrow> bool" where
  "TransferIntent_Equal i other \<longleftrightarrow>
     intent_FromAccountID i = intent_FromAccountID other \<and>
     intent_ToAccountID i = intent_ToAccountID other \<and>
     intent_AmountMinor i = intent_AmountMinor other \<and>
     intent_Description i = intent_Description other"

record transfer =
  transfer_ID :: go_string
  transfer_IdempotencyKey :: go_string
  transfer_Intent :: transfer_intent
  transfer_Currency :: go_string
  transfer_ActorID :: go_string
  transfer_CreatedAt :: time

section \<open>Postings\<close>

record posting =
  posting_ID :: go_string
  posting_TransactionID :: go_string
  posting_AccountID :: go_string
  posting_AmountMinor :: int64
  posting_Currency :: go_string
  posting_Sequence :: int64
  posting_CreatedAt :: time

text \<open>The loop of \<^verbatim>\<open>ValidateBalanced\<close>, with the running sum of type \<^verbatim>\<open>int64\<close>.\<close>

fun balance_loop :: "go_string \<Rightarrow> int64 \<Rightarrow> posting list \<Rightarrow> error + int64" where
  "balance_loop currency acc [] = Inr acc"
| "balance_loop currency acc (p # ps) =
     (if TrimSpace (posting_ID p) = [] \<or> TrimSpace (posting_TransactionID p) = [] \<or>
         TrimSpace (posting_AccountID p) = [] then Inl ErrInvalidInput
      else if posting_AmountMinor p = 0 then Inl ErrInvalidInput
      else if posting_Currency p \<noteq> currency then Inl ErrCurrencyMismatch
      else if (0 <s posting_AmountMinor p \<and> MaxInt64 - posting_AmountMinor p <s acc) \<or>
              (posting_AmountMinor p <s 0 \<and> acc <s MinInt64 - posting_AmountMinor p)
        then Inl ErrInvalidInput
      else balance_loop currency (acc + posting_AmountMinor p) ps)"

definition ValidateBalanced :: "posting list \<Rightarrow> error option" where
  "ValidateBalanced postings =
     (if length postings < 2 then Some ErrInvalidInput
      else let currency = posting_Currency (hd postings) in
        (case ValidateCurrency currency of
           Some e \<Rightarrow> Some e
         | None \<Rightarrow>
             (case balance_loop currency 0 postings of
                Inl e \<Rightarrow> Some e
              | Inr tot \<Rightarrow> if tot \<noteq> 0 then Some ErrInvalidInput else None)))"

section \<open>Audit records and risk events\<close>

text \<open>The values the program stores in the \<^verbatim>\<open>map[string]any\<close> of an audit record.\<close>

datatype any_value = AnyString go_string | AnyInt64 int64

text \<open>\<^verbatim>\<open>Metadata\<close> is nil (\<open>None\<close>) or a finite map, given by its entries.\<close>

record audit_record =
  audit_ID :: go_string
  audit_ActorID :: go_string
  audit_Action :: go_string
  audit_ResourceID :: go_string
  audit_Outcome :: go_string
  audit_Metadata :: "(go_string \<times> any_value) list option"
  audit_CreatedAt :: time

definition ValidateAuditRecord :: "audit_record \<Rightarrow> go_string \<Rightarrow> go_string \<Rightarrow> error option" where
  "ValidateAuditRecord record expectedActorID expectedResourceID =
     (if TrimSpace (audit_ID record) = [] \<or> 128 < length (audit_ID record) \<or>
         TrimSpace (audit_ActorID record) = [] \<or> 128 < length (audit_ActorID record) \<or>
         TrimSpace (audit_Action record) = [] \<or> 128 < length (audit_Action record) \<or>
         TrimSpace (audit_ResourceID record) = [] \<or> 128 < length (audit_ResourceID record) \<or>
         TrimSpace (audit_Outcome record) = [] \<or> 64 < length (audit_Outcome record) \<or>
         IsZero (audit_CreatedAt record) then Some ErrInvalidInput
      else if expectedActorID \<noteq> [] \<and> audit_ActorID record \<noteq> expectedActorID then Some ErrInvalidInput
      else if audit_ResourceID record \<noteq> expectedResourceID then Some ErrInvalidInput
      else None)"

record risk_event =
  risk_ID :: go_string
  risk_Type :: go_string
  risk_Severity :: go_string
  risk_TransferID :: go_string
  risk_Reason :: go_string
  risk_CreatedAt :: time

definition ValidateRiskEvent :: "risk_event \<Rightarrow> go_string \<Rightarrow> error option" where
  "ValidateRiskEvent event expectedTransferID =
     (if TrimSpace (risk_ID event) = [] \<or> 128 < length (risk_ID event) \<or>
         TrimSpace (risk_Type event) = [] \<or> 64 < length (risk_Type event) \<or>
         risk_TransferID event \<noteq> expectedTransferID \<or>
         TrimSpace (risk_Reason event) = [] \<or> 500 < length (risk_Reason event) \<or>
         IsZero (risk_CreatedAt event) then Some ErrInvalidInput
      else if risk_Severity event \<in> {''low'', ''medium'', ''high'', ''critical''} then None
      else Some ErrInvalidInput)"

section \<open>Currency codes\<close>

lemma runes_ascii: "(\<And>c. c \<in> set v \<Longrightarrow> bv c < 0x80) \<Longrightarrow> runes v = map bv v"
proof (induction v)
  case Nil
  then show ?case by (simp add: runes.simps)
next
  case (Cons c v)
  then show ?case by (subst runes.simps) (simp add: DecodeRune_def)
qed

lemma DecodeRune_non_ascii:
  assumes "s \<noteq> []" "0x80 \<le> bv (hd s)"
  shows "0x80 \<le> fst (DecodeRune s)"
proof (cases s)
  case (Cons b t)
  have "\<not> bv b < 0x80" using assms Cons by simp
  show ?thesis
    unfolding Cons DecodeRune_def Let_def list.case if_not_P [OF \<open>\<not> bv b < 0x80\<close>]
    by (intro if_cases [where P = "\<lambda>d. 0x80 \<le> fst d"]; unfold fst_conv byte_in_def; (elim conjE)?)
      (auto simp: RuneError_def split: if_splits)
qed (use assms in simp)

lemma runes_ascii_only: "(\<And>r. r \<in> set (runes s) \<Longrightarrow> r < 0x80) \<Longrightarrow> c \<in> set s \<Longrightarrow> bv c < 0x80"
proof (induction s)
  case Nil
  then show ?case by simp
next
  case (Cons b s)
  have rs: "runes (b # s) = fst (DecodeRune (b # s)) # runes (drop (snd (DecodeRune (b # s))) (b # s))"
    by (subst runes.simps) simp
  have b: "bv b < 0x80"
    using Cons.prems(1) [of "fst (DecodeRune (b # s))"] DecodeRune_non_ascii [of "b # s"]
    by (force simp: rs)
  then have "runes (b # s) = bv b # runes s"
    by (subst runes.simps) (simp add: DecodeRune_def)
  with Cons b show ?case by auto
qed

lemma ValidateCurrency_iff:
  "ValidateCurrency v = None \<longleftrightarrow> length v = 3 \<and> (\<forall>c \<in> set v. 65 \<le> bv c \<and> bv c \<le> 90)"
proof
  assume L: "ValidateCurrency v = None"
  then have len: "length v = 3" and rs: "\<And>r. r \<in> set (runes v) \<Longrightarrow> 65 \<le> r \<and> r \<le> 90"
    by (auto simp: ValidateCurrency_def not_less split: if_splits)
  have "r < 0x80" if "r \<in> set (runes v)" for r using rs [OF that] by simp
  then have "runes v = map bv v"
    by (intro runes_ascii runes_ascii_only)
  then have "65 \<le> bv c \<and> bv c \<le> 90" if "c \<in> set v" for c
    using rs [of "bv c"] that by simp
  with len show "length v = 3 \<and> (\<forall>c \<in> set v. 65 \<le> bv c \<and> bv c \<le> 90)" by blast
next
  assume R: "length v = 3 \<and> (\<forall>c \<in> set v. 65 \<le> bv c \<and> bv c \<le> 90)"
  have "bv c < 0x80" if "c \<in> set v" for c using R that by fastforce
  then have "runes v = map bv v" by (rule runes_ascii)
  moreover have "ToUpper v = v"
    unfolding ToUpper_def upper_char_def using R by (intro map_idI) fastforce
  ultimately show "ValidateCurrency v = None"
    using R by (fastforce simp: ValidateCurrency_def)
qed

section \<open>Balanced postings\<close>

text \<open>The exact integer sum of the amounts of a list of postings.\<close>

definition amount_sum :: "posting list \<Rightarrow> int" where
  "amount_sum ps = (\<Sum>p\<leftarrow>ps. sint (posting_AmountMinor p))"

lemma amount_sum_simps [simp]:
  "amount_sum [] = 0"
  "amount_sum (p # ps) = sint (posting_AmountMinor p) + amount_sum ps"
  "amount_sum (ps @ qs) = amount_sum ps + amount_sum qs"
  by (simp_all add: amount_sum_def)

text \<open>A posting that the checks of the loop before the sum accept.\<close>

definition posting_ok :: "go_string \<Rightarrow> posting \<Rightarrow> bool" where
  "posting_ok currency p \<longleftrightarrow>
     TrimSpace (posting_ID p) \<noteq> [] \<and> TrimSpace (posting_TransactionID p) \<noteq> [] \<and>
     TrimSpace (posting_AccountID p) \<noteq> [] \<and> posting_AmountMinor p \<noteq> 0 \<and> posting_Currency p = currency"

lemma add_guard:
  "\<not> ((0 <s x \<and> MaxInt64 - x <s s) \<or> (x <s 0 \<and> s <s MinInt64 - x)) \<longleftrightarrow> fits64 (sint s + sint x)"
proof -
  consider "sint x < 0" | "sint x = 0" | "0 < sint x" by linarith
  then show ?thesis
  proof cases
    case 1
    then show ?thesis using sint_bounds64 [of s] by (auto simp: int64_simps fits64_def)
  next
    case 2
    then show ?thesis using fits64_sint [of s] by (auto simp: int64_simps)
  next
    case 3
    then show ?thesis using sint_bounds64 [of s] by (auto simp: int64_simps fits64_def)
  qed
qed

lemma balance_loop_Cons:
  "balance_loop currency s (p # ps) = Inr r \<longleftrightarrow>
     posting_ok currency p \<and> fits64 (sint s + sint (posting_AmountMinor p)) \<and>
     balance_loop currency (s + posting_AmountMinor p) ps = Inr r"
  using add_guard [of "posting_AmountMinor p" s] by (auto simp: posting_ok_def)

lemma all_le_Suc: "(\<forall>k \<le> Suc n. P k) \<longleftrightarrow> P 0 \<and> (\<forall>k \<le> n. P (Suc k))"
  by (metis Suc_le_mono not0_implies_Suc zero_le)

lemma balance_loop_iff:
  "balance_loop currency s ps = Inr r \<longleftrightarrow>
     (\<forall>p \<in> set ps. posting_ok currency p) \<and>
     (\<forall>k \<le> length ps. fits64 (sint s + amount_sum (take k ps))) \<and>
     sint r = sint s + amount_sum ps"
proof (induction ps arbitrary: s)
  case Nil
  then show ?case by (auto dest: signed_word_eqI [symmetric])
next
  case (Cons p ps)
  let ?x = "posting_AmountMinor p"
  show ?case
  proof (cases "fits64 (sint s + sint ?x)")
    case True
    then show ?thesis
      unfolding balance_loop_Cons Cons.IH
      by (auto simp: sint_add64 all_le_Suc add.assoc)
  next
    case False
    then have "\<not> (\<forall>k \<le> length (p # ps). fits64 (sint s + amount_sum (take k (p # ps))))"
      by (auto intro!: exI [of _ 1])
    with False show ?thesis unfolding balance_loop_Cons by blast
  qed
qed

lemma ValidateBalanced_iff:
  "ValidateBalanced ps = None \<longleftrightarrow>
     2 \<le> length ps \<and> ValidateCurrency (posting_Currency (hd ps)) = None \<and>
     (\<forall>p \<in> set ps. posting_ok (posting_Currency (hd ps)) p) \<and>
     (\<forall>k \<le> length ps. fits64 (amount_sum (take k ps))) \<and> amount_sum ps = 0"
proof -
  have "ValidateBalanced ps = None \<longleftrightarrow>
     2 \<le> length ps \<and> ValidateCurrency (posting_Currency (hd ps)) = None \<and>
     balance_loop (posting_Currency (hd ps)) 0 ps = Inr 0"
    by (auto simp: ValidateBalanced_def Let_def split: option.splits sum.splits)
  then show ?thesis by (simp add: balance_loop_iff)
qed

text \<open>The two postings that every operation of the program creates: opposite amounts.\<close>

lemma ValidateBalanced_pair:
  "ValidateBalanced [p, q] = None \<longleftrightarrow>
     ValidateCurrency (posting_Currency p) = None \<and> posting_ok (posting_Currency p) p \<and>
     posting_ok (posting_Currency p) q \<and>
     sint (posting_AmountMinor p) + sint (posting_AmountMinor q) = 0"
  by (auto simp: ValidateBalanced_iff all_le_Suc)

end
