(* ===== verification/Domain_Properties.thy ===== *)
theory Domain_Properties
  imports Domain
begin

text \<open>The validation of the double entry, as a property of the domain package.\<close>

definition demo_entry :: "posting list" where
  "demo_entry = (let p = \<lparr>posting_ID = ''p'', posting_TransactionID = ''t'', posting_AccountID = ''a'', posting_AmountMinor = 250,
       posting_Currency = ''GBP'', posting_Sequence = 1, posting_CreatedAt = 1\<rparr> in [p, p\<lparr>posting_AmountMinor := -250\<rparr>])"

text \<open>C39. \<^verbatim>\<open>ValidateBalanced\<close> decides balance exactly, for lists of any length and amounts up to the limits of
  \<^verbatim>\<open>int64\<close>: it accepts exactly the lists of at least two complete postings of one valid currency whose amounts add up to
  zero as integers and none of whose partial sums leaves the range; so its 64-bit sum never wraps to a wrong answer.\<close>

theorem balanced_exact:
  "ValidateBalanced ps = None \<longleftrightarrow>
     2 \<le> length ps \<and> ValidateCurrency (posting_Currency (hd ps)) = None \<and>
     (\<forall>p \<in> set ps. posting_ok (posting_Currency (hd ps)) p) \<and>
     (\<forall>k \<le> length ps. fits64 (amount_sum (take k ps))) \<and> amount_sum ps = 0"
  by (rule ValidateBalanced_iff)

theorem balanced_exact_witness: "ValidateBalanced demo_entry = None"
proof -
  have "ValidateCurrency ''GBP'' = None" by (simp add: ValidateCurrency_iff bv_def)
  then show ?thesis
    unfolding balanced_exact
    by (auto simp: demo_entry_def posting_ok_def fits64_def TrimSpace_solid solid_def bv_def IsSpace_def take_Cons split: nat.split)
qed

end
