(* ===== verification/Store.thy ===== *)
theory Store
  imports Domain
begin

text \<open>
  \<^verbatim>\<open>internal/store\<close>: the inputs of the repository operations and the interface
  \<^verbatim>\<open>store.Repository\<close>. A Go interface is a record of functions; every operation takes the
  state \<open>'s\<close> of the adapter and returns its result with the next state.
\<close>

record create_account_input =
  cai_Account :: account
  cai_OpeningTransactionID :: go_string
  cai_OpeningPostingIDs :: "go_string \<times> go_string"
  cai_Audit :: audit_record

record apply_transfer_input =
  ati_Transfer :: transfer
  ati_PostingIDs :: "go_string \<times> go_string"
  ati_Audit :: audit_record
  ati_Risk :: "risk_event option"

record transfer_result =
  result_Transfer :: transfer
  result_Replayed :: bool

record 's repository =
  repo_Ping :: "ctx \<Rightarrow> 's \<Rightarrow> error option \<times> 's"
  repo_CreateAccount :: "ctx \<Rightarrow> create_account_input \<Rightarrow> 's \<Rightarrow> error option \<times> 's"
  repo_GetAccount :: "ctx \<Rightarrow> go_string \<Rightarrow> 's \<Rightarrow> (error + account) \<times> 's"
  repo_ApplyTransfer :: "ctx \<Rightarrow> apply_transfer_input \<Rightarrow> 's \<Rightarrow> (error + transfer_result) \<times> 's"
  repo_ListJournal :: "ctx \<Rightarrow> int \<Rightarrow> 's \<Rightarrow> (error + posting list) \<times> 's"
  repo_ListAudit :: "ctx \<Rightarrow> int \<Rightarrow> 's \<Rightarrow> (error + audit_record list) \<times> 's"
  repo_ListRiskEvents :: "ctx \<Rightarrow> int \<Rightarrow> 's \<Rightarrow> (error + risk_event list) \<times> 's"

section \<open>Histories of a repository\<close>

text \<open>
  A history is a sequence of the operations that can change a repository, in the order in
  which the repository serves them. \<open>committed\<close> are the transfers that a history commits:
  those answered with \<^verbatim>\<open>Replayed\<close> false.
\<close>

datatype repo_op =
    OpCreate ctx create_account_input
  | OpTransfer ctx apply_transfer_input

fun repo_step :: "'s repository \<Rightarrow> repo_op \<Rightarrow> 's \<Rightarrow> 's" where
  "repo_step R (OpCreate c inp) s = snd (repo_CreateAccount R c inp s)"
| "repo_step R (OpTransfer c inp) s = snd (repo_ApplyTransfer R c inp s)"

fun repo_run :: "'s repository \<Rightarrow> repo_op list \<Rightarrow> 's \<Rightarrow> 's" where
  "repo_run R [] s = s"
| "repo_run R (op # ops) s = repo_run R ops (repo_step R op s)"

lemma repo_run_append: "repo_run R (xs @ ys) s = repo_run R ys (repo_run R xs s)"
  by (induction xs arbitrary: s) simp_all

fun committed_by :: "'s repository \<Rightarrow> repo_op \<Rightarrow> 's \<Rightarrow> transfer list" where
  "committed_by R (OpCreate c inp) s = []"
| "committed_by R (OpTransfer c inp) s =
     (case fst (repo_ApplyTransfer R c inp s) of
        Inr res \<Rightarrow> if result_Replayed res then [] else [result_Transfer res]
      | Inl e \<Rightarrow> [])"

fun committed :: "'s repository \<Rightarrow> repo_op list \<Rightarrow> 's \<Rightarrow> transfer list" where
  "committed R [] s = []"
| "committed R (op # ops) s = committed_by R op s @ committed R ops (repo_step R op s)"

text \<open>The scope of a transfer (actor and key) and the change it makes to an account's balance.\<close>

definition scope_of :: "transfer \<Rightarrow> go_string \<times> go_string" where
  "scope_of t = (transfer_ActorID t, transfer_IdempotencyKey t)"

definition delta :: "go_string \<Rightarrow> transfer \<Rightarrow> int" where
  "delta k t =
     (let i = transfer_Intent t in
      (if k = intent_ToAccountID i then sint (intent_AmountMinor i) else 0) -
      (if k = intent_FromAccountID i then sint (intent_AmountMinor i) else 0))"

text \<open>The fields of an account other than its balance.\<close>

definition same_identity :: "account \<Rightarrow> account \<Rightarrow> bool" where
  "same_identity a b \<longleftrightarrow> a\<lparr>account_BalanceMinor := account_BalanceMinor b\<rparr> = b"

lemma same_identity_refl [simp]: "same_identity a a"
  by (simp add: same_identity_def)

lemma same_identity_trans: "same_identity a b \<Longrightarrow> same_identity b c \<Longrightarrow> same_identity a c"
  by (auto simp: same_identity_def) (metis account.surjective account.update_convs(4))

lemma same_identity_fields:
  "same_identity a b \<Longrightarrow> account_ID b = account_ID a \<and> account_OwnerID b = account_OwnerID a \<and>
     account_Currency b = account_Currency a \<and> account_System b = account_System a \<and>
     account_CreatedAt b = account_CreatedAt a"
  by (simp add: same_identity_def) (metis account.select_convs account.update_convs(4) account.surjective)

section \<open>The contract of a repository\<close>

text \<open>
  What \<^verbatim>\<open>ApplyTransfer\<close> and \<^verbatim>\<open>CreateAccount\<close> promise to their clients, over two views of an
  adapter's state: its accounts and the transfer bound to each pair of actor and key. An adapter
  may store a transfer in a normal form (\<open>stored\<close>), which keeps its intent.
\<close>

locale ledger_repository =
  fixes R :: "'s repository"
    and invar :: "'s \<Rightarrow> bool"
    and accts :: "'s \<Rightarrow> go_string \<Rightarrow> account option"
    and bound :: "'s \<Rightarrow> go_string \<times> go_string \<Rightarrow> transfer option"
    and stored :: "transfer \<Rightarrow> transfer"
    and input_ok :: "apply_transfer_input \<Rightarrow> bool"
  assumes invar_step: "invar s \<Longrightarrow> invar (repo_step R op s)"
    and create_accts: "invar s \<Longrightarrow> repo_CreateAccount R c cinp s = (r, s') \<Longrightarrow> accts s k = Some a \<Longrightarrow>
      \<exists>a'. accts s' k = Some a' \<and> same_identity a a' \<and> (\<not> account_System a \<longrightarrow> a' = a)"
    and create_bound: "invar s \<Longrightarrow> repo_CreateAccount R c cinp s = (r, s') \<Longrightarrow> bound s' = bound s"
    and apply_error: "invar s \<Longrightarrow> repo_ApplyTransfer R c inp s = (Inl e, s') \<Longrightarrow> s' = s"
    and apply_replay: "invar s \<Longrightarrow> repo_ApplyTransfer R c inp s = (Inr res, s') \<Longrightarrow> result_Replayed res \<Longrightarrow>
      s' = s \<and> bound s (scope_of (ati_Transfer inp)) = Some (result_Transfer res) \<and>
      transfer_Intent (result_Transfer res) = transfer_Intent (ati_Transfer inp)"
    and apply_bound: "invar s \<Longrightarrow> input_ok inp \<Longrightarrow> bound s (scope_of (ati_Transfer inp)) = Some t \<Longrightarrow>
      repo_ApplyTransfer R None inp s =
        (if transfer_Intent t = transfer_Intent (ati_Transfer inp)
         then Inr \<lparr>result_Transfer = t, result_Replayed = True\<rparr> else Inl ErrIdempotencyConflict, s)"
    and apply_fresh: "invar s \<Longrightarrow> repo_ApplyTransfer R c inp s = (Inr res, s') \<Longrightarrow> \<not> result_Replayed res \<Longrightarrow>
      result_Transfer res = ati_Transfer inp \<and>
      bound s (scope_of (ati_Transfer inp)) = None \<and>
      bound s' = (bound s)(scope_of (ati_Transfer inp) \<mapsto> stored (ati_Transfer inp)) \<and>
      (\<forall>k a. accts s k = Some a \<longrightarrow> (\<exists>a'. accts s' k = Some a' \<and> same_identity a a' \<and>
        sint (account_BalanceMinor a') = sint (account_BalanceMinor a) + delta k (ati_Transfer inp)))"
    and accts_funded: "invar s \<Longrightarrow> accts s k = Some a \<Longrightarrow> \<not> account_System a \<Longrightarrow> 0 \<le> sint (account_BalanceMinor a)"
    and accts_currency: "invar s \<Longrightarrow> accts s k = Some a \<Longrightarrow> ValidateCurrency (account_Currency a) = None"
    and stored_intent: "transfer_Intent (stored t) = transfer_Intent t"
    and bound_scope: "invar s \<Longrightarrow> bound s sc = Some t \<Longrightarrow> scope_of t = sc"
    and get_reads: "invar s \<Longrightarrow> repo_GetAccount R c k s = (g, s') \<Longrightarrow>
      s' = s \<and> (\<forall>a. g = Inr a \<longrightarrow> accts s k = Some a \<and> \<not> account_System a)"
    and get_finds: "invar s \<Longrightarrow> accts s k = Some a \<Longrightarrow> \<not> account_System a \<Longrightarrow> repo_GetAccount R None k s = (Inr a, s)"
begin

lemma invar_run: "invar s \<Longrightarrow> invar (repo_run R ops s)"
  by (induction ops arbitrary: s) (simp_all add: invar_step)

lemma transfer_outcome:
  assumes "invar s"
  obtains (unchanged) "committed_by R (OpTransfer c inp) s = []" "repo_step R (OpTransfer c inp) s = s"
  | (fresh) res where "repo_ApplyTransfer R c inp s = (Inr res, repo_step R (OpTransfer c inp) s)"
      "\<not> result_Replayed res" "committed_by R (OpTransfer c inp) s = [ati_Transfer inp]"
proof (cases "repo_ApplyTransfer R c inp s")
  case (Pair r s')
  show ?thesis
  proof (cases r)
    case (Inl e)
    with Pair show ?thesis using apply_error [OF assms] unchanged by simp
  next
    case (Inr res)
    with Pair show ?thesis
      using apply_replay [OF assms] apply_fresh [OF assms] unchanged fresh by (cases "result_Replayed res") auto
  qed
qed

lemma bound_step:
  assumes "invar s" "bound s sc = Some t"
  shows "bound (repo_step R op s) sc = Some t"
proof (cases op)
  case (OpCreate c inp)
  then show ?thesis
    using create_bound [OF assms(1), of c inp] assms(2) by (metis prod.collapse repo_step.simps(1))
next
  case (OpTransfer c inp)
  from assms(1) show ?thesis
  proof (cases rule: transfer_outcome [where c = c and inp = inp])
    case unchanged
    with OpTransfer assms(2) show ?thesis by simp
  next
    case (fresh res)
    with OpTransfer assms(2) show ?thesis using apply_fresh [OF assms(1) fresh(1,2)] by auto
  qed
qed

lemma bound_run: "invar s \<Longrightarrow> bound s sc = Some t \<Longrightarrow> bound (repo_run R ops s) sc = Some t"
  by (induction ops arbitrary: s) (simp_all add: invar_step bound_step)

text \<open>A committed transfer answers every later request of its scope, without effect.\<close>

lemma replay_after_commit:
  assumes "invar s" "repo_ApplyTransfer R c inp s = (Inr res, s')" "\<not> result_Replayed res"
    and "input_ok again" "scope_of (ati_Transfer again) = scope_of (ati_Transfer inp)"
  shows "repo_ApplyTransfer R None again (repo_run R ops s') =
    (if transfer_Intent (ati_Transfer inp) = transfer_Intent (ati_Transfer again)
     then Inr \<lparr>result_Transfer = stored (ati_Transfer inp), result_Replayed = True\<rparr>
     else Inl ErrIdempotencyConflict, repo_run R ops s')"
proof -
  have inv: "invar s'" using invar_step [OF assms(1), of "OpTransfer c inp"] assms(2) by simp
  have "bound s' (scope_of (ati_Transfer inp)) = Some (stored (ati_Transfer inp))"
    using apply_fresh [OF assms(1-3)] by simp
  then have "bound (repo_run R ops s') (scope_of (ati_Transfer again)) = Some (stored (ati_Transfer inp))"
    using bound_run [OF inv] assms(5) by simp
  then show ?thesis
    using apply_bound [OF invar_run [OF inv] assms(4)] by (simp add: stored_intent)
qed

lemma committed_by_unbound:
  "invar s \<Longrightarrow> t \<in> set (committed_by R op s) \<Longrightarrow>
     bound s (scope_of t) = None \<and> bound (repo_step R op s) (scope_of t) \<noteq> None"
proof (cases op)
  case (OpTransfer c inp)
  assume "invar s" and t: "t \<in> set (committed_by R op s)"
  from \<open>invar s\<close> show ?thesis
  proof (cases rule: transfer_outcome [where c = c and inp = inp])
    case unchanged
    with OpTransfer t show ?thesis by (simp del: committed_by.simps)
  next
    case (fresh res)
    with OpTransfer t show ?thesis
      using apply_fresh [OF \<open>invar s\<close> fresh(1,2)] by (simp del: committed_by.simps)
  qed
qed simp

lemma committed_unbound: "invar s \<Longrightarrow> t \<in> set (committed R ops s) \<Longrightarrow> bound s (scope_of t) = None"
proof (induction ops arbitrary: s)
  case (Cons op ops)
  then show ?case
    using committed_by_unbound [of s t op] bound_step [of s "scope_of t" _ op] invar_step [of s op]
    by (cases "bound s (scope_of t)") fastforce+
qed simp

text \<open>At most one transfer is committed for a scope, whatever is retried and interleaved.\<close>

lemma committed_scopes_distinct: "invar s \<Longrightarrow> distinct (map scope_of (committed R ops s))"
proof (induction ops arbitrary: s)
  case (Cons op ops)
  have inv: "invar (repo_step R op s)" using Cons.prems by (rule invar_step)
  have "distinct (map scope_of (committed_by R op s))"
    by (cases op) (auto split: sum.splits)
  moreover have "scope_of t \<noteq> scope_of u"
    if "t \<in> set (committed_by R op s)" "u \<in> set (committed R ops (repo_step R op s))" for t u
    using committed_by_unbound [OF Cons.prems that(1)] committed_unbound [OF inv that(2)] by auto
  ultimately have "set (map scope_of (committed_by R op s)) \<inter>
      set (map scope_of (committed R ops (repo_step R op s))) = {}"
    by fastforce
  then show ?case
    using Cons.IH [OF inv] \<open>distinct (map scope_of (committed_by R op s))\<close> by simp
qed simp

lemma accts_step:
  assumes "invar s" "accts s k = Some a"
  shows "\<exists>a'. accts (repo_step R op s) k = Some a' \<and> same_identity a a' \<and>
    (\<not> account_System a \<longrightarrow> sint (account_BalanceMinor a') =
       sint (account_BalanceMinor a) + sum_list (map (delta k) (committed_by R op s)))"
proof (cases op)
  case (OpCreate c inp)
  then show ?thesis
    using create_accts [OF assms(1) _ assms(2), of c inp]
    by (metis add.right_neutral committed_by.simps(1) list.simps(8) prod.collapse repo_step.simps(1) sum_list.Nil)
next
  case (OpTransfer c inp)
  from assms(1) show ?thesis
  proof (cases rule: transfer_outcome [where c = c and inp = inp])
    case unchanged
    with OpTransfer assms(2) show ?thesis by simp
  next
    case (fresh res)
    with OpTransfer show ?thesis using apply_fresh [OF assms(1) fresh(1,2)] assms(2) by auto
  qed
qed

text \<open>The balance of an account after a history is what the committed transfers make of it.\<close>

lemma accts_run:
  assumes "invar s" "accts s k = Some a"
  shows "\<exists>a'. accts (repo_run R ops s) k = Some a' \<and> same_identity a a' \<and>
    (\<not> account_System a \<longrightarrow> sint (account_BalanceMinor a') =
       sint (account_BalanceMinor a) + sum_list (map (delta k) (committed R ops s)))"
  using assms
proof (induction ops arbitrary: s a)
  case (Cons op ops)
  from accts_step [OF Cons.prems, of op] obtain b where
    b: "accts (repo_step R op s) k = Some b" "same_identity a b"
      "\<not> account_System a \<Longrightarrow> sint (account_BalanceMinor b) =
         sint (account_BalanceMinor a) + sum_list (map (delta k) (committed_by R op s))"
    by blast
  with Cons.IH [OF invar_step [OF Cons.prems(1)] b(1)] show ?case
    by (auto dest: same_identity_fields intro: same_identity_trans simp: add.assoc)
qed simp

lemma no_overspend:
  assumes "invar s" "accts s k = Some a" "\<not> account_System a"
  shows "0 \<le> sint (account_BalanceMinor a) + sum_list (map (delta k) (committed R ops s))"
proof -
  from accts_run [OF assms(1,2)] assms(3) obtain a' where
    "accts (repo_run R ops s) k = Some a'" "\<not> account_System a'"
    "sint (account_BalanceMinor a') = sint (account_BalanceMinor a) + sum_list (map (delta k) (committed R ops s))"
    using same_identity_fields by metis
  then show ?thesis using accts_funded [OF invar_run [OF assms(1)]] by metis
qed

end

end
