(* ===== verification/Memory_Store.thy ===== *)
theory Memory_Store
  imports Store "HOL-Library.AList"
begin

text \<open>
  \<^verbatim>\<open>internal/store/memory\<close>: the in-memory adapter. \<open>mem_store\<close> is the struct \<^verbatim>\<open>Store\<close>
  without its mutex; every operation holds the mutex for its whole body after the check of the
  context, so each is one atomic step on the state.
\<close>

record idempotency_scope =
  scope_actorID :: go_string
  scope_key :: go_string

record idempotency_record =
  idem_transfer :: transfer

record mem_store =
  mem_accounts :: "go_string \<rightharpoonup> account"
  mem_idempotency :: "idempotency_scope \<rightharpoonup> idempotency_record"
  mem_transactions :: "go_string set"
  mem_postings :: "go_string set"
  mem_audits :: "go_string set"
  mem_risks :: "go_string set"
  mem_journal :: "posting list"
  mem_audit :: "audit_record list"
  mem_risk :: "risk_event list"
  mem_sequence :: int64

definition mem_New :: mem_store where
  "mem_New = \<lparr>mem_accounts = Map.empty, mem_idempotency = Map.empty, mem_transactions = {},
     mem_postings = {}, mem_audits = {}, mem_risks = {}, mem_journal = [], mem_audit = [],
     mem_risk = [], mem_sequence = 0\<rparr>"

definition systemAccountID :: "go_string \<Rightarrow> go_string" where
  "systemAccountID currency = ''system:equity:'' @ currency"

definition mem_Ping :: "ctx \<Rightarrow> mem_store \<Rightarrow> error option \<times> mem_store" where
  "mem_Ping ctx s = (ctx, s)"

text \<open>The copy loop of \<^verbatim>\<open>cloneAudit\<close> over the entries of the metadata.\<close>

definition cloneAudit :: "audit_record \<Rightarrow> audit_record" where
  "cloneAudit r =
     (case audit_Metadata r of
        None \<Rightarrow> r
      | Some m \<Rightarrow> r\<lparr>audit_Metadata := Some (fold (\<lambda>(k, v) out. AList.update k v out) m [])\<rparr>)"

text \<open>
  The opening entry of \<^verbatim>\<open>CreateAccount\<close> (the block under \<^verbatim>\<open>BalanceMinor > 0\<close>): the two
  postings against the system account of the currency, which is created when it is missing.
\<close>

definition opening_postings :: "create_account_input \<Rightarrow> int64 \<Rightarrow> posting list" where
  "opening_postings inp sq =
     (let a = cai_Account inp in
      [\<lparr>posting_ID = fst (cai_OpeningPostingIDs inp), posting_TransactionID = cai_OpeningTransactionID inp,
        posting_AccountID = account_ID a, posting_AmountMinor = account_BalanceMinor a,
        posting_Currency = account_Currency a, posting_Sequence = sq + 1,
        posting_CreatedAt = account_CreatedAt a\<rparr>,
       \<lparr>posting_ID = snd (cai_OpeningPostingIDs inp), posting_TransactionID = cai_OpeningTransactionID inp,
        posting_AccountID = systemAccountID (account_Currency a), posting_AmountMinor = - account_BalanceMinor a,
        posting_Currency = account_Currency a, posting_Sequence = sq + 2,
        posting_CreatedAt = account_CreatedAt a\<rparr>])"

definition system_account_or_new :: "create_account_input \<Rightarrow> mem_store \<Rightarrow> account" where
  "system_account_or_new inp s =
     (let a = cai_Account inp; systemID = systemAccountID (account_Currency a) in
      case mem_accounts s systemID of
        Some sys \<Rightarrow> sys
      | None \<Rightarrow> \<lparr>account_ID = systemID, account_OwnerID = ''system'', account_Currency = account_Currency a,
                 account_BalanceMinor = 0, account_System = True, account_CreatedAt = account_CreatedAt a\<rparr>)"

definition opening_commit :: "create_account_input \<Rightarrow> mem_store \<Rightarrow> mem_store" where
  "opening_commit inp s =
     (let a = cai_Account inp; systemID = systemAccountID (account_Currency a);
          sys = system_account_or_new inp s in
      s\<lparr>mem_accounts := (mem_accounts s)(systemID \<mapsto>
           sys\<lparr>account_BalanceMinor := account_BalanceMinor sys - account_BalanceMinor a\<rparr>),
        mem_sequence := mem_sequence s + 2,
        mem_transactions := insert (cai_OpeningTransactionID inp) (mem_transactions s),
        mem_postings := insert (snd (cai_OpeningPostingIDs inp))
          (insert (fst (cai_OpeningPostingIDs inp)) (mem_postings s)),
        mem_journal := mem_journal s @ opening_postings inp (mem_sequence s)\<rparr>)"

definition opening_entry :: "create_account_input \<Rightarrow> mem_store \<Rightarrow> error + mem_store" where
  "opening_entry inp s =
     (let a = cai_Account inp; p0 = fst (cai_OpeningPostingIDs inp); p1 = snd (cai_OpeningPostingIDs inp);
          sys = system_account_or_new inp s in
      if cai_OpeningTransactionID inp = [] \<or> p0 = [] \<or> p1 = [] \<or> p0 = p1 then Inl ErrInvalidInput
      else if cai_OpeningTransactionID inp \<in> mem_transactions s then Inl ErrInvalidInput
      else if p0 \<in> mem_postings s \<or> p1 \<in> mem_postings s then Inl ErrInvalidInput
      else if mem_accounts s (systemAccountID (account_Currency a)) \<noteq> None \<and>
              (\<not> account_System sys \<or> account_OwnerID sys \<noteq> ''system'' \<or>
               account_Currency sys \<noteq> account_Currency a) then Inl ErrInvalidInput
      else if account_BalanceMinor sys <s MinInt64 + account_BalanceMinor a then Inl ErrInvalidInput
      else (case ValidateBalanced (opening_postings inp (mem_sequence s)) of
              Some e \<Rightarrow> Inl e
            | None \<Rightarrow> Inr (opening_commit inp s)))"

text \<open>The last three statements of \<^verbatim>\<open>CreateAccount\<close>.\<close>

definition add_account :: "create_account_input \<Rightarrow> mem_store \<Rightarrow> mem_store" where
  "add_account inp s =
     s\<lparr>mem_accounts := (mem_accounts s)(account_ID (cai_Account inp) \<mapsto> cai_Account inp),
       mem_audits := insert (audit_ID (cai_Audit inp)) (mem_audits s),
       mem_audit := mem_audit s @ [cloneAudit (cai_Audit inp)]\<rparr>"

definition mem_CreateAccount :: "ctx \<Rightarrow> create_account_input \<Rightarrow> mem_store \<Rightarrow> error option \<times> mem_store" where
  "mem_CreateAccount ctx inp s =
     (case ctx of Some e \<Rightarrow> (Some e, s) | None \<Rightarrow>
      let a = cai_Account inp in
      if account_ID a = [] \<or> 128 < length (account_ID a) \<or>
         account_OwnerID a = [] \<or> 128 < length (account_OwnerID a) \<or> IsZero (account_CreatedAt a) \<or>
         account_System a \<or> HasPrefix (account_ID a) ''system:'' then (Some ErrInvalidInput, s)
      else if mem_accounts s (account_ID a) \<noteq> None then (Some ErrInvalidInput, s)
      else (case ValidateCurrency (account_Currency a) of Some e \<Rightarrow> (Some e, s) | None \<Rightarrow>
      if account_BalanceMinor a <s 0 then (Some ErrInvalidInput, s)
      else (case ValidateAuditRecord (cai_Audit inp) [] (account_ID a) of Some e \<Rightarrow> (Some e, s) | None \<Rightarrow>
      if audit_ID (cai_Audit inp) \<in> mem_audits s then (Some ErrInvalidInput, s)
      else if 0 <s account_BalanceMinor a then
        (case opening_entry inp s of
           Inl e \<Rightarrow> (Some e, s)
         | Inr s' \<Rightarrow> (None, add_account inp s'))
      else (None, add_account inp s))))"

definition mem_GetAccount :: "ctx \<Rightarrow> go_string \<Rightarrow> mem_store \<Rightarrow> (error + account) \<times> mem_store" where
  "mem_GetAccount ctx aid s =
     (case ctx of Some e \<Rightarrow> (Inl e, s) | None \<Rightarrow>
      (case mem_accounts s aid of
         None \<Rightarrow> (Inl ErrNotFound, s)
       | Some a \<Rightarrow> if account_System a then (Inl ErrNotFound, s) else (Inr a, s)))"

text \<open>The postings and the writes of \<^verbatim>\<open>ApplyTransfer\<close> after its last check.\<close>

definition transfer_postings :: "apply_transfer_input \<Rightarrow> account \<Rightarrow> account \<Rightarrow> int64 \<Rightarrow> posting list" where
  "transfer_postings inp from to sq =
     (let t = ati_Transfer inp; amt = intent_AmountMinor (transfer_Intent t) in
      [\<lparr>posting_ID = fst (ati_PostingIDs inp), posting_TransactionID = transfer_ID t,
        posting_AccountID = account_ID from, posting_AmountMinor = - amt,
        posting_Currency = account_Currency from, posting_Sequence = sq + 1,
        posting_CreatedAt = transfer_CreatedAt t\<rparr>,
       \<lparr>posting_ID = snd (ati_PostingIDs inp), posting_TransactionID = transfer_ID t,
        posting_AccountID = account_ID to, posting_AmountMinor = amt,
        posting_Currency = account_Currency to, posting_Sequence = sq + 2,
        posting_CreatedAt = transfer_CreatedAt t\<rparr>])"

definition transfer_scope :: "transfer \<Rightarrow> idempotency_scope" where
  "transfer_scope t = \<lparr>scope_actorID = transfer_ActorID t, scope_key = transfer_IdempotencyKey t\<rparr>"

definition transfer_commit :: "apply_transfer_input \<Rightarrow> account \<Rightarrow> account \<Rightarrow> mem_store \<Rightarrow> mem_store" where
  "transfer_commit inp from to s =
     (let t = ati_Transfer inp; amt = intent_AmountMinor (transfer_Intent t) in
      s\<lparr>mem_accounts := (mem_accounts s)
          (account_ID from \<mapsto> from\<lparr>account_BalanceMinor := account_BalanceMinor from - amt\<rparr>,
           account_ID to \<mapsto> to\<lparr>account_BalanceMinor := account_BalanceMinor to + amt\<rparr>),
        mem_sequence := mem_sequence s + 2,
        mem_transactions := insert (transfer_ID t) (mem_transactions s),
        mem_postings := insert (snd (ati_PostingIDs inp)) (insert (fst (ati_PostingIDs inp)) (mem_postings s)),
        mem_audits := insert (audit_ID (ati_Audit inp)) (mem_audits s),
        mem_journal := mem_journal s @ transfer_postings inp from to (mem_sequence s),
        mem_audit := mem_audit s @ [cloneAudit (ati_Audit inp)],
        mem_risk := (case ati_Risk inp of None \<Rightarrow> mem_risk s | Some r \<Rightarrow> mem_risk s @ [r]),
        mem_risks := (case ati_Risk inp of None \<Rightarrow> mem_risks s | Some r \<Rightarrow> insert (risk_ID r) (mem_risks s)),
        mem_idempotency := (mem_idempotency s)(transfer_scope t \<mapsto> \<lparr>idem_transfer = t\<rparr>)\<rparr>)"

text \<open>The checks of \<^verbatim>\<open>ApplyTransfer\<close> on its input alone, before it looks the scope up.\<close>

definition transfer_input_error :: "apply_transfer_input \<Rightarrow> error option" where
  "transfer_input_error inp =
     (let t = ati_Transfer inp; i = transfer_Intent t; p0 = fst (ati_PostingIDs inp); p1 = snd (ati_PostingIDs inp) in
      if transfer_ID t = [] \<or> 128 < length (transfer_ID t) \<or>
         length (transfer_IdempotencyKey t) < 8 \<or> 128 < length (transfer_IdempotencyKey t) \<or>
         transfer_ActorID t = [] \<or> 128 < length (transfer_ActorID t) \<or> IsZero (transfer_CreatedAt t) \<or>
         intent_FromAccountID i = [] \<or> 128 < length (intent_FromAccountID i) \<or>
         intent_ToAccountID i = [] \<or> 128 < length (intent_ToAccountID i) \<or>
         200 < RuneCountInString (intent_Description i) then Some ErrInvalidInput
      else if p0 = [] \<or> p1 = [] \<or> p0 = p1 then Some ErrInvalidInput
      else (case ValidateAuditRecord (ati_Audit inp) (transfer_ActorID t) (transfer_ID t) of
        Some e \<Rightarrow> Some e
      | None \<Rightarrow>
         (case ati_Risk inp of None \<Rightarrow> None | Some r \<Rightarrow> ValidateRiskEvent r (transfer_ID t))))"

text \<open>\<^verbatim>\<open>ApplyTransfer\<close> for a scope without a record: the remaining checks, then the writes.\<close>

definition transfer_fresh :: "apply_transfer_input \<Rightarrow> mem_store \<Rightarrow> (error + transfer_result) \<times> mem_store" where
  "transfer_fresh inp s =
     (let t = ati_Transfer inp; i = transfer_Intent t;
          p0 = fst (ati_PostingIDs inp); p1 = snd (ati_PostingIDs inp) in
      if transfer_ID t \<in> mem_transactions s then (Inl ErrInvalidInput, s)
      else if p0 \<in> mem_postings s \<or> p1 \<in> mem_postings s then (Inl ErrInvalidInput, s)
      else if audit_ID (ati_Audit inp) \<in> mem_audits s then (Inl ErrInvalidInput, s)
      else if \<exists>r \<in> set_option (ati_Risk inp). risk_ID r \<in> mem_risks s then (Inl ErrInvalidInput, s)
      else (case mem_accounts s (intent_FromAccountID i) of
        None \<Rightarrow> (Inl ErrNotFound, s)
      | Some from \<Rightarrow> if account_System from then (Inl ErrNotFound, s) else
      (case mem_accounts s (intent_ToAccountID i) of
        None \<Rightarrow> (Inl ErrNotFound, s)
      | Some to \<Rightarrow> if account_System to then (Inl ErrNotFound, s)
      else if account_ID from = account_ID to then (Inl ErrInvalidInput, s)
      else if account_Currency from \<noteq> account_Currency to \<or> account_Currency from \<noteq> transfer_Currency t
        then (Inl ErrCurrencyMismatch, s)
      else if intent_AmountMinor i \<le>s 0 then (Inl ErrInvalidInput, s)
      else if account_BalanceMinor from <s intent_AmountMinor i then (Inl ErrInsufficientFunds, s)
      else if MaxInt64 - intent_AmountMinor i <s account_BalanceMinor to then (Inl ErrInvalidInput, s)
      else (case ValidateBalanced (transfer_postings inp from to (mem_sequence s)) of
        Some e \<Rightarrow> (Inl e, s)
      | None \<Rightarrow> (Inr \<lparr>result_Transfer = t, result_Replayed = False\<rparr>, transfer_commit inp from to s)))))"

definition mem_ApplyTransfer ::
  "ctx \<Rightarrow> apply_transfer_input \<Rightarrow> mem_store \<Rightarrow> (error + transfer_result) \<times> mem_store" where
  "mem_ApplyTransfer ctx inp s =
     (case ctx of Some e \<Rightarrow> (Inl e, s) | None \<Rightarrow>
      (case transfer_input_error inp of Some e \<Rightarrow> (Inl e, s) | None \<Rightarrow>
      (case mem_idempotency s (transfer_scope (ati_Transfer inp)) of
         Some existing \<Rightarrow>
           if \<not> TransferIntent_Equal (transfer_Intent (idem_transfer existing)) (transfer_Intent (ati_Transfer inp))
           then (Inl ErrIdempotencyConflict, s)
           else (Inr \<lparr>result_Transfer = idem_transfer existing, result_Replayed = True\<rparr>, s)
       | None \<Rightarrow> transfer_fresh inp s)))"

text \<open>The list operations. A limit is a Go \<^verbatim>\<open>int\<close>; it is only compared and subtracted.\<close>

definition normaliseLimit :: "int \<Rightarrow> int" where
  "normaliseLimit limit = (if limit \<le> 0 then 100 else if 1000 < limit then 1000 else limit)"

definition tail_from :: "'a list \<Rightarrow> int \<Rightarrow> 'a list" where
  "tail_from xs limit = drop (nat (max 0 (int (length xs) - limit))) xs"

definition mem_ListJournal :: "ctx \<Rightarrow> int \<Rightarrow> mem_store \<Rightarrow> (error + posting list) \<times> mem_store" where
  "mem_ListJournal ctx limit s =
     (case ctx of Some e \<Rightarrow> (Inl e, s) | None \<Rightarrow> (Inr (tail_from (mem_journal s) (normaliseLimit limit)), s))"

definition mem_ListAudit :: "ctx \<Rightarrow> int \<Rightarrow> mem_store \<Rightarrow> (error + audit_record list) \<times> mem_store" where
  "mem_ListAudit ctx limit s =
     (case ctx of Some e \<Rightarrow> (Inl e, s)
      | None \<Rightarrow> (Inr (map cloneAudit (tail_from (mem_audit s) (normaliseLimit limit))), s))"

text \<open>\<^verbatim>\<open>sort.Slice\<close> leaves the order of events with equal times open; the model takes the
  stable order.\<close>

definition mem_ListRiskEvents :: "ctx \<Rightarrow> int \<Rightarrow> mem_store \<Rightarrow> (error + risk_event list) \<times> mem_store" where
  "mem_ListRiskEvents ctx limit s =
     (case ctx of Some e \<Rightarrow> (Inl e, s)
      | None \<Rightarrow> (Inr (sort_key risk_CreatedAt (tail_from (mem_risk s) (normaliseLimit limit))), s))"

definition mem_repository :: "mem_store repository" where
  "mem_repository = \<lparr>repo_Ping = mem_Ping, repo_CreateAccount = mem_CreateAccount,
     repo_GetAccount = mem_GetAccount, repo_ApplyTransfer = mem_ApplyTransfer,
     repo_ListJournal = mem_ListJournal, repo_ListAudit = mem_ListAudit,
     repo_ListRiskEvents = mem_ListRiskEvents\<rparr>"

section \<open>What the operations do\<close>

text \<open>The checks that \<^verbatim>\<open>ApplyTransfer\<close> has passed when it writes.\<close>

definition transfer_ready :: "apply_transfer_input \<Rightarrow> account \<Rightarrow> account \<Rightarrow> mem_store \<Rightarrow> bool" where
  "transfer_ready inp from to s \<longleftrightarrow>
     (let t = ati_Transfer inp; i = transfer_Intent t; amt = intent_AmountMinor i in
      transfer_input_error inp = None \<and> mem_idempotency s (transfer_scope t) = None \<and>
      transfer_ID t \<notin> mem_transactions s \<and>
      fst (ati_PostingIDs inp) \<notin> mem_postings s \<and> snd (ati_PostingIDs inp) \<notin> mem_postings s \<and>
      audit_ID (ati_Audit inp) \<notin> mem_audits s \<and>
      (\<forall>r \<in> set_option (ati_Risk inp). risk_ID r \<notin> mem_risks s) \<and>
      mem_accounts s (intent_FromAccountID i) = Some from \<and> \<not> account_System from \<and>
      mem_accounts s (intent_ToAccountID i) = Some to \<and> \<not> account_System to \<and>
      account_ID from \<noteq> account_ID to \<and> account_Currency from = account_Currency to \<and>
      account_Currency from = transfer_Currency t \<and>
      0 < sint amt \<and> sint amt \<le> sint (account_BalanceMinor from) \<and>
      sint (account_BalanceMinor to) + sint amt < 2 ^ 63 \<and>
      ValidateBalanced (transfer_postings inp from to (mem_sequence s)) = None)"

lemma TransferIntent_Equal_iff [simp]: "TransferIntent_Equal i j \<longleftrightarrow> i = j"
  by (auto simp: TransferIntent_Equal_def)

definition fresh_outcome :: "apply_transfer_input \<Rightarrow> mem_store \<Rightarrow> (error + transfer_result) \<times> mem_store \<Rightarrow> bool" where
  "fresh_outcome inp s x \<longleftrightarrow> (\<exists>e. x = (Inl e, s)) \<or>
     (\<exists>fa ta. transfer_ready inp fa ta s \<and>
        x = (Inr \<lparr>result_Transfer = ati_Transfer inp, result_Replayed = False\<rparr>, transfer_commit inp fa ta s))"

lemma fresh_outcome_error: "fresh_outcome inp s (Inl e, s)"
  by (simp add: fresh_outcome_def)

lemma transfer_fresh_outcome:
  assumes "transfer_input_error inp = None" "mem_idempotency s (transfer_scope (ati_Transfer inp)) = None"
  shows "fresh_outcome inp s (transfer_fresh inp s)"
  unfolding transfer_fresh_def Let_def
  by (intro check_chain [where P = "fresh_outcome inp s"] fresh_outcome_error)
    (use assms in \<open>auto simp: fresh_outcome_def transfer_ready_def Let_def int64_simps not_less not_le\<close>)

lemma mem_ApplyTransfer_cases:
  assumes "mem_ApplyTransfer ctx inp s = (r, s')"
  obtains (error) e where "r = Inl e" "s' = s"
  | (replay) x where "ctx = None" "transfer_input_error inp = None"
      "mem_idempotency s (transfer_scope (ati_Transfer inp)) = Some x"
      "transfer_Intent (idem_transfer x) = transfer_Intent (ati_Transfer inp)"
      "r = Inr \<lparr>result_Transfer = idem_transfer x, result_Replayed = True\<rparr>" "s' = s"
  | (commit) fa ta where "ctx = None" "transfer_ready inp fa ta s"
      "r = Inr \<lparr>result_Transfer = ati_Transfer inp, result_Replayed = False\<rparr>"
      "s' = transfer_commit inp fa ta s"
proof (cases "ctx = None \<and> transfer_input_error inp = None")
  case False
  with assms have "\<exists>e. r = Inl e \<and> s' = s"
    by (auto simp: mem_ApplyTransfer_def split: option.splits)
  with error show ?thesis by blast
next
  case ok: True
  show ?thesis
  proof (cases "mem_idempotency s (transfer_scope (ati_Transfer inp))")
    case None
    with ok assms have "fresh_outcome inp s (r, s')"
      using transfer_fresh_outcome [of inp s] by (simp add: mem_ApplyTransfer_def)
    with ok error commit show ?thesis by (auto simp: fresh_outcome_def)
  next
    case (Some x)
    with ok assms error replay show ?thesis
      by (auto simp: mem_ApplyTransfer_def split: if_splits)
  qed
qed

text \<open>The same for \<^verbatim>\<open>CreateAccount\<close>: the checks it has passed, and the state it leaves.\<close>

definition create_ready :: "create_account_input \<Rightarrow> mem_store \<Rightarrow> bool" where
  "create_ready inp s \<longleftrightarrow>
     (let a = cai_Account inp in
      account_ID a \<noteq> [] \<and> length (account_ID a) \<le> 128 \<and> account_OwnerID a \<noteq> [] \<and>
      length (account_OwnerID a) \<le> 128 \<and> \<not> IsZero (account_CreatedAt a) \<and> \<not> account_System a \<and>
      \<not> HasPrefix (account_ID a) ''system:'' \<and> mem_accounts s (account_ID a) = None \<and>
      ValidateCurrency (account_Currency a) = None \<and> 0 \<le> sint (account_BalanceMinor a) \<and>
      ValidateAuditRecord (cai_Audit inp) [] (account_ID a) = None \<and>
      audit_ID (cai_Audit inp) \<notin> mem_audits s)"

definition opening_ready :: "create_account_input \<Rightarrow> mem_store \<Rightarrow> bool" where
  "opening_ready inp s \<longleftrightarrow>
     (let a = cai_Account inp; sys = system_account_or_new inp s;
          p0 = fst (cai_OpeningPostingIDs inp); p1 = snd (cai_OpeningPostingIDs inp) in
      p0 \<noteq> p1 \<and> cai_OpeningTransactionID inp \<notin> mem_transactions s \<and>
      p0 \<notin> mem_postings s \<and> p1 \<notin> mem_postings s \<and>
      (mem_accounts s (systemAccountID (account_Currency a)) \<noteq> None \<longrightarrow>
         account_System sys \<and> account_OwnerID sys = ''system'' \<and> account_Currency sys = account_Currency a) \<and>
      - (2 ^ 63) \<le> sint (account_BalanceMinor sys) - sint (account_BalanceMinor a) \<and>
      ValidateBalanced (opening_postings inp (mem_sequence s)) = None)"

definition create_commit :: "create_account_input \<Rightarrow> mem_store \<Rightarrow> mem_store" where
  "create_commit inp s =
     add_account inp (if 0 < sint (account_BalanceMinor (cai_Account inp)) then opening_commit inp s else s)"

lemma opening_entry_Inr:
  assumes "opening_entry inp s = Inr s'" "0 < sint (account_BalanceMinor (cai_Account inp))"
  shows "opening_ready inp s \<and> s' = opening_commit inp s"
  using assms
  by (auto simp: opening_entry_def opening_ready_def Let_def int64_simps not_less
      split: if_splits option.splits)

definition create_outcome :: "create_account_input \<Rightarrow> mem_store \<Rightarrow> error option \<times> mem_store \<Rightarrow> bool" where
  "create_outcome inp s x \<longleftrightarrow> (\<exists>e. x = (Some e, s)) \<or>
     (create_ready inp s \<and> (0 < sint (account_BalanceMinor (cai_Account inp)) \<longrightarrow> opening_ready inp s) \<and>
      x = (None, create_commit inp s))"

lemma create_outcome_error: "create_outcome inp s (Some e, s)"
  by (simp add: create_outcome_def)

lemma mem_CreateAccount_outcome: "create_outcome inp s (mem_CreateAccount ctx inp s)"
  unfolding mem_CreateAccount_def Let_def
  by (intro check_chain [where P = "create_outcome inp s"] create_outcome_error)
    (auto simp: create_outcome_def create_ready_def create_commit_def Let_def int64_simps not_less
      dest: opening_entry_Inr)

lemma mem_CreateAccount_cases:
  assumes "mem_CreateAccount ctx inp s = (r, s')"
  obtains (error) e where "r = Some e" "s' = s"
  | (commit) "create_ready inp s" "0 < sint (account_BalanceMinor (cai_Account inp)) \<Longrightarrow> opening_ready inp s"
      "r = None" "s' = create_commit inp s"
  using assms mem_CreateAccount_outcome [of inp s ctx] by (auto simp: create_outcome_def)

text \<open>Conversely, an operation whose checks pass commits.\<close>

lemma mem_ApplyTransfer_commitI:
  "transfer_ready inp fa ta s \<Longrightarrow>
     mem_ApplyTransfer None inp s =
       (Inr \<lparr>result_Transfer = ati_Transfer inp, result_Replayed = False\<rparr>, transfer_commit inp fa ta s)"
  by (auto simp: transfer_ready_def mem_ApplyTransfer_def transfer_fresh_def Let_def int64_simps)

lemma opening_entry_commitI:
  assumes "opening_ready inp s" "0 < sint (account_BalanceMinor (cai_Account inp))"
  shows "opening_entry inp s = Inr (opening_commit inp s)"
proof -
  have "posting_ok (account_Currency (cai_Account inp)) (hd (opening_postings inp (mem_sequence s)))"
    "posting_ok (account_Currency (cai_Account inp)) (hd (tl (opening_postings inp (mem_sequence s))))"
    using assms(1) by (simp_all add: opening_ready_def ValidateBalanced_pair opening_postings_def Let_def)
  then have "cai_OpeningTransactionID inp \<noteq> []" "fst (cai_OpeningPostingIDs inp) \<noteq> []"
    "snd (cai_OpeningPostingIDs inp) \<noteq> []"
    by (auto simp: posting_ok_def opening_postings_def Let_def)
  with assms show ?thesis
    by (auto simp: opening_entry_def opening_ready_def Let_def int64_simps)
qed

lemma mem_CreateAccount_commitI:
  assumes "create_ready inp s"
    and "0 < sint (account_BalanceMinor (cai_Account inp)) \<longrightarrow> opening_ready inp s"
  shows "mem_CreateAccount None inp s = (None, create_commit inp s)"
  using assms opening_entry_commitI [of inp s]
  by (auto simp: create_ready_def mem_CreateAccount_def create_commit_def Let_def int64_simps)

lemma tail_from_last_n: "tail_from xs l = last_n (nat l) xs"
  by (cases "0 \<le> l") (auto simp: tail_from_def last_n_def nat_diff_distrib max_def)

end
