(* ===== verification/Memory_Invariant.thy ===== *)
theory Memory_Invariant
  imports Memory_Store
begin

text \<open>
  The invariant of the in-memory adapter, one definition per relation between its fields, and
  its preservation by \<^verbatim>\<open>CreateAccount\<close> and \<^verbatim>\<open>ApplyTransfer\<close>. The states that the operations
  reach from \<^verbatim>\<open>New()\<close> are an inductive predicate; the mutex makes every execution of several
  goroutines such a sequence of operations.
\<close>

definition account_entries :: "posting list \<Rightarrow> go_string \<Rightarrow> posting list" where
  "account_entries ps k = filter (\<lambda>p. posting_AccountID p = k) ps"

definition txn_entries :: "posting list \<Rightarrow> go_string \<Rightarrow> posting list" where
  "txn_entries ps t = filter (\<lambda>p. posting_TransactionID p = t) ps"

text \<open>The balance of an account according to the journal.\<close>

definition journal_balance :: "posting list \<Rightarrow> go_string \<Rightarrow> int" where
  "journal_balance ps k = amount_sum (account_entries ps k)"

definition account_wf :: "go_string \<Rightarrow> account \<Rightarrow> bool" where
  "account_wf k a \<longleftrightarrow> account_ID a = k \<and> ValidateCurrency (account_Currency a) = None \<and>
     (if account_System a then k = systemAccountID (account_Currency a) \<and> account_OwnerID a = ''system''
      else \<not> HasPrefix k ''system:'' \<and> 0 \<le> sint (account_BalanceMinor a))"

definition inv_accounts :: "mem_store \<Rightarrow> bool" where
  "inv_accounts s \<longleftrightarrow> (\<forall>k a. mem_accounts s k = Some a \<longrightarrow> account_wf k a)"

definition inv_balances :: "mem_store \<Rightarrow> bool" where
  "inv_balances s \<longleftrightarrow> (\<forall>k. case mem_accounts s k of
     Some a \<Rightarrow> sint (account_BalanceMinor a) = journal_balance (mem_journal s) k
   | None \<Rightarrow> account_entries (mem_journal s) k = [])"

definition inv_currency :: "mem_store \<Rightarrow> bool" where
  "inv_currency s \<longleftrightarrow> (\<forall>p \<in> set (mem_journal s). \<forall>a. mem_accounts s (posting_AccountID p) = Some a \<longrightarrow>
     posting_Currency p = account_Currency a)"

definition inv_transactions :: "mem_store \<Rightarrow> bool" where
  "inv_transactions s \<longleftrightarrow> (\<forall>t. if t \<in> mem_transactions s
     then \<exists>p q. txn_entries (mem_journal s) t = [p, q] \<and> ValidateBalanced [p, q] = None \<and>
       posting_AccountID p \<noteq> posting_AccountID q
     else txn_entries (mem_journal s) t = [])"

definition inv_ids :: "mem_store \<Rightarrow> bool" where
  "inv_ids s \<longleftrightarrow>
     distinct (map posting_ID (mem_journal s)) \<and> set (map posting_ID (mem_journal s)) = mem_postings s \<and>
     distinct (map audit_ID (mem_audit s)) \<and> set (map audit_ID (mem_audit s)) = mem_audits s \<and>
     distinct (map risk_ID (mem_risk s)) \<and> set (map risk_ID (mem_risk s)) = mem_risks s"

definition inv_sequence :: "mem_store \<Rightarrow> bool" where
  "inv_sequence s \<longleftrightarrow>
     mem_sequence s = of_nat (length (mem_journal s)) \<and>
     map posting_Sequence (mem_journal s) = map (\<lambda>i. of_nat (Suc i)) [0..<length (mem_journal s)]"

text \<open>The journal entries of a transfer, as account and signed amount.\<close>

definition transfer_moves :: "transfer \<Rightarrow> (go_string \<times> int) list" where
  "transfer_moves t =
     (let i = transfer_Intent t in
      [(intent_FromAccountID i, - sint (intent_AmountMinor i)), (intent_ToAccountID i, sint (intent_AmountMinor i))])"

definition entry_moves :: "posting list \<Rightarrow> (go_string \<times> int) list" where
  "entry_moves ps = map (\<lambda>p. (posting_AccountID p, sint (posting_AmountMinor p))) ps"

definition inv_idempotency :: "mem_store \<Rightarrow> bool" where
  "inv_idempotency s \<longleftrightarrow>
     (\<forall>sc r. mem_idempotency s sc = Some r \<longrightarrow>
        transfer_scope (idem_transfer r) = sc \<and> transfer_ID (idem_transfer r) \<in> mem_transactions s \<and>
        entry_moves (txn_entries (mem_journal s) (transfer_ID (idem_transfer r))) = transfer_moves (idem_transfer r))"

definition inv_finite :: "mem_store \<Rightarrow> bool" where
  "inv_finite s \<longleftrightarrow> finite (dom (mem_accounts s))"

definition mem_inv :: "mem_store \<Rightarrow> bool" where
  "mem_inv s \<longleftrightarrow> inv_finite s \<and> inv_accounts s \<and> inv_balances s \<and> inv_currency s \<and> inv_transactions s \<and> inv_ids s \<and>
     inv_sequence s \<and> inv_idempotency s"

lemmas inv_defs = inv_finite_def inv_accounts_def inv_balances_def inv_currency_def inv_transactions_def inv_ids_def
  inv_sequence_def inv_idempotency_def

lemma mem_inv_account_wf: "mem_inv s \<Longrightarrow> mem_accounts s k = Some a \<Longrightarrow> account_wf k a"
  by (simp add: mem_inv_def inv_accounts_def)

inductive mem_reachable :: "mem_store \<Rightarrow> bool" where
  new: "mem_reachable mem_New"
| create: "mem_reachable s \<Longrightarrow> mem_CreateAccount ctx inp s = (r, s') \<Longrightarrow> mem_reachable s'"
| transfer: "mem_reachable s \<Longrightarrow> mem_ApplyTransfer ctx tin s = (res, s') \<Longrightarrow> mem_reachable s'"

section \<open>Facts about journals and identifiers\<close>

lemma account_entries_simps [simp]:
  "account_entries [] k = []"
  "account_entries (p # ps) k = (if posting_AccountID p = k then p # account_entries ps k else account_entries ps k)"
  "account_entries (ps @ qs) k = account_entries ps k @ account_entries qs k"
  by (simp_all add: account_entries_def)

lemma txn_entries_simps [simp]:
  "txn_entries [] t = []"
  "txn_entries (p # ps) t = (if posting_TransactionID p = t then p # txn_entries ps t else txn_entries ps t)"
  "txn_entries (ps @ qs) t = txn_entries ps t @ txn_entries qs t"
  by (simp_all add: txn_entries_def)

lemma journal_balance_simps [simp]:
  "journal_balance [] k = 0"
  "journal_balance (ps @ qs) k = journal_balance ps k + journal_balance qs k"
  by (simp_all add: journal_balance_def)

lemma journal_balance_none: "account_entries ps k = [] \<Longrightarrow> journal_balance ps k = 0"
  by (simp add: journal_balance_def)

lemma audit_ID_cloneAudit [simp]: "audit_ID (cloneAudit r) = audit_ID r"
  by (simp add: cloneAudit_def split: option.split)

lemma HasPrefix_system [simp]: "HasPrefix (systemAccountID c) ''system:''"
  by (simp add: HasPrefix_def systemAccountID_def)

lemma inv_balances_Some:
  "inv_balances s \<Longrightarrow> mem_accounts s k = Some a \<Longrightarrow>
     sint (account_BalanceMinor a) = journal_balance (mem_journal s) k"
  by (simp add: inv_balances_def split: option.splits)

lemma inv_balances_None:
  assumes "inv_balances s" "mem_accounts s k = None" "p \<in> set (mem_journal s)"
  shows "posting_AccountID p \<noteq> k"
  using assms(1) [unfolded inv_balances_def, rule_format, of k] assms(2,3)
  by (auto simp: account_entries_def filter_empty_conv)

section \<open>Preservation by a transfer\<close>

lemma transfer_ready_facts:
  assumes "transfer_ready inp fa ta s"
  shows "mem_accounts s (intent_FromAccountID (transfer_Intent (ati_Transfer inp))) = Some fa"
    "mem_accounts s (intent_ToAccountID (transfer_Intent (ati_Transfer inp))) = Some ta"
    "account_ID fa \<noteq> account_ID ta" "\<not> account_System fa" "\<not> account_System ta"
    "account_Currency fa = account_Currency ta" "account_Currency fa = transfer_Currency (ati_Transfer inp)"
    "0 < sint (intent_AmountMinor (transfer_Intent (ati_Transfer inp)))"
    "sint (intent_AmountMinor (transfer_Intent (ati_Transfer inp))) \<le> sint (account_BalanceMinor fa)"
    "sint (account_BalanceMinor ta) + sint (intent_AmountMinor (transfer_Intent (ati_Transfer inp))) < 2 ^ 63"
    "transfer_ID (ati_Transfer inp) \<notin> mem_transactions s"
    "fst (ati_PostingIDs inp) \<notin> mem_postings s" "snd (ati_PostingIDs inp) \<notin> mem_postings s"
    "fst (ati_PostingIDs inp) \<noteq> snd (ati_PostingIDs inp)"
    "audit_ID (ati_Audit inp) \<notin> mem_audits s"
    "ati_Risk inp = Some rk \<Longrightarrow> risk_ID rk \<notin> mem_risks s"
    "mem_idempotency s (transfer_scope (ati_Transfer inp)) = None"
    "ValidateBalanced (transfer_postings inp fa ta (mem_sequence s)) = None"
    "transfer_input_error inp = None"
  using assms by (auto simp: transfer_ready_def transfer_input_error_def Let_def split: if_splits)

lemma transfer_accounts:
  assumes "inv_accounts s" "transfer_ready inp fa ta s"
  shows "account_ID fa = intent_FromAccountID (transfer_Intent (ati_Transfer inp))"
    "account_ID ta = intent_ToAccountID (transfer_Intent (ati_Transfer inp))"
    "account_wf (account_ID fa) fa" "account_wf (account_ID ta) ta"
  using assms transfer_ready_facts(1,2) [OF assms(2)] by (auto simp: inv_accounts_def account_wf_def)

lemma transfer_commit_accounts:
  assumes "inv_accounts s" "transfer_ready inp fa ta s"
  shows "inv_accounts (transfer_commit inp fa ta s)"
  using assms transfer_ready_facts [OF assms(2)] transfer_accounts [OF assms]
  by (auto simp: inv_accounts_def transfer_commit_def Let_def account_wf_def sint_debit sint_credit
      split: if_splits)

lemma transfer_commit_balances:
  assumes "inv_accounts s" "inv_balances s" "transfer_ready inp fa ta s"
  shows "inv_balances (transfer_commit inp fa ta s)"
proof -
  note f = transfer_ready_facts [OF assms(3)] and a = transfer_accounts [OF assms(1,3)]
  show ?thesis
    unfolding inv_balances_def
  proof
    fix k
    have "case mem_accounts s k of
       Some a \<Rightarrow> sint (account_BalanceMinor a) = journal_balance (mem_journal s) k
     | None \<Rightarrow> account_entries (mem_journal s) k = []"
      using assms(2) unfolding inv_balances_def by blast
    then show "case mem_accounts (transfer_commit inp fa ta s) k of
       Some a \<Rightarrow> sint (account_BalanceMinor a) = journal_balance (mem_journal (transfer_commit inp fa ta s)) k
     | None \<Rightarrow> account_entries (mem_journal (transfer_commit inp fa ta s)) k = []"
      using f(1-10) a(1,2)
      by (auto simp: transfer_commit_def transfer_postings_def Let_def journal_balance_def
          sint_debit sint_credit sint_neg64 split: option.splits)
  qed
qed

lemma transfer_commit_currency:
  assumes "inv_accounts s" "inv_currency s" "transfer_ready inp fa ta s"
  shows "inv_currency (transfer_commit inp fa ta s)"
  using assms(2) transfer_ready_facts(1,2,6) [OF assms(3)] transfer_accounts(1,2) [OF assms(1,3)]
  by (auto simp: inv_currency_def transfer_commit_def transfer_postings_def Let_def)

lemma transfer_commit_transactions:
  assumes "inv_transactions s" "transfer_ready inp fa ta s"
  shows "inv_transactions (transfer_commit inp fa ta s)"
  using assms(1) transfer_ready_facts(3,11,18) [OF assms(2)]
  by (auto simp: inv_transactions_def transfer_commit_def transfer_postings_def Let_def split: if_splits)

lemma transfer_commit_ids:
  assumes "inv_ids s" "transfer_ready inp fa ta s"
  shows "inv_ids (transfer_commit inp fa ta s)"
  using assms(1) transfer_ready_facts(12-16) [OF assms(2)]
  by (auto simp: inv_ids_def transfer_commit_def transfer_postings_def Let_def split: option.splits)

lemma transfer_commit_sequence:
  assumes "inv_sequence s"
  shows "inv_sequence (transfer_commit inp fa ta s)"
  using assms
  by (auto simp: inv_sequence_def transfer_commit_def transfer_postings_def Let_def)

lemma transfer_commit_idempotency:
  assumes "inv_accounts s" "inv_transactions s" "inv_idempotency s" "transfer_ready inp fa ta s"
  shows "inv_idempotency (transfer_commit inp fa ta s)"
  using assms(2,3) transfer_ready_facts(8,11) [OF assms(4)] transfer_accounts(1,2) [OF assms(1,4)]
  by (fastforce simp: inv_idempotency_def inv_transactions_def transfer_commit_def transfer_postings_def
      entry_moves_def transfer_moves_def Let_def sint_neg64 split: if_splits)

lemma transfer_commit_finite: "inv_finite s \<Longrightarrow> inv_finite (transfer_commit inp fa ta s)"
  by (simp add: inv_finite_def transfer_commit_def Let_def)

lemma transfer_commit_inv: "mem_inv s \<Longrightarrow> transfer_ready inp fa ta s \<Longrightarrow> mem_inv (transfer_commit inp fa ta s)"
  unfolding mem_inv_def
  by (simp add: transfer_commit_finite transfer_commit_accounts transfer_commit_balances transfer_commit_currency
      transfer_commit_transactions transfer_commit_ids transfer_commit_sequence transfer_commit_idempotency)

section \<open>Preservation by the creation of an account\<close>

lemma create_ready_facts:
  assumes "create_ready inp s"
  shows "\<not> account_System (cai_Account inp)" "\<not> HasPrefix (account_ID (cai_Account inp)) ''system:''"
    "mem_accounts s (account_ID (cai_Account inp)) = None"
    "ValidateCurrency (account_Currency (cai_Account inp)) = None"
    "0 \<le> sint (account_BalanceMinor (cai_Account inp))"
    "audit_ID (cai_Audit inp) \<notin> mem_audits s"
    "account_ID (cai_Account inp) \<noteq> systemAccountID c" "systemAccountID c \<noteq> account_ID (cai_Account inp)"
  using assms HasPrefix_system [of c] by (auto simp: create_ready_def Let_def simp del: HasPrefix_system)

lemma opening_ready_facts:
  assumes "opening_ready inp s"
  shows "fst (cai_OpeningPostingIDs inp) \<noteq> snd (cai_OpeningPostingIDs inp)"
    "cai_OpeningTransactionID inp \<notin> mem_transactions s"
    "fst (cai_OpeningPostingIDs inp) \<notin> mem_postings s" "snd (cai_OpeningPostingIDs inp) \<notin> mem_postings s"
    "- (2 ^ 63) \<le> sint (account_BalanceMinor (system_account_or_new inp s)) - sint (account_BalanceMinor (cai_Account inp))"
    "ValidateBalanced (opening_postings inp (mem_sequence s)) = None"
  using assms by (auto simp: opening_ready_def Let_def)

text \<open>The system account that the opening entry debits, present before or not.\<close>

lemma system_account_wf:
  assumes "inv_accounts s" "create_ready inp s" "opening_ready inp s"
  defines "sys \<equiv> system_account_or_new inp s" and "c \<equiv> account_Currency (cai_Account inp)"
  shows "account_ID sys = systemAccountID c" "account_System sys" "account_OwnerID sys = ''system''"
    "account_Currency sys = c"
  using assms create_ready_facts(4) [OF assms(2)]
  by (auto simp: inv_accounts_def account_wf_def system_account_or_new_def opening_ready_def Let_def
      split: option.splits)

lemma sint_system_debit:
  assumes "opening_ready inp s" "0 < sint (account_BalanceMinor (cai_Account inp))"
  shows "sint (account_BalanceMinor (system_account_or_new inp s) - account_BalanceMinor (cai_Account inp))
    = sint (account_BalanceMinor (system_account_or_new inp s)) - sint (account_BalanceMinor (cai_Account inp))"
  using assms opening_ready_facts(5) [OF assms(1)]
    sint_bounds64 [of "account_BalanceMinor (system_account_or_new inp s)"]
  by (intro sint_sub64) (simp add: fits64_def)

lemma create_commit_accounts:
  assumes "inv_accounts s" "create_ready inp s"
    and "0 < sint (account_BalanceMinor (cai_Account inp)) \<Longrightarrow> opening_ready inp s"
  shows "inv_accounts (create_commit inp s)"
  using assms(1) create_ready_facts [OF assms(2)] assms(3) system_account_wf [OF assms(1,2)]
  by (auto simp: inv_accounts_def create_commit_def add_account_def opening_commit_def account_wf_def Let_def
      split: if_splits)

lemma create_commit_balances:
  assumes "inv_accounts s" "inv_balances s" "create_ready inp s"
    and "0 < sint (account_BalanceMinor (cai_Account inp)) \<Longrightarrow> opening_ready inp s"
  shows "inv_balances (create_commit inp s)"
  unfolding inv_balances_def
proof
  fix k
  have "case mem_accounts s k of
     Some a \<Rightarrow> sint (account_BalanceMinor a) = journal_balance (mem_journal s) k
   | None \<Rightarrow> account_entries (mem_journal s) k = []"
    using assms(2) unfolding inv_balances_def by blast
  then show "case mem_accounts (create_commit inp s) k of
     Some a \<Rightarrow> sint (account_BalanceMinor a) = journal_balance (mem_journal (create_commit inp s)) k
   | None \<Rightarrow> account_entries (mem_journal (create_commit inp s)) k = []"
    using create_ready_facts [OF assms(3)] sint_system_debit [OF assms(4)]
    by (auto simp: create_commit_def add_account_def opening_commit_def opening_postings_def Let_def
        journal_balance_def sint_neg64 system_account_or_new_def split: option.splits)
qed

lemma create_commit_currency:
  assumes "inv_accounts s" "inv_balances s" "inv_currency s" "create_ready inp s"
    and "0 < sint (account_BalanceMinor (cai_Account inp)) \<Longrightarrow> opening_ready inp s"
  shows "inv_currency (create_commit inp s)"
proof -
  note absent = inv_balances_None [OF assms(2)]
  show ?thesis
    using assms(3,5) create_ready_facts [OF assms(4)] system_account_wf(4) [OF assms(1,4)] absent
    by (fastforce simp: inv_currency_def create_commit_def add_account_def opening_commit_def
        opening_postings_def system_account_or_new_def Let_def split: option.splits if_splits)
qed

lemma create_commit_transactions:
  assumes "inv_transactions s" "create_ready inp s"
    and "0 < sint (account_BalanceMinor (cai_Account inp)) \<Longrightarrow> opening_ready inp s"
  shows "inv_transactions (create_commit inp s)"
  using assms(1) opening_ready_facts(2,6) [OF assms(3)] create_ready_facts(7) [OF assms(2)]
  by (auto simp: inv_transactions_def create_commit_def add_account_def opening_commit_def
      opening_postings_def Let_def split: if_splits)

lemma create_commit_ids:
  assumes "inv_ids s" "create_ready inp s"
    and "0 < sint (account_BalanceMinor (cai_Account inp)) \<Longrightarrow> opening_ready inp s"
  shows "inv_ids (create_commit inp s)"
  using assms(1) create_ready_facts(6) [OF assms(2)] opening_ready_facts(1-4) [OF assms(3)]
  by (auto simp: inv_ids_def create_commit_def add_account_def opening_commit_def
      opening_postings_def Let_def)

lemma create_commit_sequence:
  assumes "inv_sequence s"
  shows "inv_sequence (create_commit inp s)"
  using assms
  by (auto simp: inv_sequence_def create_commit_def add_account_def opening_commit_def
      opening_postings_def Let_def)

lemma create_commit_idempotency:
  assumes "inv_idempotency s" "create_ready inp s"
    and "0 < sint (account_BalanceMinor (cai_Account inp)) \<Longrightarrow> opening_ready inp s"
  shows "inv_idempotency (create_commit inp s)"
  using assms(1) opening_ready_facts(2) [OF assms(3)]
  by (fastforce simp: inv_idempotency_def create_commit_def add_account_def opening_commit_def
      opening_postings_def Let_def)

lemma create_commit_finite: "inv_finite s \<Longrightarrow> inv_finite (create_commit inp s)"
  by (simp add: inv_finite_def create_commit_def add_account_def opening_commit_def Let_def)

lemma create_commit_inv:
  assumes "mem_inv s" "create_ready inp s"
    and "0 < sint (account_BalanceMinor (cai_Account inp)) \<Longrightarrow> opening_ready inp s"
  shows "mem_inv (create_commit inp s)"
  using assms unfolding mem_inv_def
  by (simp add: create_commit_finite create_commit_accounts create_commit_balances create_commit_currency
      create_commit_transactions create_commit_ids create_commit_sequence create_commit_idempotency)

section \<open>Reachable states\<close>

lemma mem_New_inv: "mem_inv mem_New"
  by (simp add: mem_inv_def inv_defs mem_New_def)

lemma mem_CreateAccount_inv: "mem_inv s \<Longrightarrow> mem_CreateAccount ctx inp s = (r, s') \<Longrightarrow> mem_inv s'"
  by (erule mem_CreateAccount_cases) (simp_all add: create_commit_inv)

lemma mem_ApplyTransfer_inv: "mem_inv s \<Longrightarrow> mem_ApplyTransfer ctx inp s = (r, s') \<Longrightarrow> mem_inv s'"
  by (erule mem_ApplyTransfer_cases) (simp_all add: transfer_commit_inv)

lemma mem_reachable_inv: "mem_reachable s \<Longrightarrow> mem_inv s"
  by (induction rule: mem_reachable.induct)
    (blast intro: mem_New_inv mem_CreateAccount_inv mem_ApplyTransfer_inv)+

section \<open>Sums over the journal\<close>

lemma amount_sum_by_txn:
  assumes "finite T" "\<And>p. p \<in> set ps \<Longrightarrow> posting_TransactionID p \<in> T"
  shows "amount_sum ps = (\<Sum>t \<in> T. amount_sum (txn_entries ps t))"
  using assms(2)
proof (induction ps)
  case (Cons p ps)
  have "(\<Sum>t \<in> T. amount_sum (txn_entries (p # ps) t)) =
      (\<Sum>t \<in> T. (if posting_TransactionID p = t then sint (posting_AmountMinor p) else 0) + amount_sum (txn_entries ps t))"
    by (intro sum.cong) auto
  also have "\<dots> = sint (posting_AmountMinor p) + (\<Sum>t \<in> T. amount_sum (txn_entries ps t))"
    using Cons.prems assms(1) by (simp add: sum.distrib)
  finally show ?case using Cons by simp
qed simp

lemma journal_balance_sum:
  assumes "finite A"
  shows "(\<Sum>k \<in> A. journal_balance ps k) = amount_sum (filter (\<lambda>p. posting_AccountID p \<in> A) ps)"
proof (induction ps)
  case (Cons p ps)
  have "(\<Sum>k \<in> A. journal_balance (p # ps) k) =
      (\<Sum>k \<in> A. (if posting_AccountID p = k then sint (posting_AmountMinor p) else 0) + journal_balance ps k)"
    by (intro sum.cong) (auto simp: journal_balance_def)
  then show ?case using Cons assms by (simp add: sum.distrib)
qed simp

lemma txn_entries_filter: "txn_entries (filter P ps) t = filter P (txn_entries ps t)"
  by (simp add: txn_entries_def conj_commute)

lemma txn_in_transactions:
  assumes "inv_transactions s" "p \<in> set (mem_journal s)"
  shows "posting_TransactionID p \<in> mem_transactions s"
proof (rule ccontr)
  assume "posting_TransactionID p \<notin> mem_transactions s"
  then have "txn_entries (mem_journal s) (posting_TransactionID p) = []"
    using assms(1) [unfolded inv_transactions_def, rule_format, of "posting_TransactionID p"] by simp
  with assms(2) show False by (auto simp: txn_entries_def filter_empty_conv)
qed

lemma finite_transactions: "inv_transactions s \<Longrightarrow> finite (mem_transactions s)"
proof -
  assume inv: "inv_transactions s"
  have "t \<in> posting_TransactionID ` set (mem_journal s)" if "t \<in> mem_transactions s" for t
  proof -
    from inv that obtain p q where "txn_entries (mem_journal s) t = [p, q]"
      unfolding inv_transactions_def by metis
    then have "p \<in> set (filter (\<lambda>p. posting_TransactionID p = t) (mem_journal s))"
      by (simp add: txn_entries_def)
    then show ?thesis by auto
  qed
  then show ?thesis by (meson List.finite_set finite_imageI finite_subset subsetI)
qed

lemma currency_sum_zero:
  assumes "inv_transactions s"
  shows "amount_sum (filter (\<lambda>p. posting_Currency p = c) (mem_journal s)) = 0"
proof -
  let ?C = "filter (\<lambda>p. posting_Currency p = c) (mem_journal s)"
  have "amount_sum (txn_entries ?C t) = 0" if "t \<in> mem_transactions s" for t
  proof -
    from assms that obtain p q where "txn_entries (mem_journal s) t = [p, q]" "ValidateBalanced [p, q] = None"
      unfolding inv_transactions_def by metis
    then show ?thesis by (auto simp: txn_entries_filter ValidateBalanced_pair posting_ok_def)
  qed
  moreover have "amount_sum ?C = (\<Sum>t \<in> mem_transactions s. amount_sum (txn_entries ?C t))"
    using finite_transactions [OF assms] txn_in_transactions [OF assms] by (intro amount_sum_by_txn) auto
  ultimately show ?thesis by simp
qed

text \<open>The accounts of a currency and the total of their balances.\<close>

definition currency_accounts :: "mem_store \<Rightarrow> go_string \<Rightarrow> go_string set" where
  "currency_accounts s c = {k. \<exists>a. mem_accounts s k = Some a \<and> account_Currency a = c}"

definition balance_of :: "mem_store \<Rightarrow> go_string \<Rightarrow> int" where
  "balance_of s k = (case mem_accounts s k of None \<Rightarrow> 0 | Some a \<Rightarrow> sint (account_BalanceMinor a))"

lemma currency_total_zero:
  assumes "mem_inv s"
  shows "(\<Sum>k \<in> currency_accounts s c. balance_of s k) = 0"
proof -
  have inv: "inv_finite s" "inv_balances s" "inv_currency s" "inv_transactions s"
    using assms by (simp_all add: mem_inv_def)
  have fin: "finite (currency_accounts s c)"
    using inv(1) unfolding inv_finite_def
    by (rule rev_finite_subset) (auto simp: currency_accounts_def)
  have iff: "posting_AccountID p \<in> currency_accounts s c \<longleftrightarrow> posting_Currency p = c" if "p \<in> set (mem_journal s)" for p
    using inv_balances_None [OF inv(2) _ that] inv(3) that
    by (cases "mem_accounts s (posting_AccountID p)") (auto simp: currency_accounts_def inv_currency_def)
  have "(\<Sum>k \<in> currency_accounts s c. balance_of s k) = (\<Sum>k \<in> currency_accounts s c. journal_balance (mem_journal s) k)"
    using inv_balances_Some [OF inv(2)] by (intro sum.cong) (auto simp: currency_accounts_def balance_of_def)
  also have "\<dots> = amount_sum (filter (\<lambda>p. posting_AccountID p \<in> currency_accounts s c) (mem_journal s))"
    by (rule journal_balance_sum [OF fin])
  also have "filter (\<lambda>p. posting_AccountID p \<in> currency_accounts s c) (mem_journal s) =
      filter (\<lambda>p. posting_Currency p = c) (mem_journal s)"
    using iff by (intro filter_cong) auto
  also have "amount_sum \<dots> = 0" by (rule currency_sum_zero [OF inv(4)])
  finally show ?thesis .
qed

end
