(* ===== verification/Memory_Ledger.thy ===== *)
theory Memory_Ledger
  imports Memory_Invariant
begin

text \<open>
  The in-memory adapter fulfils the contract of a repository (\<open>mem\<close>, an interpretation of
  \<open>ledger_repository\<close>), and the properties of the adapter: those of its reachable states, those
  of one operation, and those of whole histories, which come from the contract.
\<close>

section \<open>The adapter is a repository\<close>

definition mem_bound :: "mem_store \<Rightarrow> go_string \<times> go_string \<Rightarrow> transfer option" where
  "mem_bound s sc = map_option idem_transfer (mem_idempotency s \<lparr>scope_actorID = fst sc, scope_key = snd sc\<rparr>)"

definition mem_input_ok :: "apply_transfer_input \<Rightarrow> bool" where
  "mem_input_ok inp \<longleftrightarrow> transfer_input_error inp = None"

lemma mem_repository_sel [simp]:
  "repo_Ping mem_repository = mem_Ping"
  "repo_CreateAccount mem_repository = mem_CreateAccount"
  "repo_GetAccount mem_repository = mem_GetAccount"
  "repo_ApplyTransfer mem_repository = mem_ApplyTransfer"
  "repo_ListJournal mem_repository = mem_ListJournal"
  "repo_ListAudit mem_repository = mem_ListAudit"
  "repo_ListRiskEvents mem_repository = mem_ListRiskEvents"
  by (simp_all add: mem_repository_def)

lemma mem_bound_scope:
  "mem_bound s (scope_of t) = map_option idem_transfer (mem_idempotency s (transfer_scope t))"
  by (simp add: mem_bound_def scope_of_def transfer_scope_def)

lemma mem_step_inv: "mem_inv s \<Longrightarrow> mem_inv (repo_step mem_repository op s)"
  by (cases op) (auto intro: mem_CreateAccount_inv mem_ApplyTransfer_inv prod.collapse [symmetric])

lemma create_commit_keeps:
  assumes "mem_inv s" "create_ready inp s" "mem_accounts s k = Some a"
    and "0 < sint (account_BalanceMinor (cai_Account inp)) \<Longrightarrow> opening_ready inp s"
  shows "\<exists>a'. mem_accounts (create_commit inp s) k = Some a' \<and> same_identity a a' \<and>
    (\<not> account_System a \<longrightarrow> a' = a)"
proof -
  have "account_System a" if "k = systemAccountID (account_Currency (cai_Account inp))"
    using mem_inv_account_wf [OF assms(1,3)] that by (auto simp: account_wf_def split: if_splits)
  with assms(3) create_ready_facts(3) [OF assms(2)] show ?thesis
    by (auto simp: create_commit_def add_account_def opening_commit_def system_account_or_new_def
        same_identity_def Let_def)
qed

lemma transfer_commit_delta:
  assumes "mem_inv s" "transfer_ready inp fa ta s" "mem_accounts s k = Some a"
  shows "\<exists>a'. mem_accounts (transfer_commit inp fa ta s) k = Some a' \<and> same_identity a a' \<and>
    sint (account_BalanceMinor a') = sint (account_BalanceMinor a) + delta k (ati_Transfer inp)"
proof -
  have "inv_accounts s" using assms(1) by (simp add: mem_inv_def)
  note f = transfer_ready_facts(1-10) [OF assms(2)] and ids = transfer_accounts(1,2) [OF this assms(2)]
  show ?thesis
    using f ids assms(3)
    by (auto simp: transfer_commit_def delta_def same_identity_def sint_debit sint_credit Let_def)
qed

lemma mem_bound_commit:
  "mem_bound (transfer_commit inp fa ta s) = (mem_bound s)(scope_of (ati_Transfer inp) \<mapsto> ati_Transfer inp)"
  by (rule ext) (auto simp: mem_bound_def scope_of_def transfer_scope_def transfer_commit_def Let_def)

lemma mem_bound_create: "mem_bound (create_commit inp s) = mem_bound s"
  by (rule ext) (simp add: mem_bound_def create_commit_def add_account_def opening_commit_def Let_def)

lemma mem_apply_bound:
  assumes "mem_input_ok inp" "mem_bound s (scope_of (ati_Transfer inp)) = Some t"
  shows "mem_ApplyTransfer None inp s =
    (if transfer_Intent t = transfer_Intent (ati_Transfer inp)
     then Inr \<lparr>result_Transfer = t, result_Replayed = True\<rparr> else Inl ErrIdempotencyConflict, s)"
  using assms by (auto simp: mem_ApplyTransfer_def mem_input_ok_def mem_bound_scope)

interpretation mem: ledger_repository mem_repository mem_inv mem_accounts mem_bound id mem_input_ok
proof
  fix s :: mem_store and op
  assume "mem_inv s"
  then show "mem_inv (repo_step mem_repository op s)" by (rule mem_step_inv)
next
  fix s c cinp r s' k a
  assume "mem_inv s" "repo_CreateAccount mem_repository c cinp s = (r, s')" "mem_accounts s k = Some a"
  then show "\<exists>a'. mem_accounts s' k = Some a' \<and> same_identity a a' \<and> (\<not> account_System a \<longrightarrow> a' = a)"
    by (auto elim!: mem_CreateAccount_cases simp: create_commit_keeps)
next
  fix s c cinp r s'
  assume "mem_inv s" "repo_CreateAccount mem_repository c cinp s = (r, s')"
  then show "mem_bound s' = mem_bound s"
    by (auto elim!: mem_CreateAccount_cases simp: mem_bound_create)
next
  fix s c inp e s'
  assume "mem_inv s" "repo_ApplyTransfer mem_repository c inp s = (Inl e, s')"
  then show "s' = s" by (auto elim!: mem_ApplyTransfer_cases)
next
  fix s c inp res s'
  assume "mem_inv s" "repo_ApplyTransfer mem_repository c inp s = (Inr res, s')" "result_Replayed res"
  then show "s' = s \<and> mem_bound s (scope_of (ati_Transfer inp)) = Some (result_Transfer res) \<and>
      transfer_Intent (result_Transfer res) = transfer_Intent (ati_Transfer inp)"
    by (auto elim!: mem_ApplyTransfer_cases simp: mem_bound_scope)
next
  fix s inp t
  assume "mem_inv s" "mem_input_ok inp" "mem_bound s (scope_of (ati_Transfer inp)) = Some t"
  then show "repo_ApplyTransfer mem_repository None inp s =
    (if transfer_Intent t = transfer_Intent (ati_Transfer inp)
     then Inr \<lparr>result_Transfer = t, result_Replayed = True\<rparr> else Inl ErrIdempotencyConflict, s)"
    by (simp add: mem_apply_bound)
next
  fix s c inp res s'
  assume inv: "mem_inv s" and ap: "repo_ApplyTransfer mem_repository c inp s = (Inr res, s')"
    and new: "\<not> result_Replayed res"
  from ap [simplified] obtain fa ta where "transfer_ready inp fa ta s" "s' = transfer_commit inp fa ta s"
      "res = \<lparr>result_Transfer = ati_Transfer inp, result_Replayed = False\<rparr>"
    using new by (auto elim!: mem_ApplyTransfer_cases)
  then show "result_Transfer res = ati_Transfer inp \<and> mem_bound s (scope_of (ati_Transfer inp)) = None \<and>
      mem_bound s' = (mem_bound s)(scope_of (ati_Transfer inp) \<mapsto> id (ati_Transfer inp)) \<and>
      (\<forall>k a. mem_accounts s k = Some a \<longrightarrow> (\<exists>a'. mem_accounts s' k = Some a' \<and> same_identity a a' \<and>
        sint (account_BalanceMinor a') = sint (account_BalanceMinor a) + delta k (ati_Transfer inp)))"
    using transfer_commit_delta [OF inv] transfer_ready_facts(17)
    by (simp add: mem_bound_commit mem_bound_scope)
next
  fix s k a
  assume "mem_inv s" "mem_accounts s k = Some a" "\<not> account_System a"
  then show "0 \<le> sint (account_BalanceMinor a)"
    using mem_inv_account_wf by (fastforce simp: account_wf_def)
next
  fix s k a
  assume "mem_inv s" "mem_accounts s k = Some a"
  then show "ValidateCurrency (account_Currency a) = None"
    using mem_inv_account_wf by (fastforce simp: account_wf_def)
next
  fix t show "transfer_Intent (id t) = transfer_Intent t" by simp
next
  fix s sc t
  assume "mem_inv s" "mem_bound s sc = Some t"
  then show "scope_of t = sc"
    by (fastforce simp: mem_inv_def inv_idempotency_def mem_bound_def scope_of_def transfer_scope_def)
next
  fix c k s r s'
  assume "mem_inv s" "repo_GetAccount mem_repository c k s = (r, s')"
  then show "s' = s \<and> (\<forall>a. r = Inr a \<longrightarrow> mem_accounts s k = Some a \<and> \<not> account_System a)"
    by (auto simp: mem_GetAccount_def split: option.splits if_splits)
next
  fix s :: mem_store and k a
  assume "mem_inv s" "mem_accounts s k = Some a" "\<not> account_System a"
  then show "repo_GetAccount mem_repository None k s = (Inr a, s)"
    by (simp add: mem_GetAccount_def)
qed

end
