(* ===== verification/Memory_Scenario.thy ===== *)
theory Memory_Scenario
  imports Memory_Ledger
begin

text \<open>
  A concrete history of the in-memory adapter, in the style of its tests: alice opens account
  \<^verbatim>\<open>a\<close> with 1000, bob opens account \<^verbatim>\<open>b\<close> with nothing, alice sends 250. The theorems with
  hypotheses are applied to it.
\<close>

definition demo_account :: "go_string \<Rightarrow> go_string \<Rightarrow> int64 \<Rightarrow> create_account_input" where
  "demo_account k owner bal =
     \<lparr>cai_Account = \<lparr>account_ID = k, account_OwnerID = owner, account_Currency = ''GBP'',
        account_BalanceMinor = bal, account_System = False, account_CreatedAt = 1\<rparr>,
      cai_OpeningTransactionID = ''open-'' @ k, cai_OpeningPostingIDs = (''p1-'' @ k, ''p2-'' @ k),
      cai_Audit = \<lparr>audit_ID = ''audit-'' @ k, audit_ActorID = ''operator'', audit_Action = ''account.create'',
        audit_ResourceID = k, audit_Outcome = ''success'', audit_Metadata = None, audit_CreatedAt = 1\<rparr>\<rparr>"

definition demo_transfer :: "go_string \<Rightarrow> go_string \<Rightarrow> int64 \<Rightarrow> apply_transfer_input" where
  "demo_transfer tid key amt =
     \<lparr>ati_Transfer = \<lparr>transfer_ID = tid, transfer_IdempotencyKey = key,
        transfer_Intent = \<lparr>intent_FromAccountID = ''a'', intent_ToAccountID = ''b'', intent_AmountMinor = amt,
          intent_Description = ''''\<rparr>,
        transfer_Currency = ''GBP'', transfer_ActorID = ''alice'', transfer_CreatedAt = 2\<rparr>,
      ati_PostingIDs = (''p1-'' @ tid, ''p2-'' @ tid),
      ati_Audit = \<lparr>audit_ID = ''audit-'' @ tid, audit_ActorID = ''alice'', audit_Action = ''transfer.create'',
        audit_ResourceID = tid, audit_Outcome = ''success'', audit_Metadata = None, audit_CreatedAt = 2\<rparr>,
      ati_Risk = None\<rparr>"

definition demo_a :: account where
  "demo_a = cai_Account (demo_account ''a'' ''alice'' 1000)"

definition demo_b :: account where
  "demo_b = cai_Account (demo_account ''b'' ''bob'' 0)"

definition demo0 :: mem_store where
  "demo0 = create_commit (demo_account ''a'' ''alice'' 1000) mem_New"

definition demo1 :: mem_store where
  "demo1 = create_commit (demo_account ''b'' ''bob'' 0) demo0"

definition demo_tx1 :: apply_transfer_input where
  "demo_tx1 = demo_transfer ''tx1'' ''key-12345678'' 250"

definition demo2 :: mem_store where
  "demo2 = transfer_commit demo_tx1 demo_a demo_b demo1"

lemma not_blank [simp]: "solid c \<Longrightarrow> TrimSpace (c # s) = [] \<longleftrightarrow> False"
  using TrimSpace_solid by simp

lemma rune_bound [simp]: "length s \<le> 200 \<Longrightarrow> 200 < RuneCountInString s \<longleftrightarrow> False"
  using RuneCount_le_length [of s] by simp

lemmas string_evals = solid_def bv_def IsSpace_def IsZero_def HasPrefix_def systemAccountID_def

lemmas check_evals = ValidateCurrency_iff ValidateAuditRecord_def ValidateBalanced_pair posting_ok_def

lemmas demo_state_evals = demo_account_def demo_transfer_def demo_a_def demo_b_def demo_tx1_def demo0_def demo1_def
  demo2_def create_commit_def add_account_def opening_commit_def system_account_or_new_def opening_postings_def
  transfer_commit_def transfer_postings_def transfer_scope_def cloneAudit_def mem_New_def Let_def

lemma demo_open_a: "mem_CreateAccount None (demo_account ''a'' ''alice'' 1000) mem_New = (None, demo0)"
  unfolding demo0_def
  by (rule mem_CreateAccount_commitI)
    (simp_all add: create_ready_def opening_ready_def check_evals string_evals demo_account_def
      system_account_or_new_def opening_postings_def mem_New_def Let_def)

lemma demo_open_b: "mem_CreateAccount None (demo_account ''b'' ''bob'' 0) demo0 = (None, demo1)"
  unfolding demo1_def
  by (rule mem_CreateAccount_commitI)
    (simp_all add: create_ready_def check_evals string_evals demo_state_evals)

lemma demo_ready: "transfer_ready demo_tx1 demo_a demo_b demo1"
  by (simp add: transfer_ready_def transfer_input_error_def check_evals string_evals demo_state_evals)

lemma demo_send: "mem_ApplyTransfer None demo_tx1 demo1 =
    (Inr \<lparr>result_Transfer = ati_Transfer demo_tx1, result_Replayed = False\<rparr>, demo2)"
  unfolding demo2_def by (rule mem_ApplyTransfer_commitI [OF demo_ready])

lemma demo_reachable: "mem_reachable demo0" "mem_reachable demo1" "mem_reachable demo2"
  using mem_reachable.create [OF mem_reachable.new demo_open_a] mem_reachable.create [OF _ demo_open_b]
    mem_reachable.transfer [OF _ demo_send] by blast+

lemmas demo_inv = demo_reachable [THEN mem_reachable_inv]

end
