(* ===== verification/Memory_Properties.thy ===== *)
theory Memory_Properties
  imports Memory_Scenario "HOL-Library.Sublist"
begin

text \<open>
  The properties of the in-memory adapter that its clients rely on, each with an application to
  the history of \<open>Memory_Scenario\<close> where it has hypotheses.
\<close>

section \<open>Helper lemmas\<close>

lemma txn_pair:
  assumes "inv_transactions s" "p \<in> set (mem_journal s)"
  obtains q r where "txn_entries (mem_journal s) (posting_TransactionID p) = [q, r]"
    "ValidateBalanced [q, r] = None" "posting_AccountID q \<noteq> posting_AccountID r"
  using assms txn_in_transactions [OF assms] unfolding inv_transactions_def by meson

lemma mem_step_appends:
  "prefix (mem_journal s) (mem_journal (repo_step mem_repository op s)) \<and>
   prefix (mem_audit s) (mem_audit (repo_step mem_repository op s)) \<and>
   prefix (mem_risk s) (mem_risk (repo_step mem_repository op s))"
proof (cases op)
  case (OpCreate c inp)
  obtain r s' where "mem_CreateAccount c inp s = (r, s')" by (cases "mem_CreateAccount c inp s")
  with OpCreate show ?thesis
    by (auto elim!: mem_CreateAccount_cases
        simp: create_commit_def add_account_def opening_commit_def Let_def)
next
  case (OpTransfer c inp)
  obtain r s' where "mem_ApplyTransfer c inp s = (r, s')" by (cases "mem_ApplyTransfer c inp s")
  with OpTransfer show ?thesis
    by (auto elim!: mem_ApplyTransfer_cases simp: transfer_commit_def Let_def split: option.splits)
qed

lemma mem_run_appends:
  "prefix (mem_journal s) (mem_journal (repo_run mem_repository ops s)) \<and>
   prefix (mem_audit s) (mem_audit (repo_run mem_repository ops s)) \<and>
   prefix (mem_risk s) (mem_risk (repo_run mem_repository ops s))"
proof (induction ops arbitrary: s)
  case (Cons op ops)
  then show ?case using mem_step_appends [of s op] by (metis prefix_order.trans repo_run.simps(2))
qed simp

lemma normaliseLimit_range: "1 \<le> normaliseLimit l \<and> normaliseLimit l \<le> 1000"
  by (simp add: normaliseLimit_def)

section \<open>Reachable states\<close>

text \<open>C1. In every state that the in-memory adapter can reach, the materialised balance of every
  account is exactly the integer sum of its journal postings (no wrap-around anywhere), and only
  the system accounts can be negative.\<close>

theorem mem_balances_match_journal:
  assumes "mem_reachable s" "mem_accounts s k = Some a"
  shows "sint (account_BalanceMinor a) = journal_balance (mem_journal s) k \<and>
    (account_System a \<or> 0 \<le> sint (account_BalanceMinor a))"
proof -
  have inv: "mem_inv s" using assms(1) by (rule mem_reachable_inv)
  then show ?thesis
    using inv_balances_Some [OF _ assms(2)] mem_inv_account_wf [OF inv assms(2)]
    by (auto simp: mem_inv_def account_wf_def split: if_splits)
qed

theorem mem_balances_match_journal_witness:
  "mem_reachable demo2 \<and> (\<exists>a. mem_accounts demo2 ''a'' = Some a \<and> sint (account_BalanceMinor a) = 750 \<and>
     journal_balance (mem_journal demo2) ''a'' = 750)"
proof -
  obtain a where a: "mem_accounts demo2 ''a'' = Some a" "sint (account_BalanceMinor a) = 750"
    by (simp add: demo_state_evals)
  with mem_balances_match_journal [OF demo_reachable(3) a(1)] demo_reachable(3) show ?thesis by auto
qed

text \<open>C2. In every reachable state every posting belongs to a transaction with exactly two
  postings, on two different accounts, in one currency, whose signed sum is zero.\<close>

theorem mem_transactions_balanced:
  assumes "mem_reachable s" "p \<in> set (mem_journal s)"
  shows "\<exists>q r. txn_entries (mem_journal s) (posting_TransactionID p) = [q, r] \<and> p \<in> {q, r} \<and>
    posting_AccountID q \<noteq> posting_AccountID r \<and> posting_Currency q = posting_Currency r \<and>
    sint (posting_AmountMinor q) + sint (posting_AmountMinor r) = 0"
proof -
  have "inv_transactions s" using mem_reachable_inv [OF assms(1)] by (simp add: mem_inv_def)
  then obtain q r where qr: "txn_entries (mem_journal s) (posting_TransactionID p) = [q, r]"
      "ValidateBalanced [q, r] = None" "posting_AccountID q \<noteq> posting_AccountID r"
    using assms(2) by (rule txn_pair)
  moreover have "p \<in> set (txn_entries (mem_journal s) (posting_TransactionID p))"
    using assms(2) by (simp add: txn_entries_def)
  ultimately show ?thesis by (auto simp: ValidateBalanced_pair posting_ok_def)
qed

theorem mem_transactions_balanced_witness:
  "\<exists>q r. txn_entries (mem_journal demo2) ''tx1'' = [q, r] \<and>
     sint (posting_AmountMinor q) + sint (posting_AmountMinor r) = 0"
proof -
  have "last (mem_journal demo2) \<in> set (mem_journal demo2)"
    "posting_TransactionID (last (mem_journal demo2)) = ''tx1''"
    by (simp_all add: demo_state_evals)
  with mem_transactions_balanced [OF demo_reachable(3), of "last (mem_journal demo2)"] show ?thesis by auto
qed

text \<open>C3. Money is conserved: in every reachable state the balances of all accounts of a currency,
  the system account included, add up to zero.\<close>

theorem mem_currency_conserved:
  assumes "mem_reachable s"
  shows "(\<Sum>k \<in> currency_accounts s c. balance_of s k) = 0"
  by (rule currency_total_zero [OF mem_reachable_inv [OF assms]])

theorem mem_currency_conserved_witness:
  "mem_reachable demo2 \<and> (\<Sum>k \<in> currency_accounts demo2 ''GBP''. balance_of demo2 k) = 0 \<and>
   balance_of demo2 ''a'' = 750"
  using mem_currency_conserved [OF demo_reachable(3), of "''GBP''"] demo_reachable(3)
  by (simp add: balance_of_def demo_state_evals)

section \<open>One operation\<close>

text \<open>C8. A transfer that \<^verbatim>\<open>ApplyTransfer\<close> commits debits the source and credits the destination
  by exactly the amount, which is positive and at most the source's balance, leaves every other
  account as it was, and appends exactly two postings, the audit record and the optional risk
  event, all in the same step.\<close>

theorem mem_ApplyTransfer_effect:
  assumes "mem_reachable s" "mem_ApplyTransfer ctx inp s = (Inr res, s')" "\<not> result_Replayed res"
  defines "t \<equiv> ati_Transfer inp"
  defines "from \<equiv> intent_FromAccountID (transfer_Intent t)" and "to \<equiv> intent_ToAccountID (transfer_Intent t)"
    and "amt \<equiv> sint (intent_AmountMinor (transfer_Intent t))"
  shows "result_Transfer res = t \<and> from \<noteq> to \<and> 0 < amt \<and> amt \<le> balance_of s from \<and>
    balance_of s' from = balance_of s from - amt \<and> balance_of s' to = balance_of s to + amt \<and>
    (\<forall>k. k \<notin> {from, to} \<longrightarrow> mem_accounts s' k = mem_accounts s k) \<and>
    (\<exists>ps. mem_journal s' = mem_journal s @ ps \<and> entry_moves ps = [(from, - amt), (to, amt)] \<and>
       map posting_TransactionID ps = [transfer_ID t, transfer_ID t]) \<and>
    mem_audit s' = mem_audit s @ [cloneAudit (ati_Audit inp)] \<and>
    mem_risk s' = mem_risk s @ (case ati_Risk inp of None \<Rightarrow> [] | Some r \<Rightarrow> [r])"
proof -
  have inv: "inv_accounts s" using mem_reachable_inv [OF assms(1)] by (simp add: mem_inv_def)
  from assms(2,3) obtain fa ta where rd: "transfer_ready inp fa ta s" and s': "s' = transfer_commit inp fa ta s"
    and res: "res = \<lparr>result_Transfer = ati_Transfer inp, result_Replayed = False\<rparr>"
    by (auto elim!: mem_ApplyTransfer_cases)
  show ?thesis
    using transfer_ready_facts(1-10) [OF rd] transfer_accounts(1,2) [OF inv rd]
    unfolding assms(4-7) s' res
    by (auto simp: balance_of_def transfer_commit_def transfer_postings_def entry_moves_def Let_def
        sint_debit sint_credit sint_neg64 split: option.splits)
qed

theorem mem_ApplyTransfer_effect_witness:
  "mem_ApplyTransfer None demo_tx1 demo1 =
     (Inr \<lparr>result_Transfer = ati_Transfer demo_tx1, result_Replayed = False\<rparr>, demo2) \<and>
   balance_of demo1 ''a'' = 1000 \<and> balance_of demo2 ''a'' = 750 \<and> balance_of demo2 ''b'' = 250 \<and>
   length (mem_journal demo2) = length (mem_journal demo1) + 2"
proof -
  have "intent_FromAccountID (transfer_Intent (ati_Transfer demo_tx1)) = ''a''"
    "intent_ToAccountID (transfer_Intent (ati_Transfer demo_tx1)) = ''b''"
    "sint (intent_AmountMinor (transfer_Intent (ati_Transfer demo_tx1))) = 250"
    "balance_of demo1 ''a'' = 1000" "balance_of demo1 ''b'' = 0" "length (mem_journal demo2) = length (mem_journal demo1) + 2"
    by (simp_all add: balance_of_def demo_state_evals)
  with mem_ApplyTransfer_effect [OF demo_reachable(2) demo_send] demo_send show ?thesis by simp
qed

text \<open>C9. An operation that returns an error, and a transfer that is answered as a replay, leave
  every part of the state as it was: nothing is committed partially.\<close>

theorem mem_failure_atomic:
  "(mem_ApplyTransfer ctx inp s = (Inl e, s') \<longrightarrow> s' = s) \<and>
   (mem_ApplyTransfer ctx inp s = (Inr res, s') \<and> result_Replayed res \<longrightarrow> s' = s) \<and>
   (mem_CreateAccount ctx cinp s = (Some e, s') \<longrightarrow> s' = s)"
  by (auto elim!: mem_ApplyTransfer_cases mem_CreateAccount_cases)

theorem mem_failure_atomic_witness:
  "mem_ApplyTransfer (Some ContextCanceled) demo_tx1 demo1 = (Inl ContextCanceled, demo1) \<and>
   snd (mem_ApplyTransfer (Some ContextCanceled) demo_tx1 demo1) = demo1"
proof -
  have e: "mem_ApplyTransfer (Some ContextCanceled) demo_tx1 demo1 = (Inl ContextCanceled, demo1)"
    by (simp add: mem_ApplyTransfer_def)
  with mem_failure_atomic [of "Some ContextCanceled" demo_tx1 demo1 ContextCanceled demo1] show ?thesis by simp
qed



text \<open>Creating an account with a positive opening balance credits the account and debits the
  currency's system account by exactly that amount through two postings of one transaction; with
  a zero balance it adds no posting. Every other account is unchanged and the audit record is
  written in the same step.\<close>

theorem mem_CreateAccount_effect:
  assumes "mem_reachable s" "mem_CreateAccount ctx inp s = (None, s')"
  defines "a \<equiv> cai_Account inp"
  defines "sysid \<equiv> systemAccountID (account_Currency a)" and "amt \<equiv> sint (account_BalanceMinor a)"
  shows "mem_accounts s (account_ID a) = None \<and> mem_accounts s' (account_ID a) = Some a \<and> 0 \<le> amt \<and>
    balance_of s' sysid = balance_of s sysid - amt \<and>
    (\<forall>k. k \<notin> {account_ID a, sysid} \<longrightarrow> mem_accounts s' k = mem_accounts s k) \<and>
    (\<exists>ps. mem_journal s' = mem_journal s @ ps \<and>
       entry_moves ps = (if amt = 0 then [] else [(account_ID a, amt), (sysid, - amt)])) \<and>
    mem_audit s' = mem_audit s @ [cloneAudit (cai_Audit inp)] \<and> mem_risk s' = mem_risk s"
proof -
  from assms(2) have rd: "create_ready inp s" and op: "0 < amt \<Longrightarrow> opening_ready inp s"
    and s': "s' = create_commit inp s"
    unfolding amt_def a_def by (auto elim!: mem_CreateAccount_cases)
  note f = create_ready_facts [OF rd] and d = sint_system_debit [OF op [unfolded amt_def a_def]]
  have "balance_of s' sysid = balance_of s sysid - amt"
    using f d unfolding s' sysid_def amt_def a_def
    by (auto simp: balance_of_def create_commit_def add_account_def opening_commit_def
        system_account_or_new_def Let_def split: option.splits)
  moreover have "\<exists>ps. mem_journal s' = mem_journal s @ ps \<and>
       entry_moves ps = (if amt = 0 then [] else [(account_ID a, amt), (sysid, - amt)])"
    using f(5) unfolding s' sysid_def amt_def a_def
    by (auto simp: create_commit_def add_account_def opening_commit_def opening_postings_def
        entry_moves_def Let_def sint_neg64)
  ultimately show ?thesis
    using f unfolding s' sysid_def amt_def a_def
    by (auto simp: create_commit_def add_account_def opening_commit_def Let_def)
qed

theorem mem_CreateAccount_effect_witness:
  "mem_CreateAccount None (demo_account ''a'' ''alice'' 1000) mem_New = (None, demo0) \<and>
   mem_accounts demo0 ''a'' = Some demo_a \<and> balance_of demo0 ''system:equity:GBP'' = -1000"
proof -
  have "account_ID (cai_Account (demo_account ''a'' ''alice'' 1000)) = ''a''"
    "cai_Account (demo_account ''a'' ''alice'' 1000) = demo_a"
    "systemAccountID (account_Currency (cai_Account (demo_account ''a'' ''alice'' 1000))) = ''system:equity:GBP''"
    "sint (account_BalanceMinor (cai_Account (demo_account ''a'' ''alice'' 1000))) = 1000"
    "balance_of mem_New ''system:equity:GBP'' = 0"
    by (simp_all add: demo_account_def demo_a_def systemAccountID_def balance_of_def mem_New_def)
  with mem_CreateAccount_effect [OF mem_reachable.new demo_open_a] demo_open_a show ?thesis by simp
qed

section \<open>Histories\<close>

text \<open>Idempotency: once a transfer is committed, whatever operations follow, a well-formed request
  with the same actor and key returns the original transfer marked as replayed when the intent
  is the same and \<^verbatim>\<open>ErrIdempotencyConflict\<close> when it differs, and changes nothing.\<close>

theorem mem_replay_after_commit:
  assumes "mem_reachable s" "mem_ApplyTransfer ctx inp s = (Inr res, s')" "\<not> result_Replayed res"
    and "transfer_input_error again = None" "scope_of (ati_Transfer again) = scope_of (ati_Transfer inp)"
  shows "mem_ApplyTransfer None again (repo_run mem_repository ops s') =
    (if transfer_Intent (ati_Transfer inp) = transfer_Intent (ati_Transfer again)
     then Inr \<lparr>result_Transfer = ati_Transfer inp, result_Replayed = True\<rparr>
     else Inl ErrIdempotencyConflict, repo_run mem_repository ops s')"
  using mem.replay_after_commit [OF mem_reachable_inv [OF assms(1)], of ctx inp res s' again ops] assms(2-5)
  by (simp add: mem_input_ok_def)

theorem mem_replay_after_commit_witness:
  "mem_ApplyTransfer None demo_tx1 (repo_run mem_repository [OpTransfer None (demo_transfer ''tx2'' ''key-22222222'' 5)] demo2) =
     (Inr \<lparr>result_Transfer = ati_Transfer demo_tx1, result_Replayed = True\<rparr>,
      repo_run mem_repository [OpTransfer None (demo_transfer ''tx2'' ''key-22222222'' 5)] demo2) \<and>
   fst (mem_ApplyTransfer None (demo_transfer ''tx3'' ''key-12345678'' 251) demo2) = Inl ErrIdempotencyConflict"
proof -
  have ok: "transfer_input_error demo_tx1 = None"
    "transfer_input_error (demo_transfer ''tx3'' ''key-12345678'' 251) = None"
    by (simp_all add: transfer_input_error_def check_evals string_evals demo_state_evals)
  note r = mem_replay_after_commit [OF demo_reachable(2) demo_send]
  show ?thesis
    using r [OF _ ok(1) refl, of "[OpTransfer None (demo_transfer ''tx2'' ''key-22222222'' 5)]"] r [OF _ ok(2), of "[]"]
    by (simp add: scope_of_def demo_tx1_def demo_transfer_def)
qed

text \<open>C11. At most once: in any history, with any retries, cancellations and interleaving of callers,
  no two committed transfers have the same actor and key.\<close>

theorem mem_commits_at_most_once:
  assumes "mem_reachable s"
  shows "distinct (map scope_of (committed mem_repository ops s))"
  by (rule mem.committed_scopes_distinct [OF mem_reachable_inv [OF assms]])

theorem mem_commits_at_most_once_witness:
  "committed mem_repository [OpTransfer None demo_tx1, OpTransfer None demo_tx1] demo1 = [ati_Transfer demo_tx1] \<and>
   distinct (map scope_of (committed mem_repository [OpTransfer None demo_tx1, OpTransfer None demo_tx1] demo1))"
proof -
  have "mem_ApplyTransfer None demo_tx1 demo2 =
      (Inr \<lparr>result_Transfer = ati_Transfer demo_tx1, result_Replayed = True\<rparr>, demo2)"
    by (simp add: mem_ApplyTransfer_def transfer_input_error_def check_evals string_evals demo_state_evals)
  then show ?thesis
    using mem_commits_at_most_once [OF demo_reachable(2), of "[OpTransfer None demo_tx1, OpTransfer None demo_tx1]"]
    by (simp add: demo_send)
qed

text \<open>C15. No overspend: along any history the balance of a customer account is its earlier balance
  plus the committed credits minus the committed debits, and that never becomes negative, so
  concurrent callers cannot spend a balance twice.\<close>

theorem mem_no_overspend:
  assumes "mem_reachable s" "mem_accounts s k = Some a" "\<not> account_System a"
  shows "balance_of (repo_run mem_repository ops s) k =
      sint (account_BalanceMinor a) + sum_list (map (delta k) (committed mem_repository ops s)) \<and>
    0 \<le> sint (account_BalanceMinor a) + sum_list (map (delta k) (committed mem_repository ops s))"
proof -
  note inv = mem_reachable_inv [OF assms(1)]
  from mem.accts_run [OF inv assms(2), of ops] assms(3) show ?thesis
    using mem.no_overspend [OF inv assms(2,3), of ops] by (auto simp: balance_of_def)
qed

theorem mem_no_overspend_witness:
  "balance_of (repo_run mem_repository [OpTransfer None demo_tx1] demo1) ''a'' = 750 \<and>
   (0 :: int) \<le> 1000 + sum_list (map (delta ''a'') (committed mem_repository [OpTransfer None demo_tx1] demo1))"
proof -
  have a: "mem_accounts demo1 ''a'' = Some demo_a" "\<not> account_System demo_a" "sint (account_BalanceMinor demo_a) = 1000"
    "delta ''a'' (ati_Transfer demo_tx1) = -250"
    by (simp_all add: demo_state_evals delta_def)
  show ?thesis
    using mem_no_overspend [OF demo_reachable(2) a(1,2), of "[OpTransfer None demo_tx1]"] a(3,4)
    by (simp add: demo_send)
qed

text \<open>C16. History is append-only and account identity is immutable: along any history the journal,
  the audit log and the risk log only grow at their end, and an account keeps its identifier,
  owner, currency, system flag and creation time.\<close>

theorem mem_history_append_only:
  assumes "mem_reachable s" "mem_accounts s k = Some a"
  shows "prefix (mem_journal s) (mem_journal (repo_run mem_repository ops s)) \<and>
    prefix (mem_audit s) (mem_audit (repo_run mem_repository ops s)) \<and>
    prefix (mem_risk s) (mem_risk (repo_run mem_repository ops s)) \<and>
    (\<exists>a'. mem_accounts (repo_run mem_repository ops s) k = Some a' \<and> same_identity a a')"
  using mem_run_appends [of s ops] mem.accts_run [OF mem_reachable_inv [OF assms(1)] assms(2), of ops] by blast

theorem mem_history_append_only_witness:
  "prefix (mem_journal demo1) (mem_journal (repo_run mem_repository [OpTransfer None demo_tx1] demo1)) \<and>
   (\<exists>a'. mem_accounts (repo_run mem_repository [OpTransfer None demo_tx1] demo1) ''a'' = Some a' \<and>
      account_OwnerID a' = ''alice'')"
proof -
  have a: "mem_accounts demo1 ''a'' = Some demo_a" "account_OwnerID demo_a = ''alice''"
    by (simp_all add: demo_state_evals)
  from mem_history_append_only [OF demo_reachable(2) a(1), of "[OpTransfer None demo_tx1]"] a(2)
  show ?thesis using same_identity_fields by metis
qed

text \<open>\<^verbatim>\<open>ListJournal\<close> returns the most recent postings in ascending order: with the limit clamped to
  1..1000, the result is the end of the journal, of the clamped length or the whole journal, and
  its sequence numbers are consecutive up to the length of the journal.\<close>

theorem mem_ListJournal_window:
  fixes limit :: int
  assumes "mem_reachable s" "length (mem_journal s) < 2 ^ 63"
  defines "n \<equiv> min (nat (normaliseLimit limit)) (length (mem_journal s))"
  shows "\<exists>ps. mem_ListJournal None limit s = (Inr ps, s) \<and> suffix ps (mem_journal s) \<and> length ps = n \<and>
    map (sint \<circ> posting_Sequence) ps = map int [Suc (length (mem_journal s)) - n..<Suc (length (mem_journal s))]"
proof -
  let ?L = "length (mem_journal s)" and ?ps = "last_n (nat (normaliseLimit limit)) (mem_journal s)"
  have sq: "map posting_Sequence (mem_journal s) = map (\<lambda>i. of_nat (Suc i)) [0..<?L]"
    using mem_reachable_inv [OF assms(1)] by (simp add: mem_inv_def inv_sequence_def)
  have "map posting_Sequence ?ps = drop (?L - n) (map posting_Sequence (mem_journal s))"
    by (simp add: last_n_def drop_map n_def min_def)
  also have "\<dots> = map (\<lambda>i. of_nat (Suc i)) [?L - n..<?L]"
    unfolding sq by (simp add: drop_map)
  finally have "map (sint \<circ> posting_Sequence) ?ps = map (\<lambda>i. sint (of_nat (Suc i) :: int64)) [?L - n..<?L]"
    by (metis (no_types, lifting) list.map_comp comp_apply map_eq_conv)
  also have "\<dots> = map (\<lambda>i. int (Suc i)) [?L - n..<?L]"
    using assms(2) by (intro map_cong) (auto simp: sint_of_nat64 simp del: of_nat_Suc)
  also have "\<dots> = map int [Suc ?L - n..<Suc ?L]"
    by (simp add: map_Suc_upt [symmetric] n_def Suc_diff_le comp_def del: upt_Suc)
  finally show ?thesis
    by (auto simp: mem_ListJournal_def tail_from_last_n last_n_def suffix_drop n_def)
qed

theorem mem_ListJournal_window_witness:
  "\<exists>ps. mem_ListJournal None 2 demo2 = (Inr ps, demo2) \<and> map (sint \<circ> posting_Sequence) ps = [3, 4]"
proof -
  have "length (mem_journal demo2) = 4" by (simp add: demo_state_evals)
  with mem_ListJournal_window [OF demo_reachable(3), of 2] show ?thesis
    by (auto simp: normaliseLimit_def upt_rec)
qed

end
