(* ===== verification/Service.thy ===== *)
theory Service
  imports Store
begin

text \<open>
  \<^verbatim>\<open>internal/app\<close>: the application service, over any repository and any risk notifier.

  The world of a service is the state of the repository, the state of the notifier and the
  random source with the number of draws made from it. An operation returns a value, returns an
  error or panics (\<^verbatim>\<open>randomID\<close> panics when the random source fails). A request sees, at its
  \<open>k\<close>-th call of the repository, the state of its context and the work that other goroutines
  have done on the repository since its last call; both are parts of \<open>request\<close>. \<^verbatim>\<open>clock()\<close> is
  the argument \<open>now\<close>; \<^verbatim>\<open>UTC()\<close> keeps the instant.
\<close>

record config =
  cfg_MaxTransferMinor :: int64
  cfg_RiskThresholdMinor :: int64

text \<open>A nil \<^verbatim>\<open>RiskNotifier\<close> is \<open>None\<close>; otherwise its method \<^verbatim>\<open>Submit\<close> on its own state.\<close>

type_synonym 'n notifier = "(risk_event \<Rightarrow> 'n \<Rightarrow> bool \<times> 'n) option"

record ('s, 'n) service =
  svc_repo :: "'s repository"
  svc_notifier :: "'n notifier"
  svc_cfg :: config

definition svc_New :: "'s repository \<Rightarrow> 'n notifier \<Rightarrow> config \<Rightarrow> ('s, 'n) service" where
  "svc_New repo notifier cfg =
     \<lparr>svc_repo = repo, svc_notifier = notifier, svc_cfg =
       \<lparr>cfg_MaxTransferMinor = (if cfg_MaxTransferMinor cfg \<le>s 0 then 100000000 else cfg_MaxTransferMinor cfg),
        cfg_RiskThresholdMinor = (if cfg_RiskThresholdMinor cfg \<le>s 0 then 1000000 else cfg_RiskThresholdMinor cfg)\<rparr>\<rparr>"

record ('s, 'n) world =
  w_store :: 's
  w_notifier :: 'n
  w_rand :: "nat \<Rightarrow> (nat \<Rightarrow> byte) option"
  w_drawn :: nat

record 's request =
  rq_ctx :: "nat \<Rightarrow> ctx"
  rq_others :: "nat \<Rightarrow> 's \<Rightarrow> 's"

datatype 'a outcome = Return 'a | Fail error | Panic

type_synonym ('a, 'w) action = "'w \<Rightarrow> 'a outcome \<times> 'w"

definition bind_action :: "('a, 'w) action \<Rightarrow> ('a \<Rightarrow> ('b, 'w) action) \<Rightarrow> ('b, 'w) action" where
  "bind_action m f w =
     (case m w of (Return x, w') \<Rightarrow> f x w' | (Fail e, w') \<Rightarrow> (Fail e, w') | (Panic, w') \<Rightarrow> (Panic, w'))"

definition fail :: "error \<Rightarrow> ('a, 'w) action" where
  "fail e w = (Fail e, w)"

text \<open>The \<open>k\<close>-th call of the repository by a request.\<close>

definition call :: "'s request \<Rightarrow> nat \<Rightarrow> (ctx \<Rightarrow> 's \<Rightarrow> (error + 'a) \<times> 's) \<Rightarrow> ('a, ('s, 'n) world) action" where
  "call rq k f w =
     (case f (rq_ctx rq k) (rq_others rq k (w_store w)) of
        (Inl e, s) \<Rightarrow> (Fail e, w\<lparr>w_store := s\<rparr>)
      | (Inr x, s) \<Rightarrow> (Return x, w\<lparr>w_store := s\<rparr>))"

definition error_result :: "error option \<times> 's \<Rightarrow> (error + unit) \<times> 's" where
  "error_result r = (case r of (None, s) \<Rightarrow> (Inr (), s) | (Some e, s) \<Rightarrow> (Inl e, s))"

text \<open>
  Read \<open>k\<close> of the random source fills every position of the buffer (\<open>Some f\<close>, byte \<open>f i\<close> at
  position \<open>i\<close>) or fails; the buffer has twelve bytes.
\<close>

definition drawn_id :: "go_string \<Rightarrow> (nat \<Rightarrow> byte) \<Rightarrow> go_string" where
  "drawn_id pre f = pre @ ''_'' @ hex_EncodeToString (map f [0..<12])"

definition randomID :: "go_string \<Rightarrow> (go_string, ('s, 'n) world) action" where
  "randomID pre w =
     (let w' = w\<lparr>w_drawn := Suc (w_drawn w)\<rparr> in
      case w_rand w (w_drawn w) of
        None \<Rightarrow> (Panic, w')
      | Some f \<Rightarrow> (Return (drawn_id pre f), w'))"

record create_account_command =
  cac_OwnerID :: go_string
  cac_Currency :: go_string
  cac_OpeningBalanceMinor :: int64

text \<open>The input that \<^verbatim>\<open>CreateAccount\<close> builds from the identifiers it draws.\<close>

definition create_input ::
  "principal \<Rightarrow> time \<Rightarrow> create_account_command \<Rightarrow> go_string \<Rightarrow> go_string \<Rightarrow> go_string \<Rightarrow> go_string \<Rightarrow> go_string
     \<Rightarrow> create_account_input" where
  "create_input actor now cmd acct opn p0 p1 aud =
     \<lparr>cai_Account = \<lparr>account_ID = acct, account_OwnerID = cac_OwnerID cmd, account_Currency = cac_Currency cmd,
        account_BalanceMinor = cac_OpeningBalanceMinor cmd, account_System = False, account_CreatedAt = now\<rparr>,
      cai_OpeningTransactionID = opn, cai_OpeningPostingIDs = (p0, p1),
      cai_Audit = \<lparr>audit_ID = aud, audit_ActorID = principal_ID actor, audit_Action = ''account.create'',
        audit_ResourceID = acct, audit_Outcome = ''success'',
        audit_Metadata = Some [(''owner_id'', AnyString (cac_OwnerID cmd)), (''currency'', AnyString (cac_Currency cmd))],
        audit_CreatedAt = now\<rparr>\<rparr>"

definition trim_create :: "create_account_command \<Rightarrow> create_account_command" where
  "trim_create cmd = cmd\<lparr>cac_OwnerID := TrimSpace (cac_OwnerID cmd), cac_Currency := TrimSpace (cac_Currency cmd)\<rparr>"

text \<open>\<^verbatim>\<open>CreateAccount\<close> from the reading of the clock on.\<close>

definition submit_account ::
  "('s, 'n) service \<Rightarrow> 's request \<Rightarrow> time \<Rightarrow> principal \<Rightarrow> create_account_command \<Rightarrow> (account, ('s, 'n) world) action" where
  "submit_account svc rq now actor cmd =
     bind_action (randomID ''acct'') (\<lambda>acct.
     bind_action (randomID ''open'') (\<lambda>opn.
     bind_action (randomID ''post'') (\<lambda>p0.
     bind_action (randomID ''post'') (\<lambda>p1.
     bind_action (randomID ''audit'') (\<lambda>aud.
     bind_action (call rq 0 (\<lambda>ctx s. error_result
       (repo_CreateAccount (svc_repo svc) ctx (create_input actor now cmd acct opn p0 p1 aud) s))) (\<lambda>_ w.
     (Return (cai_Account (create_input actor now cmd acct opn p0 p1 aud)), w)))))))"

definition svc_CreateAccount ::
  "('s, 'n) service \<Rightarrow> 's request \<Rightarrow> time \<Rightarrow> principal \<Rightarrow> create_account_command \<Rightarrow> (account, ('s, 'n) world) action" where
  "svc_CreateAccount svc rq now actor cmd0 =
     (let cmd = trim_create cmd0 in
      if \<not> Principal_Valid actor \<or> principal_Role actor \<noteq> RoleOperator \<and> principal_Role actor \<noteq> RoleAdmin
        then fail ErrForbidden
      else if cac_OwnerID cmd = [] \<or> 128 < length (cac_OwnerID cmd) \<or> cac_OpeningBalanceMinor cmd <s 0
        then fail ErrInvalidInput
      else (case ValidateCurrency (cac_Currency cmd) of None \<Rightarrow> submit_account svc rq now actor cmd | Some e \<Rightarrow> fail e))"

definition svc_GetAccount ::
  "('s, 'n) service \<Rightarrow> 's request \<Rightarrow> principal \<Rightarrow> go_string \<Rightarrow> (account, ('s, 'n) world) action" where
  "svc_GetAccount svc rq actor id0 =
     (let aid = TrimSpace id0 in
      if \<not> Principal_Valid actor then fail ErrForbidden
      else if aid = [] \<or> 128 < length aid then fail ErrInvalidInput
      else bind_action (call rq 0 (\<lambda>ctx. repo_GetAccount (svc_repo svc) ctx aid)) (\<lambda>a.
        if principal_Role actor = RoleCustomer \<and> account_OwnerID a \<noteq> principal_ID actor
        then fail ErrForbidden else (\<lambda>w. (Return a, w))))"

text \<open>\<^verbatim>\<open>Ready\<close>: the context of the call is the one with the timeout of two seconds.\<close>

definition svc_Ready :: "('s, 'n) service \<Rightarrow> 's request \<Rightarrow> (unit, ('s, 'n) world) action" where
  "svc_Ready svc rq = call rq 0 (\<lambda>ctx s. error_result (repo_Ping (svc_repo svc) ctx s))"

record transfer_command =
  tc_IdempotencyKey :: go_string
  tc_FromAccountID :: go_string
  tc_ToAccountID :: go_string
  tc_AmountMinor :: int64
  tc_Description :: go_string

definition trim_transfer :: "transfer_command \<Rightarrow> transfer_command" where
  "trim_transfer cmd =
     \<lparr>tc_IdempotencyKey = TrimSpace (tc_IdempotencyKey cmd), tc_FromAccountID = TrimSpace (tc_FromAccountID cmd),
      tc_ToAccountID = TrimSpace (tc_ToAccountID cmd), tc_AmountMinor = tc_AmountMinor cmd,
      tc_Description = TrimSpace (tc_Description cmd)\<rparr>"

definition transfer_command_error :: "config \<Rightarrow> transfer_command \<Rightarrow> error option" where
  "transfer_command_error cfg cmd =
     (if length (tc_IdempotencyKey cmd) < 8 \<or> 128 < length (tc_IdempotencyKey cmd) \<or>
         tc_FromAccountID cmd = [] \<or> 128 < length (tc_FromAccountID cmd) \<or>
         tc_ToAccountID cmd = [] \<or> 128 < length (tc_ToAccountID cmd) \<or>
         tc_AmountMinor cmd \<le>s 0 \<or> 200 < RuneCountInString (tc_Description cmd) then Some ErrInvalidInput
      else if cfg_MaxTransferMinor cfg <s tc_AmountMinor cmd then Some ErrTransferLimit
      else None)"

definition command_intent :: "transfer_command \<Rightarrow> transfer_intent" where
  "command_intent cmd =
     \<lparr>intent_FromAccountID = tc_FromAccountID cmd, intent_ToAccountID = tc_ToAccountID cmd,
      intent_AmountMinor = tc_AmountMinor cmd, intent_Description = tc_Description cmd\<rparr>"

definition new_transfer :: "principal \<Rightarrow> time \<Rightarrow> transfer_command \<Rightarrow> go_string \<Rightarrow> go_string \<Rightarrow> transfer" where
  "new_transfer actor now cmd currency tid =
     \<lparr>transfer_ID = tid, transfer_IdempotencyKey = tc_IdempotencyKey cmd,
      transfer_Intent = command_intent cmd, transfer_Currency = currency, transfer_ActorID = principal_ID actor, transfer_CreatedAt = now\<rparr>"

text \<open>The risk event of a transfer, drawn only at or above the threshold.\<close>

definition new_risk ::
  "config \<Rightarrow> time \<Rightarrow> transfer_command \<Rightarrow> go_string \<Rightarrow> (risk_event option, ('s, 'n) world) action" where
  "new_risk cfg now cmd tid =
     (if cfg_RiskThresholdMinor cfg \<le>s tc_AmountMinor cmd
      then bind_action (randomID ''risk'') (\<lambda>rid w.
        (Return (Some \<lparr>risk_ID = rid, risk_Type = ''high_value_transfer'', risk_Severity = ''medium'',
           risk_TransferID = tid,
           risk_Reason = ''amount_minor >= '' @ format_int (sint (cfg_RiskThresholdMinor cfg)),
           risk_CreatedAt = now\<rparr>), w))
      else (\<lambda>w. (Return None, w)))"

definition transfer_input ::
  "principal \<Rightarrow> time \<Rightarrow> transfer_command \<Rightarrow> go_string \<Rightarrow> go_string \<Rightarrow> risk_event option \<Rightarrow> go_string \<Rightarrow> go_string \<Rightarrow>
     go_string \<Rightarrow> apply_transfer_input" where
  "transfer_input actor now cmd currency tid risk p0 p1 aud =
     \<lparr>ati_Transfer = new_transfer actor now cmd currency tid, ati_PostingIDs = (p0, p1),
      ati_Audit = \<lparr>audit_ID = aud, audit_ActorID = principal_ID actor, audit_Action = ''transfer.create'',
        audit_ResourceID = tid, audit_Outcome = ''success'',
        audit_Metadata = Some [(''from_account_id'', AnyString (tc_FromAccountID cmd)),
          (''to_account_id'', AnyString (tc_ToAccountID cmd)), (''amount_minor'', AnyInt64 (tc_AmountMinor cmd)),
          (''currency'', AnyString currency)],
        audit_CreatedAt = now\<rparr>,
      ati_Risk = risk\<rparr>"

text \<open>The end of \<^verbatim>\<open>Transfer\<close>: the notifier hears of a risk event of a transfer that was committed now.\<close>

definition notify ::
  "'n notifier \<Rightarrow> risk_event option \<Rightarrow> transfer_result \<Rightarrow> (transfer_result, ('s, 'n) world) action" where
  "notify notifier risk res w =
     (case risk of None \<Rightarrow> (Return res, w) | Some ev \<Rightarrow>
      if result_Replayed res then (Return res, w)
      else (case notifier of None \<Rightarrow> (Return res, w)
            | Some submit \<Rightarrow> (Return res, w\<lparr>w_notifier := snd (submit ev (w_notifier w))\<rparr>)))"

text \<open>\<^verbatim>\<open>Transfer\<close> from the reading of the clock on, for the currency of the source account.\<close>

definition submit_transfer ::
  "('s, 'n) service \<Rightarrow> 's request \<Rightarrow> time \<Rightarrow> principal \<Rightarrow> transfer_command \<Rightarrow> go_string \<Rightarrow>
     (transfer_result, ('s, 'n) world) action" where
  "submit_transfer svc rq now actor cmd currency =
     bind_action (randomID ''txn'') (\<lambda>tid.
     bind_action (new_risk (svc_cfg svc) now cmd tid) (\<lambda>risk.
     bind_action (randomID ''post'') (\<lambda>p0.
     bind_action (randomID ''post'') (\<lambda>p1.
     bind_action (randomID ''audit'') (\<lambda>aud.
     bind_action (call rq 2 (\<lambda>ctx. repo_ApplyTransfer (svc_repo svc) ctx
       (transfer_input actor now cmd currency tid risk p0 p1 aud))) (\<lambda>res.
     notify (svc_notifier svc) risk res))))))"

definition svc_Transfer ::
  "('s, 'n) service \<Rightarrow> 's request \<Rightarrow> time \<Rightarrow> principal \<Rightarrow> transfer_command \<Rightarrow>
     (transfer_result, ('s, 'n) world) action" where
  "svc_Transfer svc rq now actor cmd0 =
     (let cmd = trim_transfer cmd0 in
      if \<not> Principal_Valid actor \<or> principal_Role actor = RoleAuditor then fail ErrForbidden
      else (case transfer_command_error (svc_cfg svc) cmd of None \<Rightarrow>
        bind_action (call rq 0 (\<lambda>ctx. repo_GetAccount (svc_repo svc) ctx (tc_FromAccountID cmd))) (\<lambda>fa.
        if principal_Role actor = RoleCustomer \<and> account_OwnerID fa \<noteq> principal_ID actor then fail ErrForbidden else
        bind_action (call rq 1 (\<lambda>ctx. repo_GetAccount (svc_repo svc) ctx (tc_ToAccountID cmd))) (\<lambda>ta.
        if account_Currency fa \<noteq> account_Currency ta then fail ErrCurrencyMismatch else
        submit_transfer svc rq now actor cmd (account_Currency fa)))
      | Some e \<Rightarrow> fail e))"

definition canInspect :: "principal \<Rightarrow> bool" where
  "canInspect actor \<longleftrightarrow> Principal_Valid actor \<and>
     (principal_Role actor = RoleOperator \<or> principal_Role actor = RoleAdmin \<or> principal_Role actor = RoleAuditor)"

definition svc_ListJournal ::
  "('s, 'n) service \<Rightarrow> 's request \<Rightarrow> principal \<Rightarrow> int \<Rightarrow> (posting list, ('s, 'n) world) action" where
  "svc_ListJournal svc rq actor limit =
     (if \<not> canInspect actor then fail ErrForbidden
      else call rq 0 (\<lambda>ctx. repo_ListJournal (svc_repo svc) ctx limit))"

definition svc_ListAudit ::
  "('s, 'n) service \<Rightarrow> 's request \<Rightarrow> principal \<Rightarrow> int \<Rightarrow> (audit_record list, ('s, 'n) world) action" where
  "svc_ListAudit svc rq actor limit =
     (if \<not> canInspect actor then fail ErrForbidden
      else call rq 0 (\<lambda>ctx. repo_ListAudit (svc_repo svc) ctx limit))"

definition svc_ListRiskEvents ::
  "('s, 'n) service \<Rightarrow> 's request \<Rightarrow> principal \<Rightarrow> int \<Rightarrow> (risk_event list, ('s, 'n) world) action" where
  "svc_ListRiskEvents svc rq actor limit =
     (if \<not> canInspect actor then fail ErrForbidden
      else call rq 0 (\<lambda>ctx. repo_ListRiskEvents (svc_repo svc) ctx limit))"

section \<open>Walking through an action\<close>

text \<open>The rules of \<open>check_chain\<close> for checks that choose an action, and for a sequence of actions.\<close>

lemma if_action: "(c \<Longrightarrow> P (a w)) \<Longrightarrow> (\<not> c \<Longrightarrow> P (b w)) \<Longrightarrow> P ((if c then a else b) w)"
  by simp

lemma option_action:
  "(m = None \<Longrightarrow> P (a w)) \<Longrightarrow> (\<And>x. m = Some x \<Longrightarrow> P (f x w)) \<Longrightarrow> P ((case m of None \<Rightarrow> a | Some x \<Rightarrow> f x) w)"
  by (cases m) auto

lemma bind_actionI:
  assumes "\<And>x v. m w = (Return x, v) \<Longrightarrow> P (f x v)"
    and "\<And>e v. m w = (Fail e, v) \<Longrightarrow> P (Fail e, v)" and "\<And>v. m w = (Panic, v) \<Longrightarrow> P (Panic, v)"
  shows "P (bind_action m f w)"
  using assms by (cases "m w") (auto simp: bind_action_def split: outcome.split)

lemma failI: "P (Fail e, w) \<Longrightarrow> P (fail e w)"
  by (simp add: fail_def)

lemmas action_chain = if_action option_action bind_actionI failI

lemma randomID_result:
  "randomID pre w = (x, v) \<Longrightarrow> v = w\<lparr>w_drawn := Suc (w_drawn w)\<rparr> \<and>
     (x = (case w_rand w (w_drawn w) of None \<Rightarrow> Panic | Some f \<Rightarrow> Return (drawn_id pre f)))"
  by (auto simp: randomID_def split: option.splits)

text \<open>A request whose repository serves other operations between its calls.\<close>

definition served_by :: "'s repository \<Rightarrow> (nat \<Rightarrow> ctx) \<Rightarrow> (nat \<Rightarrow> repo_op list) \<Rightarrow> 's request" where
  "served_by R cx ops = \<lparr>rq_ctx = cx, rq_others = (\<lambda>k. repo_run R (ops k))\<rparr>"

text \<open>Drawing identifiers changes the position in the random source only.\<close>

definition only_drawn :: "('s, 'n) world \<Rightarrow> ('s, 'n) world \<Rightarrow> bool" where
  "only_drawn w w' \<longleftrightarrow> (\<exists>n. w' = w\<lparr>w_drawn := n\<rparr>)"

lemma only_drawn_randomID: "randomID pre w = (x, v) \<Longrightarrow> only_drawn w v"
  unfolding only_drawn_def using randomID_result by metis

lemma only_drawn_risk: "new_risk cfg now cmd tid w = (x, v) \<Longrightarrow> only_drawn w v"
  by (auto simp: new_risk_def bind_action_def only_drawn_def split: if_splits prod.splits outcome.splits
      dest!: randomID_result intro: exI [of _ "w_drawn w"])

lemma only_drawn_trans: "only_drawn u v \<Longrightarrow> only_drawn v w \<Longrightarrow> only_drawn u w"
  by (auto simp: only_drawn_def)

lemma only_drawn_fields:
  "only_drawn w w' \<Longrightarrow> w_store w' = w_store w \<and> w_notifier w' = w_notifier w \<and> w_rand w' = w_rand w"
  by (auto simp: only_drawn_def)

text \<open>The risk event that belongs to a command: one at or above the threshold, none below.\<close>

definition risk_for :: "config \<Rightarrow> time \<Rightarrow> transfer_command \<Rightarrow> go_string \<Rightarrow> risk_event option \<Rightarrow> bool" where
  "risk_for cfg now cmd tid risk \<longleftrightarrow>
     (if cfg_RiskThresholdMinor cfg \<le>s tc_AmountMinor cmd
      then \<exists>f. risk = Some \<lparr>risk_ID = drawn_id ''risk'' f, risk_Type = ''high_value_transfer'', risk_Severity = ''medium'',
        risk_TransferID = tid, risk_Reason = ''amount_minor >= '' @ format_int (sint (cfg_RiskThresholdMinor cfg)),
        risk_CreatedAt = now\<rparr>
      else risk = None)"

lemma randomID_no_Fail [simp]: "randomID pre w = (Fail e, v) \<longleftrightarrow> False"
  by (auto simp: randomID_def Let_def split: option.splits)

lemma new_risk_no_Fail [simp]: "new_risk cfg now cmd tid w = (Fail e, v) \<longleftrightarrow> False"
  by (auto simp: new_risk_def bind_action_def split: prod.splits outcome.splits)

lemma new_risk_Return:
  "new_risk cfg now cmd tid w = (Return risk, v) \<Longrightarrow> risk_for cfg now cmd tid risk \<and> only_drawn w v"
proof
  assume nr: "new_risk cfg now cmd tid w = (Return risk, v)"
  then show "only_drawn w v" by (rule only_drawn_risk)
  obtain r u where "randomID ''risk'' w = (r, u)" by fastforce
  with nr randomID_result [OF this] show "risk_for cfg now cmd tid risk"
    by (auto simp: new_risk_def risk_for_def bind_action_def split: if_splits option.splits)
qed

text \<open>Draws keep the repository and the notifier, whether they succeed or panic.\<close>

lemma bind_randomID:
  assumes "only_drawn w u" "\<And>x v. only_drawn w v \<Longrightarrow> P (f (drawn_id pre x) v)" "\<And>v. only_drawn w v \<Longrightarrow> P (Panic, v)"
  shows "P (bind_action (randomID pre) f u)"
proof (rule bind_actionI [where P = P])
  fix x v assume r: "randomID pre u = (Return x, v)"
  then obtain g where "x = drawn_id pre g" by (auto dest!: randomID_result split: option.splits)
  with r show "P (f x v)" using assms(1,2) only_drawn_randomID only_drawn_trans by blast
next
  fix v assume "randomID pre u = (Panic, v)"
  then show "P (Panic, v)" using assms(1,3) only_drawn_randomID only_drawn_trans by blast
qed simp

lemma bind_new_risk:
  assumes "only_drawn w u" "\<And>x v. only_drawn w v \<Longrightarrow> risk_for cfg now cmd tid x \<Longrightarrow> P (f x v)"
    "\<And>v. only_drawn w v \<Longrightarrow> P (Panic, v)"
  shows "P (bind_action (new_risk cfg now cmd tid) f u)"
proof (rule bind_actionI [where P = P])
  fix x v assume "new_risk cfg now cmd tid u = (Return x, v)"
  then show "P (f x v)" using assms(1,2) new_risk_Return only_drawn_trans by blast
next
  fix v assume "new_risk cfg now cmd tid u = (Panic, v)"
  then show "P (Panic, v)" using assms(1,3) only_drawn_risk only_drawn_trans by blast
qed simp

lemma only_drawn_refl [simp]: "only_drawn w w"
  by (auto simp: only_drawn_def intro: exI [of _ "w_drawn w"])

text \<open>The input of a request, from the random bytes of its identifiers.\<close>

definition drawn_input ::
  "principal \<Rightarrow> time \<Rightarrow> transfer_command \<Rightarrow> go_string \<Rightarrow> (nat \<Rightarrow> byte) \<Rightarrow> risk_event option \<Rightarrow> (nat \<Rightarrow> byte) \<Rightarrow>
     (nat \<Rightarrow> byte) \<Rightarrow> (nat \<Rightarrow> byte) \<Rightarrow> apply_transfer_input" where
  "drawn_input actor now cmd currency tid risk p0 p1 aud =
     transfer_input actor now cmd currency (drawn_id ''txn'' tid) risk (drawn_id ''post'' p0) (drawn_id ''post'' p1)
       (drawn_id ''audit'' aud)"

definition submitted ::
  "('s, 'n) service \<Rightarrow> 's request \<Rightarrow> time \<Rightarrow> principal \<Rightarrow> transfer_command \<Rightarrow> go_string \<Rightarrow> ('s, 'n) world \<Rightarrow>
     transfer_result outcome \<times> ('s, 'n) world \<Rightarrow> bool" where
  "submitted svc rq now actor cmd currency w res \<longleftrightarrow>
     (\<exists>tid risk p0 p1 aud u r s'. only_drawn w u \<and> risk_for (svc_cfg svc) now cmd (drawn_id ''txn'' tid) risk \<and>
        repo_ApplyTransfer (svc_repo svc) (rq_ctx rq 2) (drawn_input actor now cmd currency tid risk p0 p1 aud)
          (rq_others rq 2 (w_store w)) = (r, s') \<and>
        res = (case r of Inl e \<Rightarrow> (Fail e, u\<lparr>w_store := s'\<rparr>)
               | Inr x \<Rightarrow> notify (svc_notifier svc) risk x (u\<lparr>w_store := s'\<rparr>)))"

lemma submittedE:
  assumes "submitted svc rq now actor cmd currency w (out, w')"
  obtains tid risk p0 p1 aud u r s' where
    "only_drawn w u" "risk_for (svc_cfg svc) now cmd (drawn_id ''txn'' tid) risk"
    "repo_ApplyTransfer (svc_repo svc) (rq_ctx rq 2) (drawn_input actor now cmd currency tid risk p0 p1 aud)
       (rq_others rq 2 (w_store w)) = (r, s')"
    "(out, w') = (case r of Inl e \<Rightarrow> (Fail e, u\<lparr>w_store := s'\<rparr>)
                  | Inr res \<Rightarrow> notify (svc_notifier svc) risk res (u\<lparr>w_store := s'\<rparr>))"
  using assms unfolding submitted_def by (elim exE conjE)

lemma submit_transfer_cases:
  assumes "submit_transfer svc rq now actor cmd currency w = (out, w')"
  obtains (panic) "out = Panic" "only_drawn w w'"
  | (submitted) "submitted svc rq now actor cmd currency w (out, w')"
proof -
  define P where "P x \<longleftrightarrow> (fst x = Panic \<and> only_drawn w (snd x)) \<or> submitted svc rq now actor cmd currency w x" for x
  have end_call: "P (bind_action (call rq 2 (\<lambda>ctx. repo_ApplyTransfer (svc_repo svc) ctx
      (transfer_input actor now cmd currency (drawn_id ''txn'' tid) risk (drawn_id ''post'' p0) (drawn_id ''post'' p1)
       (drawn_id ''audit'' aud)))) (notify (svc_notifier svc) risk) u)"
    if "only_drawn w u" "risk_for (svc_cfg svc) now cmd (drawn_id ''txn'' tid) risk" for tid risk p0 p1 aud u
    unfolding P_def submitted_def drawn_input_def
    by (rule disjI2, rule exI [of _ tid], rule exI [of _ risk], rule exI [of _ p0], rule exI [of _ p1],
        rule exI [of _ aud], rule exI [of _ u])
      (use that in \<open>auto simp: bind_action_def call_def only_drawn_fields split: prod.split sum.split\<close>)
  have "P (submit_transfer svc rq now actor cmd currency w)"
    unfolding submit_transfer_def
    by (intro bind_randomID [where P = P and w = w] bind_new_risk [where P = P and w = w] end_call)
      (simp_all add: P_def)
  with assms panic submitted show ?thesis by (auto simp: P_def)
qed

section \<open>Transfers of a service over a repository that keeps its contract\<close>

definition others_work :: "'s repository \<Rightarrow> (nat \<Rightarrow> repo_op list) \<Rightarrow> nat \<Rightarrow> 's \<Rightarrow> 's" where
  "others_work R ops n s = repo_run R (concat (map ops [0..<n])) s"

lemma others_work_simps [simp]:
  "others_work R ops 0 s = s"
  "others_work R ops (Suc n) s = repo_run R (ops n) (others_work R ops n s)"
  by (simp_all add: others_work_def repo_run_append)

lemma others_work_num [simp]:
  "others_work R ops 2 s = repo_run R (ops 1) (repo_run R (ops 0) s)"
  "others_work R ops 3 s = repo_run R (ops 2) (repo_run R (ops 1) (repo_run R (ops 0) s))"
  by (simp_all add: numeral_2_eq_2 numeral_3_eq_3)

lemma others_work_nil [simp]: "others_work R (\<lambda>_. []) n s = s"
  by (induction n) simp_all

text \<open>What a transfer request has established when it submits, over the accounts that it has read.\<close>

definition transfer_cleared ::
  "config \<Rightarrow> principal \<Rightarrow> transfer_command \<Rightarrow> account \<Rightarrow> account \<Rightarrow> bool" where
  "transfer_cleared cfg actor cmd fa ta \<longleftrightarrow>
     Principal_Valid actor \<and> principal_Role actor \<noteq> RoleAuditor \<and> transfer_command_error cfg cmd = None \<and>
     (principal_Role actor = RoleCustomer \<longrightarrow> account_OwnerID fa = principal_ID actor) \<and>
     account_Currency fa = account_Currency ta \<and> \<not> account_System fa \<and> \<not> account_System ta"

text \<open>
  The effect of one transfer request: either the repository is what the other requests make of
  it, and a value returned is an earlier transfer of the same actor, key and intent; or the actor
  may debit the source account and the request has moved exactly the amount it names.
\<close>

definition request_idle :: "'s repository \<Rightarrow> (nat \<Rightarrow> repo_op list) \<Rightarrow> principal \<Rightarrow> transfer_command \<Rightarrow> ('s, 'n) world \<Rightarrow>
    transfer_result outcome \<Rightarrow> ('s, 'n) world \<Rightarrow> bool" where
  "request_idle R ops actor c w out w' \<longleftrightarrow>
     (\<exists>n \<le> 3. w_store w' = others_work R ops n (w_store w)) \<and> w_notifier w' = w_notifier w \<and>
     (\<forall>res. out = Return res \<longrightarrow> result_Replayed res \<and>
        scope_of (result_Transfer res) = (principal_ID actor, tc_IdempotencyKey c) \<and>
        transfer_Intent (result_Transfer res) = command_intent c)"

definition request_moves :: "'s repository \<Rightarrow> ('s \<Rightarrow> go_string \<Rightarrow> account option) \<Rightarrow> (nat \<Rightarrow> repo_op list) \<Rightarrow> config \<Rightarrow> principal \<Rightarrow> transfer_command \<Rightarrow> ('s, 'n) world \<Rightarrow>
    transfer_result outcome \<Rightarrow> ('s, 'n) world \<Rightarrow> bool" where
  "request_moves R accts ops cfg actor c w out w' \<longleftrightarrow>
     (\<exists>t fa. out = Return \<lparr>result_Transfer = t, result_Replayed = False\<rparr> \<and>
        scope_of t = (principal_ID actor, tc_IdempotencyKey c) \<and> transfer_Intent t = command_intent c \<and>
        Principal_Valid actor \<and> principal_Role actor \<noteq> RoleAuditor \<and>
        transfer_command_error cfg c = None \<and>
        accts (others_work R ops 3 (w_store w)) (tc_FromAccountID c) = Some fa \<and> \<not> account_System fa \<and>
        (principal_Role actor = RoleCustomer \<longrightarrow> account_OwnerID fa = principal_ID actor) \<and>
        (\<forall>k a. accts (others_work R ops 3 (w_store w)) k = Some a \<longrightarrow>
           (\<exists>a'. accts (w_store w') k = Some a' \<and> same_identity a a' \<and>
              sint (account_BalanceMinor a') = sint (account_BalanceMinor a) + delta k t)))"

text \<open>
  A repository that the service can use: it keeps the contract and accepts the form of every
  input that the service builds from a valid command.
\<close>

locale ledger_service = ledger_repository R invar accts bound stored input_ok
  for R :: "'s repository" and invar accts bound stored input_ok +
  assumes input_accepted:
    "Principal_Valid actor \<Longrightarrow> transfer_command_error cfg c = None \<Longrightarrow> \<not> IsZero now \<Longrightarrow>
     risk_for cfg now c (drawn_id ''txn'' tid) risk \<Longrightarrow> drawn_id ''post'' p0 \<noteq> drawn_id ''post'' p1 \<Longrightarrow>
     ValidateCurrency currency = None \<Longrightarrow> input_ok (drawn_input actor now c currency tid risk p0 p1 aud)"
begin

lemma invar_others: "invar s \<Longrightarrow> invar (others_work R ops n s)"
  by (simp add: others_work_def invar_run)

lemma call_get:
  assumes "call (served_by R cx ops) k (\<lambda>ctx. repo_GetAccount R ctx aid) w = (x, v)" "invar (w_store w)"
  shows "v = w\<lparr>w_store := repo_run R (ops k) (w_store w)\<rparr> \<and> x \<noteq> Panic \<and>
    (\<forall>a. x = Return a \<longrightarrow> accts (repo_run R (ops k) (w_store w)) aid = Some a \<and> \<not> account_System a)"
proof -
  obtain g s' where g: "repo_GetAccount R (cx k) aid (repo_run R (ops k) (w_store w)) = (g, s')" by fastforce
  with assms(1) get_reads [OF invar_run [OF assms(2)] g] show ?thesis
    by (auto simp: call_def served_by_def split: sum.splits)
qed

lemma Transfer_cases:
  fixes w :: "('s, 'n) world" and svc :: "('s, 'n) service"
  assumes "svc_repo svc = R" "svc_Transfer svc (served_by R cx ops) now actor cmd w = (out, w')"
    and inv: "invar (w_store w)"
  obtains (stopped) n where "n \<le> 2" "w_store w' = others_work R ops n (w_store w)" "w_notifier w' = w_notifier w"
      "\<And>res. out \<noteq> Return res"
  | (submitted) fa ta where "transfer_cleared (svc_cfg svc) actor (trim_transfer cmd) fa ta"
      "accts (others_work R ops 1 (w_store w)) (tc_FromAccountID (trim_transfer cmd)) = Some fa"
      "accts (others_work R ops 2 (w_store w)) (tc_ToAccountID (trim_transfer cmd)) = Some ta"
      "submitted svc (served_by R cx ops) now actor (trim_transfer cmd) (account_Currency fa)
         (w\<lparr>w_store := others_work R ops 2 (w_store w)\<rparr>) (out, w')"
proof -
  let ?c = "trim_transfer cmd" and ?w2 = "w\<lparr>w_store := others_work R ops 2 (w_store w)\<rparr>"
  define stop where "stop x \<longleftrightarrow> (\<exists>n \<le> 2. w_store (snd x) = others_work R ops n (w_store w)) \<and>
    w_notifier (snd x) = w_notifier w \<and> (\<forall>res. fst x \<noteq> Return res)" for x :: "transfer_result outcome \<times> ('s, 'n) world"
  define sub where "sub x \<longleftrightarrow> (\<exists>fa ta. transfer_cleared (svc_cfg svc) actor ?c fa ta \<and>
    accts (others_work R ops 1 (w_store w)) (tc_FromAccountID ?c) = Some fa \<and>
    accts (others_work R ops 2 (w_store w)) (tc_ToAccountID ?c) = Some ta \<and>
    submitted svc (served_by R cx ops) now actor ?c (account_Currency fa) ?w2 x)" for x
  define P where "P x \<longleftrightarrow> stop x \<or> sub x" for x
  have stops: "P (Fail e, w)" "P (Fail e, w\<lparr>w_store := others_work R ops 1 (w_store w)\<rparr>)" "P (Fail e, ?w2)" for e
    unfolding P_def stop_def
    by (rule disjI1; force intro: exI [of _ 0] exI [of _ 1] exI [of _ 2])+
  have tail: "P (submit_transfer svc (served_by R cx ops) now actor ?c cur ?w2)"
    if "accts (others_work R ops 1 (w_store w)) (tc_FromAccountID ?c) = Some fa"
      "accts (others_work R ops 2 (w_store w)) (tc_ToAccountID ?c) = Some ta"
      "Principal_Valid actor" "principal_Role actor \<noteq> RoleAuditor" "transfer_command_error (svc_cfg svc) ?c = None"
      "principal_Role actor = RoleCustomer \<longrightarrow> account_OwnerID fa = principal_ID actor"
      "account_Currency fa = cur" "account_Currency ta = cur" "\<not> account_System fa" "\<not> account_System ta" for fa ta cur
    by (rule submit_transfer_cases [OF prod.collapse [symmetric], of svc "served_by R cx ops" now actor ?c cur ?w2])
      (use that in \<open>auto simp: P_def stop_def sub_def transfer_cleared_def dest: only_drawn_fields intro!: exI [of _ 2]\<close>)
  have "P (svc_Transfer svc (served_by R cx ops) now actor cmd w)"
    unfolding svc_Transfer_def Let_def assms(1)
    by (intro action_chain [where P = P])
      (auto dest!: call_get simp: stops(1) stops(2,3) [simplified] inv invar_run intro: tail [simplified])
  then show ?thesis
    unfolding assms(2) using stopped submitted by (auto simp: P_def stop_def sub_def)
qed

lemma others_identity:
  assumes "invar s" "accts (others_work R ops 1 s) k = Some a"
  shows "\<exists>a'. accts (others_work R ops 3 s) k = Some a' \<and> same_identity a a'"
  using accts_run [OF invar_others [OF assms(1), of ops 1] assms(2), of "ops 1 @ ops 2"]
  by (auto simp: repo_run_append)

lemma Transfer_effect:
  fixes w :: "('s, 'n) world" and svc :: "('s, 'n) service"
  assumes inv: "invar (w_store w)" and "svc_repo svc = R"
    and "svc_Transfer svc (served_by R cx ops) now actor cmd w = (out, w')"
  shows "request_idle R ops actor (trim_transfer cmd) w out w' \<or>
    request_moves R accts ops (svc_cfg svc) actor (trim_transfer cmd) w out w'"
  using assms(2,3,1)
proof (cases rule: Transfer_cases)
  case (stopped n)
  then have "request_idle R ops actor (trim_transfer cmd) w out w'"
    unfolding request_idle_def by (intro conjI exI [of _ n]) auto
  then show ?thesis ..
next
  case (submitted fa ta)
  let ?c = "trim_transfer cmd" and ?s = "others_work R ops 3 (w_store w)"
  have inv3: "invar ?s" using inv by (rule invar_others)
  from submitted(4) obtain tid risk p0 p1 aud u r s' where
    u: "only_drawn (w\<lparr>w_store := others_work R ops 2 (w_store w)\<rparr>) u" and
    ap0: "repo_ApplyTransfer R (cx 2) (drawn_input actor now ?c (account_Currency fa) tid risk p0 p1 aud) ?s = (r, s')" and
    fin: "(out, w') = (case r of Inl e \<Rightarrow> (Fail e, u\<lparr>w_store := s'\<rparr>)
      | Inr res \<Rightarrow> notify (svc_notifier svc) risk res (u\<lparr>w_store := s'\<rparr>))"
    by (rule submittedE) (auto simp: assms(2) served_by_def)
  define inp where "inp = drawn_input actor now ?c (account_Currency fa) tid risk p0 p1 aud"
  have inp: "scope_of (ati_Transfer inp) = (principal_ID actor, tc_IdempotencyKey ?c)"
      "transfer_Intent (ati_Transfer inp) = command_intent ?c"
    by (simp_all add: inp_def drawn_input_def transfer_input_def new_transfer_def command_intent_def scope_of_def)
  note ap = ap0 [folded inp_def]
  show ?thesis
  proof (cases "\<exists>res. r = Inr res \<and> \<not> result_Replayed res")
    case False
    have "s' = ?s" using ap False apply_error [OF inv3] apply_replay [OF inv3] by (cases r) blast+
    moreover have "w_store w' = s' \<and> w_notifier w' = w_notifier w \<and> (\<forall>res. out = Return res \<longrightarrow> r = Inr res)"
      using fin False only_drawn_fields [OF u] by (auto simp: notify_def split: sum.splits option.splits)
    ultimately have "request_idle R ops actor ?c w out w'"
      unfolding request_idle_def using ap False apply_replay [OF inv3] bound_scope [OF inv3] inp
      by (metis order_refl)
    then show ?thesis ..
  next
    case True
    then obtain res where res: "r = Inr res" "\<not> result_Replayed res" by blast
    note fresh = apply_fresh [OF inv3 ap [unfolded res(1)] res(2)]
    have w': "w_store w' = s'" "out = Return res"
      using fin res by (auto simp: notify_def split: option.splits)
    from others_identity [OF inv submitted(2)] obtain fa' where
      fa': "accts ?s (tc_FromAccountID ?c) = Some fa'" "same_identity fa fa'" by blast
    have "request_moves R accts ops (svc_cfg svc) actor ?c w out w'"
      unfolding request_moves_def w'
      using submitted(1) fresh fa' inp res(2) same_identity_fields [OF fa'(2)]
      by (intro exI [of _ "ati_Transfer inp"] exI [of _ fa']) (cases res; simp add: transfer_cleared_def)
    then show ?thesis ..
  qed
qed

end

section \<open>Opening an account\<close>

text \<open>What \<^verbatim>\<open>CreateAccount\<close> has checked when it calls the repository.\<close>

definition create_cleared :: "principal \<Rightarrow> create_account_command \<Rightarrow> bool" where
  "create_cleared actor c \<longleftrightarrow>
     Principal_Valid actor \<and> principal_Role actor \<in> {RoleOperator, RoleAdmin} \<and>
     cac_OwnerID c \<noteq> [] \<and> length (cac_OwnerID c) \<le> 128 \<and> 0 \<le> sint (cac_OpeningBalanceMinor c) \<and>
     ValidateCurrency (cac_Currency c) = None"

definition drawn_account ::
  "principal \<Rightarrow> time \<Rightarrow> create_account_command \<Rightarrow> (nat \<Rightarrow> byte) \<Rightarrow> (nat \<Rightarrow> byte) \<Rightarrow> (nat \<Rightarrow> byte) \<Rightarrow> (nat \<Rightarrow> byte) \<Rightarrow>
     (nat \<Rightarrow> byte) \<Rightarrow> create_account_input" where
  "drawn_account actor now c acct opn p0 p1 aud =
     create_input actor now c (drawn_id ''acct'' acct) (drawn_id ''open'' opn) (drawn_id ''post'' p0)
       (drawn_id ''post'' p1) (drawn_id ''audit'' aud)"

definition account_outcome :: "create_account_input \<Rightarrow> error option \<Rightarrow> account outcome" where
  "account_outcome inp r = (case r of Some e \<Rightarrow> Fail e | None \<Rightarrow> Return (cai_Account inp))"

definition created ::
  "('s, 'n) service \<Rightarrow> 's request \<Rightarrow> time \<Rightarrow> principal \<Rightarrow> create_account_command \<Rightarrow> ('s, 'n) world \<Rightarrow>
     account outcome \<times> ('s, 'n) world \<Rightarrow> bool" where
  "created svc rq now actor c w res \<longleftrightarrow>
     (\<exists>acct opn p0 p1 aud u r s'. only_drawn w u \<and>
        repo_CreateAccount (svc_repo svc) (rq_ctx rq 0) (drawn_account actor now c acct opn p0 p1 aud)
          (rq_others rq 0 (w_store w)) = (r, s') \<and>
        res = (account_outcome (drawn_account actor now c acct opn p0 p1 aud) r, u\<lparr>w_store := s'\<rparr>))"

lemma submit_account_cases:
  assumes "submit_account svc rq now actor c w = (out, w')"
  obtains (panic) "out = Panic" "only_drawn w w'"
  | (called) "created svc rq now actor c w (out, w')"
proof -
  define P where "P x \<longleftrightarrow> (fst x = Panic \<and> only_drawn w (snd x)) \<or> created svc rq now actor c w x" for x
  have end_call: "P (bind_action (call rq 0 (\<lambda>ctx s. error_result (repo_CreateAccount (svc_repo svc) ctx
        (create_input actor now c (drawn_id ''acct'' acct) (drawn_id ''open'' opn) (drawn_id ''post'' p0)
          (drawn_id ''post'' p1) (drawn_id ''audit'' aud)) s)))
      (\<lambda>_ w. (Return (cai_Account (create_input actor now c (drawn_id ''acct'' acct) (drawn_id ''open'' opn)
          (drawn_id ''post'' p0) (drawn_id ''post'' p1) (drawn_id ''audit'' aud))), w)) u)"
    if "only_drawn w u" for acct opn p0 p1 aud u
    unfolding P_def created_def drawn_account_def [symmetric]
    by (rule disjI2, rule exI [of _ acct], rule exI [of _ opn], rule exI [of _ p0], rule exI [of _ p1],
        rule exI [of _ aud], rule exI [of _ u])
      (use that in \<open>auto simp: bind_action_def call_def error_result_def account_outcome_def only_drawn_fields
        split: prod.split option.split\<close>)
  have "P (submit_account svc rq now actor c w)"
    unfolding submit_account_def
    by (intro bind_randomID [where P = P and w = w] end_call) (simp_all add: P_def)
  with assms panic called show ?thesis by (auto simp: P_def)
qed

lemma svc_CreateAccount_cases:
  assumes "svc_CreateAccount svc rq now actor cmd w = (out, w')"
  obtains (refused) e where "out = Fail e" "w' = w" "\<not> create_cleared actor (trim_create cmd)"
  | (panic) "create_cleared actor (trim_create cmd)" "out = Panic" "only_drawn w w'"
  | (called) "create_cleared actor (trim_create cmd)" "created svc rq now actor (trim_create cmd) w (out, w')"
proof (cases "create_cleared actor (trim_create cmd)")
  case True
  then have "submit_account svc rq now actor (trim_create cmd) w = (out, w')"
    using assms by (auto simp: svc_CreateAccount_def create_cleared_def int64_simps not_less Let_def split: if_splits)
  then show ?thesis by (cases rule: submit_account_cases) (use True panic called in blast)+
next
  case False
  then have "\<exists>e. (out, w') = (Fail e, w)"
    using assms by (auto simp: svc_CreateAccount_def create_cleared_def int64_simps not_less fail_def Let_def
        split: if_splits option.splits)
  with False refused show ?thesis by auto
qed

end
