(* ===== verification/Service_Inputs.thy ===== *)
theory Service_Inputs
  imports Service Memory_Store
begin

text \<open>
  The inputs that the service builds pass the checks which the repositories make on their input
  alone, and a request whose random reads succeed reaches the repository. So an
  \<^verbatim>\<open>ErrInvalidInput\<close> of a repository for a request of the service comes from the state of the
  ledger and not from the form of the request.
\<close>

section \<open>Identifiers\<close>

lemma length_hex [simp]: "length (hex_EncodeToString bs) = 2 * length bs"
  by (induction bs) (simp_all add: hex_EncodeToString_def)

lemma bv_hex_digit: "n < 16 \<Longrightarrow> bv (hex_digit n) = (if n < 10 then 48 + n else 87 + n)"
  by (simp add: hex_digit_def bv_char_of)

lemma hex_digit_inj: "m < 16 \<Longrightarrow> n < 16 \<Longrightarrow> hex_digit m = hex_digit n \<longleftrightarrow> m = n"
proof
  assume "m < 16" "n < 16" "hex_digit m = hex_digit n"
  then have "(if m < 10 then 48 + m else 87 + m) = (if n < 10 then 48 + n else 87 + n)"
    using bv_hex_digit by metis
  then show "m = n" using \<open>m < 16\<close> \<open>n < 16\<close> by presburger
qed simp

lemma hex_byte_inj:
  fixes b c :: byte
  shows "hex_digit (unat b div 16) = hex_digit (unat c div 16) \<and> hex_digit (unat b mod 16) = hex_digit (unat c mod 16)
    \<longleftrightarrow> b = c"
proof -
  have "unat b < 256" "unat c < 256" using unsigned_less [of b] unsigned_less [of c] by simp_all
  then have "hex_digit (unat b div 16) = hex_digit (unat c div 16) \<and> hex_digit (unat b mod 16) = hex_digit (unat c mod 16)
      \<longleftrightarrow> unat b div 16 = unat c div 16 \<and> unat b mod 16 = unat c mod 16"
    by (simp add: hex_digit_inj less_mult_imp_div_less)
  also have "\<dots> \<longleftrightarrow> unat b = unat c" by (metis div_mult_mod_eq)
  finally show ?thesis by (simp add: word_unat_eq_iff)
qed

lemma hex_inj: "hex_EncodeToString bs = hex_EncodeToString cs \<longleftrightarrow> bs = cs"
proof (induction bs arbitrary: cs)
  case Nil
  then show ?case by (cases cs) (simp_all add: hex_EncodeToString_def)
next
  case (Cons b bs)
  then show ?case by (cases cs) (auto simp: hex_EncodeToString_def hex_byte_inj [symmetric])
qed

definition same_draw :: "(nat \<Rightarrow> byte) \<Rightarrow> (nat \<Rightarrow> byte) \<Rightarrow> bool" where
  "same_draw f g \<longleftrightarrow> map f [0..<12] = map g [0..<12]"

lemma drawn_id_eq [simp]: "drawn_id pre f = drawn_id pre g \<longleftrightarrow> same_draw f g"
  by (simp add: drawn_id_def hex_inj same_draw_def del: upt_rec_numeral)

lemma length_drawn_id [simp]: "length (drawn_id pre f) = length pre + 25"
  by (simp add: drawn_id_def del: upt_rec_numeral)

lemma drawn_id_Cons: "drawn_id (c # pre) f = c # drawn_id pre f"
  by (simp add: drawn_id_def)

lemma drawn_id_not_Nil [simp]: "drawn_id pre f \<noteq> []"
  by (simp add: drawn_id_def)

lemma drawn_id_solid: "solid c \<Longrightarrow> TrimSpace (drawn_id (c # pre) f) \<noteq> []"
  by (simp add: drawn_id_Cons TrimSpace_solid)

lemma length_digits10: "0 < k \<Longrightarrow> n < 10 ^ k \<Longrightarrow> length (digits10 n) \<le> k"
proof (induction n arbitrary: k rule: digits10.induct)
  case (1 n)
  show ?case
  proof (cases "n < 10")
    case True
    then show ?thesis using 1(2) by (simp add: digits10.simps)
  next
    case False
    then obtain j where j: "k = Suc j" "0 < j" using 1(2,3) by (cases k; cases "k - 1") auto
    then have "n div 10 < 10 ^ j" using 1(3) by (simp add: less_mult_imp_div_less mult.commute)
    with 1(1) [OF False j(2)] False j show ?thesis by (subst digits10.simps) simp
  qed
qed

lemma length_format_int64: "length (format_int (sint (x :: int64))) \<le> 20"
proof -
  have "nat (sint x) < 10 ^ 19" "nat (- sint x) < 10 ^ 19" using sint_bounds64 [of x] by auto
  then show ?thesis using length_digits10 [of 19] by (force simp: format_int_def)
qed

section \<open>The inputs are well-formed\<close>

lemma solid_letters [simp]: "solid (CHR ''t'')" "solid (CHR ''p'')" "solid (CHR ''a'')" "solid (CHR ''r'')"
    "solid (CHR ''s'')" "solid (CHR ''h'')" "solid (CHR ''o'')"
  by (simp_all add: solid_def bv_def IsSpace_def)

lemma TrimSpace_not_Nil: "TrimSpace s \<noteq> [] \<Longrightarrow> s \<noteq> []"
  by auto

lemma risk_for_valid:
  assumes "risk_for cfg now cmd tid risk" "\<not> IsZero now" "risk = Some ev"
  shows "ValidateRiskEvent ev tid = None"
  using assms length_format_int64 [of "cfg_RiskThresholdMinor cfg"]
  by (auto simp: risk_for_def ValidateRiskEvent_def drawn_id_solid TrimSpace_solid split: if_splits)

lemma drawn_input_ok:
  assumes "Principal_Valid actor" "transfer_command_error cfg cmd = None" "\<not> IsZero now"
    and "risk_for cfg now cmd (drawn_id ''txn'' tid) risk" "\<not> same_draw p0 p1"
  shows "transfer_input_error (drawn_input actor now cmd currency tid risk p0 p1 aud) = None"
proof -
  have actor: "TrimSpace (principal_ID actor) \<noteq> []" "principal_ID actor \<noteq> []" "length (principal_ID actor) \<le> 128"
    using assms(1) by (auto simp: Principal_Valid_def split: if_splits)
  have risk: "case risk of None \<Rightarrow> True | Some r \<Rightarrow> ValidateRiskEvent r (drawn_id ''txn'' tid) = None"
    using risk_for_valid [OF assms(4,3)] by (simp split: option.split)
  show ?thesis
    using assms actor risk
    by (auto simp: transfer_input_error_def drawn_input_def transfer_input_def new_transfer_def command_intent_def
        transfer_command_error_def ValidateAuditRecord_def drawn_id_solid TrimSpace_solid Let_def
        split: if_splits option.splits)
qed

section \<open>A request with a working random source\<close>

text \<open>The next \<open>n\<close> reads succeed; they give different bytes.\<close>

definition reads_ok :: "nat \<Rightarrow> ('s, 'n) world \<Rightarrow> bool" where
  "reads_ok n w \<longleftrightarrow> (\<forall>k < n. w_rand w (w_drawn w + k) \<noteq> None)"

definition draws_ok :: "nat \<Rightarrow> ('s, 'n) world \<Rightarrow> bool" where
  "draws_ok n w \<longleftrightarrow> reads_ok n w \<and>
     distinct (map (\<lambda>k. map_option (\<lambda>f. map f [0..<12]) (w_rand w (w_drawn w + k))) [0..<n])"

lemma reads_okE:
  assumes "reads_ok n w" "k < n"
  obtains f where "w_rand w (w_drawn w + k) = Some f"
  using assms by (auto simp: reads_ok_def)

lemma draws_ok_distinct:
  assumes "draws_ok n w" "i < n" "j < n" "i \<noteq> j" "w_rand w (w_drawn w + i) = Some f" "w_rand w (w_drawn w + j) = Some g"
  shows "\<not> same_draw f g"
proof
  assume "same_draw f g"
  moreover have "map_option (\<lambda>f. map f [0..<12]) (w_rand w (w_drawn w + i)) \<noteq>
      map_option (\<lambda>f. map f [0..<12]) (w_rand w (w_drawn w + j))"
    using assms(1-4) by (auto simp: draws_ok_def distinct_map inj_on_def)
  ultimately show False using assms(5,6) by (simp add: same_draw_def)
qed

definition drawn_from :: "('s, 'n) world \<Rightarrow> (nat \<Rightarrow> byte) \<Rightarrow> bool" where
  "drawn_from w f \<longleftrightarrow> (\<exists>k < 5. w_rand w (w_drawn w + k) = Some f)"

lemma bind_randomID_ok:
  "w_rand w (w_drawn w) = Some f \<Longrightarrow>
     bind_action (randomID pre) g w = g (drawn_id pre f) (w\<lparr>w_drawn := Suc (w_drawn w)\<rparr>)"
  by (simp add: bind_action_def randomID_def Let_def)

lemma bind_Return: "m w = (Return x, v) \<Longrightarrow> bind_action m f w = f x v"
  by (simp add: bind_action_def)

lemma bind_call:
  "bind_action (call rq k f) g w =
     (case f (rq_ctx rq k) (rq_others rq k (w_store w)) of
        (Inl e, s) \<Rightarrow> (Fail e, w\<lparr>w_store := s\<rparr>) | (Inr x, s) \<Rightarrow> g x (w\<lparr>w_store := s\<rparr>))"
  by (simp add: bind_action_def call_def split: prod.split sum.split)

lemma submit_transfer_ok:
  fixes w :: "('s, 'n) world"
  assumes "reads_ok 5 w"
  obtains tid risk p0 p1 aud u where "only_drawn w u" "risk_for (svc_cfg svc) now cmd (drawn_id ''txn'' tid) risk"
    "draws_ok 5 w \<Longrightarrow> \<not> same_draw p0 p1" "drawn_from w tid" "drawn_from w p0" "drawn_from w p1" "drawn_from w aud"
    "\<And>ev. risk = Some ev \<Longrightarrow> \<exists>f. drawn_from w f \<and> risk_ID ev = drawn_id ''risk'' f"
    "submit_transfer svc rq now actor cmd currency w =
      (case repo_ApplyTransfer (svc_repo svc) (rq_ctx rq 2) (drawn_input actor now cmd currency tid risk p0 p1 aud)
          (rq_others rq 2 (w_store w)) of
         (Inl e, s') \<Rightarrow> (Fail e, u\<lparr>w_store := s'\<rparr>)
       | (Inr res, s') \<Rightarrow> notify (svc_notifier svc) risk res (u\<lparr>w_store := s'\<rparr>))"
proof -
  let ?n = "w_drawn w"
  obtain f1 where f1: "w_rand w (?n + 1) = Some f1" using reads_okE [OF assms, of 1] by auto
  obtain f2 where f2: "w_rand w (?n + 2) = Some f2" by (rule reads_okE [OF assms, of 2]) auto
  obtain f3 where f3: "w_rand w (?n + 3) = Some f3" by (rule reads_okE [OF assms, of 3]) auto
  obtain f4 where f4: "w_rand w (?n + 4) = Some f4" by (rule reads_okE [OF assms, of 4]) auto
  obtain f0 where f0: "w_rand w ?n = Some f0" using reads_okE [OF assms, of 0] by auto
  have ne: "draws_ok 5 w \<Longrightarrow> \<not> same_draw f1 f2" "draws_ok 5 w \<Longrightarrow> \<not> same_draw f2 f3"
    using draws_ok_distinct [of 5 w 1 2] draws_ok_distinct [of 5 w 2 3] f1 f2 f3 by simp_all
  note reads = f0 f1 f2 f3 f4
  have df: "drawn_from w f0" "drawn_from w f1" "drawn_from w f2" "drawn_from w f3" "drawn_from w f4"
    unfolding drawn_from_def using reads
    by (intro exI [of _ 0] exI [of _ 1] exI [of _ 2] exI [of _ 3] exI [of _ 4]; simp)+
  have reads': "w_rand w (Suc ?n) = Some f1" "w_rand w (Suc (Suc ?n)) = Some f2"
    "w_rand w (Suc (Suc (Suc ?n))) = Some f3" "w_rand w (Suc (Suc (Suc (Suc ?n)))) = Some f4"
    using reads by (simp_all add: eval_nat_numeral)
  show ?thesis
  proof (cases "cfg_RiskThresholdMinor (svc_cfg svc) \<le>s tc_AmountMinor cmd")
    case True
    define risk where "risk = \<lparr>risk_ID = drawn_id ''risk'' f1, risk_Type = ''high_value_transfer'', risk_Severity = ''medium'',
      risk_TransferID = drawn_id ''txn'' f0,
      risk_Reason = ''amount_minor >= '' @ format_int (sint (cfg_RiskThresholdMinor (svc_cfg svc))), risk_CreatedAt = now\<rparr>"
    have nr: "bind_action (new_risk (svc_cfg svc) now cmd (drawn_id ''txn'' f0)) g (w\<lparr>w_drawn := Suc ?n\<rparr>) =
        g (Some risk) (w\<lparr>w_drawn := Suc (Suc ?n)\<rparr>)" for g :: "_ \<Rightarrow> (transfer_result, ('s, 'n) world) action"
      using True by (simp add: new_risk_def bind_action_def randomID_def Let_def reads' risk_def)
    have "risk_for (svc_cfg svc) now cmd (drawn_id ''txn'' f0) (Some risk)"
      using True by (auto simp: risk_for_def risk_def simp del: drawn_id_eq)
    moreover have "\<exists>f. drawn_from w f \<and> risk_ID risk = drawn_id ''risk'' f"
      using df(2) by (auto simp: risk_def simp del: drawn_id_eq)
    ultimately show ?thesis
      using ne(2) df by (intro that [of "w\<lparr>w_drawn := Suc (Suc (Suc (Suc (Suc ?n))))\<rparr>" f0 "Some risk" f2 f3 f4])
        (auto simp: submit_transfer_def bind_randomID_ok f0 reads' nr only_drawn_def drawn_input_def bind_call)
  next
    case False
    then have nr: "bind_action (new_risk (svc_cfg svc) now cmd (drawn_id ''txn'' f0)) g (w\<lparr>w_drawn := Suc ?n\<rparr>) =
        g None (w\<lparr>w_drawn := Suc ?n\<rparr>)" for g :: "_ \<Rightarrow> (transfer_result, ('s, 'n) world) action"
      by (simp add: new_risk_def bind_action_def)
    show ?thesis
      by (rule that [of "w\<lparr>w_drawn := Suc (Suc (Suc (Suc ?n)))\<rparr>" f0 None f1 f2 f3])
        (use False ne(1) df in \<open>auto simp: submit_transfer_def bind_randomID_ok f0 reads' nr only_drawn_def risk_for_def
          drawn_input_def bind_call\<close>)
  qed
qed

text \<open>A request whose reads succeed does not panic.\<close>

lemma submit_transfer_no_panic: "reads_ok 5 w \<Longrightarrow> fst (submit_transfer svc rq now actor cmd currency w) \<noteq> Panic"
  by (rule submit_transfer_ok [of w svc now cmd rq actor currency])
    (auto simp: notify_def split: prod.split sum.split option.split)

lemma bind_call_reads:
  assumes "reads_ok n w" "\<And>x v. reads_ok n v \<Longrightarrow> P (g x v)" "\<And>e v. P (Fail e, v)"
  shows "P (bind_action (call rq k f) g w)"
  using assms by (auto simp: bind_call reads_ok_def split: prod.split sum.split)

lemma svc_Transfer_no_panic:
  assumes "reads_ok 5 w"
  shows "fst (svc_Transfer svc rq now actor cmd w) \<noteq> Panic"
proof -
  define P where "P x \<longleftrightarrow> fst x \<noteq> Panic" for x :: "transfer_result outcome \<times> ('a, 'b) world"
  have "P (Fail e, v)" for e v by (simp add: P_def)
  moreover have "P (submit_transfer svc rq now actor c cur v)" if "reads_ok 5 v" for c cur v
    using submit_transfer_no_panic [OF that] by (simp add: P_def)
  ultimately have "P (svc_Transfer svc rq now actor cmd w)"
    unfolding svc_Transfer_def Let_def
    by (intro if_action [where P = P] option_action [where P = P] failI [where P = P] bind_call_reads [where P = P, of 5] assms)
  then show ?thesis by (simp add: P_def)
qed

lemma svc_CreateAccount_no_panic:
  assumes "reads_ok 5 w"
  shows "fst (svc_CreateAccount svc rq now actor cmd w) \<noteq> Panic"
proof -
  let ?n = "w_drawn w"
  obtain f0 where f0: "w_rand w ?n = Some f0" using reads_okE [OF assms, of 0] by auto
  obtain f1 where f1: "w_rand w (Suc ?n) = Some f1" using reads_okE [OF assms, of 1] by auto
  obtain f2 where f2: "w_rand w (Suc (Suc ?n)) = Some f2" using reads_okE [OF assms, of 2] by auto
  obtain f3 where f3: "w_rand w (Suc (Suc (Suc ?n))) = Some f3" using reads_okE [OF assms, of 3] by (auto simp: eval_nat_numeral)
  obtain f4 where f4: "w_rand w (Suc (Suc (Suc (Suc ?n)))) = Some f4" using reads_okE [OF assms, of 4] by (auto simp: eval_nat_numeral)
  have "fst (submit_account svc rq now actor c w) \<noteq> Panic" for c
    by (simp add: submit_account_def bind_randomID_ok f0 f1 f2 f3 f4 bind_call split: prod.split sum.split)
  then show ?thesis
    unfolding svc_CreateAccount_def Let_def
    by (intro action_chain [where P = "\<lambda>x. fst x \<noteq> Panic"]) auto
qed

lemma submitted_input:
  assumes "submitted svc rq now actor cmd currency w (Return res, w')"
  obtains inp where
    "repo_ApplyTransfer (svc_repo svc) (rq_ctx rq 2) inp (rq_others rq 2 (w_store w)) = (Inr res, w_store w')"
    "scope_of (ati_Transfer inp) = (principal_ID actor, tc_IdempotencyKey cmd)"
    "transfer_Intent (ati_Transfer inp) = command_intent cmd"
  using assms
proof (rule submittedE)
  fix tid risk p0 p1 aud u r s'
  assume ap: "repo_ApplyTransfer (svc_repo svc) (rq_ctx rq 2) (drawn_input actor now cmd currency tid risk p0 p1 aud)
      (rq_others rq 2 (w_store w)) = (r, s')"
    and fin: "(Return res, w') = (case r of Inl e \<Rightarrow> (Fail e, u\<lparr>w_store := s'\<rparr>)
      | Inr x \<Rightarrow> notify (svc_notifier svc) risk x (u\<lparr>w_store := s'\<rparr>))"
  then have "r = Inr res \<and> w_store w' = s'"
    by (auto simp: notify_def split: sum.splits option.splits if_splits)
  with ap that show thesis
    by (simp add: drawn_input_def transfer_input_def new_transfer_def scope_of_def)
qed

text \<open>The service up to the submission, for a request whose context stays alive.\<close>

context ledger_service
begin

lemma accts_later:
  "invar s \<Longrightarrow> accts s k = Some a \<Longrightarrow> \<exists>a'. accts (repo_run R hist s) k = Some a' \<and> same_identity a a'"
  using accts_run by blast

lemma Transfer_reaches:
  fixes w :: "('s, 'n) world" and svc :: "('s, 'n) service"
  assumes "svc_repo svc = R" "transfer_cleared (svc_cfg svc) actor (trim_transfer cmd) fa ta" and inv: "invar (w_store w)"
    and "accts (others_work R ops 1 (w_store w)) (tc_FromAccountID (trim_transfer cmd)) = Some fa"
    and "accts (others_work R ops 2 (w_store w)) (tc_ToAccountID (trim_transfer cmd)) = Some ta"
  shows "svc_Transfer svc (served_by R (\<lambda>_. None) ops) now actor cmd w =
    submit_transfer svc (served_by R (\<lambda>_. None) ops) now actor (trim_transfer cmd) (account_Currency fa)
      (w\<lparr>w_store := others_work R ops 2 (w_store w)\<rparr>)"
proof -
  have "call (served_by R (\<lambda>_. None) ops) k (\<lambda>ctx. repo_GetAccount R ctx aid) v =
      (Return a, v\<lparr>w_store := repo_run R (ops k) (w_store v)\<rparr>)"
    if "accts (repo_run R (ops k) (w_store v)) aid = Some a" "\<not> account_System a" "invar (w_store v)" for k aid a and v :: "('s, 'n) world"
    using get_finds [OF invar_run [OF that(3)] that(1,2)] by (simp add: call_def served_by_def)
  then show ?thesis
    using assms by (auto simp: svc_Transfer_def transfer_cleared_def bind_Return invar_run Let_def)
qed

text \<open>
  End-to-end idempotency: after a transfer was committed for a command, the same command of the
  same actor is answered with the stored transfer, however the world has moved on.
\<close>

lemma Transfer_retry:
  fixes w w2 :: "('s, 'n) world" and svc :: "('s, 'n) service"
  assumes inv: "invar (w_store w)" and svc: "svc_repo svc = R"
    and first: "svc_Transfer svc (served_by R cx ops) now actor cmd w = (Return res, w1)" "\<not> result_Replayed res"
    and later: "w_store w2 = repo_run R hist (w_store w1)" "draws_ok 5 w2"
    and again: "trim_transfer cmd2 = trim_transfer cmd"
    and now2: "\<not> IsZero now2"
  shows "\<exists>w3. svc_Transfer svc (served_by R (\<lambda>_. None) ops2) now2 actor cmd2 w2 =
      (Return \<lparr>result_Transfer = stored (result_Transfer res), result_Replayed = True\<rparr>, w3) \<and>
    w_store w3 = others_work R ops2 3 (w_store w2) \<and> w_notifier w3 = w_notifier w2"
  using svc first(1) inv
proof (cases rule: Transfer_cases)
  case (stopped n)
  then show ?thesis by blast
next
  case (submitted fa ta)
  let ?c = "trim_transfer cmd" and ?s = "w_store w2"
  from submitted(4) obtain inp where
    ap: "repo_ApplyTransfer R (cx 2) inp (others_work R ops 3 (w_store w)) = (Inr res, w_store w1)"
    and inp: "scope_of (ati_Transfer inp) = (principal_ID actor, tc_IdempotencyKey ?c)"
      "transfer_Intent (ati_Transfer inp) = command_intent ?c"
    by (rule submitted_input) (auto simp: svc served_by_def)
  have inv3: "invar (others_work R ops 3 (w_store w))" using inv by (rule invar_others)
  have st: "?s = repo_run R (OpTransfer (cx 2) inp # hist) (others_work R ops 3 (w_store w))"
    using later(1) ap by simp
  have inv_s: "invar ?s" unfolding st by (rule invar_run [OF inv3])
  have "others_work R ops2 1 ?s =
      repo_run R (ops 1 @ ops 2 @ OpTransfer (cx 2) inp # hist @ ops2 0) (others_work R ops 1 (w_store w))"
    unfolding st by (simp add: repo_run_append)
  with accts_later [OF invar_others [OF inv] submitted(2)] obtain fa2 where
    fa2: "accts (others_work R ops2 1 ?s) (tc_FromAccountID ?c) = Some fa2" "same_identity fa fa2" by metis
  have "others_work R ops2 2 ?s =
      repo_run R (ops 2 @ OpTransfer (cx 2) inp # hist @ ops2 0 @ ops2 1) (others_work R ops 2 (w_store w))"
    unfolding st by (simp add: repo_run_append)
  with accts_later [OF invar_others [OF inv] submitted(3)] obtain ta2 where
    ta2: "accts (others_work R ops2 2 ?s) (tc_ToAccountID ?c) = Some ta2" "same_identity ta ta2" by metis
  have "transfer_cleared (svc_cfg svc) actor (trim_transfer cmd2) fa2 ta2"
    using submitted(1) same_identity_fields [OF fa2(2)] same_identity_fields [OF ta2(2)]
    by (simp add: again transfer_cleared_def)
  note reach = Transfer_reaches [OF svc this, unfolded again, OF inv_s fa2(1) ta2(1), of now2]
  obtain tid risk p0 p1 aud u where
    u: "only_drawn (w2\<lparr>w_store := others_work R ops2 2 ?s\<rparr>) u" and
    rk: "risk_for (svc_cfg svc) now2 ?c (drawn_id ''txn'' tid) risk" "\<not> same_draw p0 p1" and
    sub: "submit_transfer svc (served_by R (\<lambda>_. None) ops2) now2 actor ?c (account_Currency fa2)
        (w2\<lparr>w_store := others_work R ops2 2 ?s\<rparr>) =
      (case repo_ApplyTransfer R None (drawn_input actor now2 ?c (account_Currency fa2) tid risk p0 p1 aud)
          (others_work R ops2 3 ?s) of
         (Inl e, s') \<Rightarrow> (Fail e, u\<lparr>w_store := s'\<rparr>)
       | (Inr res, s') \<Rightarrow> notify (svc_notifier svc) risk res (u\<lparr>w_store := s'\<rparr>))"
    by (rule submit_transfer_ok [of "w2\<lparr>w_store := others_work R ops2 2 ?s\<rparr>" svc now2 ?c "served_by R (\<lambda>_. None) ops2" actor "account_Currency fa2"])
      (use later(2) in \<open>auto simp: draws_ok_def reads_ok_def svc served_by_def\<close>)
  have cur: "ValidateCurrency (account_Currency fa2) = None"
    by (rule accts_currency [OF invar_others [OF inv_s] fa2(1)])
  define inp2 where "inp2 = drawn_input actor now2 ?c (account_Currency fa2) tid risk p0 p1 aud"
  have inp2: "scope_of (ati_Transfer inp2) = scope_of (ati_Transfer inp)"
      "transfer_Intent (ati_Transfer inp2) = transfer_Intent (ati_Transfer inp)" "input_ok inp2"
    using inp input_accepted [OF _ _ now2 rk(1)] submitted(1) rk(2) cur
    by (simp_all add: transfer_cleared_def inp2_def drawn_input_def transfer_input_def new_transfer_def scope_of_def)
  have "others_work R ops2 3 ?s = repo_run R (hist @ ops2 0 @ ops2 1 @ ops2 2) (w_store w1)"
    by (simp add: later(1) repo_run_append)
  then have "repo_ApplyTransfer R None inp2 (others_work R ops2 3 ?s) =
      (Inr \<lparr>result_Transfer = stored (ati_Transfer inp), result_Replayed = True\<rparr>, others_work R ops2 3 ?s)"
    using replay_after_commit [OF inv3 ap first(2) inp2(3,1)] inp2(2) by simp
  moreover have "result_Transfer res = ati_Transfer inp" using apply_fresh [OF inv3 ap first(2)] by blast
  ultimately show ?thesis
    unfolding reach sub using only_drawn_fields [OF u]
    by (auto simp: inp2_def [symmetric] notify_def split: option.split)
qed

end

end
