(* ===== verification/Dispatcher.thy ===== *)
theory Dispatcher
  imports Domain
begin

text \<open>
  \<^verbatim>\<open>internal/risk/dispatcher.go\<close>: the best-effort notifier of the in-memory deployment, a
  buffered channel with one consumer. The channel is its capacity and the events in it; a send
  inside \<^verbatim>\<open>select\<close> with a \<^verbatim>\<open>default\<close> succeeds when the buffer has room. A hand-over to a
  waiting receiver is a send followed at once by a receive. The log is the list of lines written
  so far; \<^verbatim>\<open>Submit\<close> may be called by any goroutine, so the executions are the sequences of
  \<open>disp_step\<close> in any order.
\<close>

datatype log_line =
    RiskDropped (log_event_id: go_string) (log_transfer_id: go_string)
  | RiskDispatched (log_event_id: go_string) go_string go_string (log_transfer_id: go_string)

record dispatcher =
  disp_capacity :: int
  disp_queue :: "risk_event list"
  disp_log :: "log_line list"

definition NewDispatcher :: "int \<Rightarrow> dispatcher" where
  "NewDispatcher capacity =
     \<lparr>disp_capacity = (if capacity \<le> 0 then 128 else capacity), disp_queue = [], disp_log = []\<rparr>"

definition Submit :: "risk_event \<Rightarrow> dispatcher \<Rightarrow> bool \<times> dispatcher" where
  "Submit event d =
     (if int (length (disp_queue d)) < disp_capacity d
      then (True, d\<lparr>disp_queue := disp_queue d @ [event]\<rparr>)
      else (False, d\<lparr>disp_log := disp_log d @ [RiskDropped (risk_ID event) (risk_TransferID event)]\<rparr>))"

definition dispatched_line :: "risk_event \<Rightarrow> log_line" where
  "dispatched_line event =
     RiskDispatched (risk_ID event) (risk_Type event) (risk_Severity event) (risk_TransferID event)"

text \<open>One turn of the loop of \<^verbatim>\<open>Run\<close> that receives an event (\<open>None\<close> when the channel is empty).\<close>

definition run_receive :: "dispatcher \<Rightarrow> dispatcher option" where
  "run_receive d =
     (case disp_queue d of
        [] \<Rightarrow> None
      | event # rest \<Rightarrow> Some (d\<lparr>disp_queue := rest, disp_log := disp_log d @ [dispatched_line event]\<rparr>))"

text \<open>
  The steps of the system: a submission by some goroutine with its answer, a turn of \<^verbatim>\<open>Run\<close>,
  and the return of \<^verbatim>\<open>Run\<close> once its context is done. When the context is done and an event is
  waiting, \<^verbatim>\<open>select\<close> may take either branch. The flag says whether \<^verbatim>\<open>Run\<close> is running.
\<close>

datatype disp_event = Submitted risk_event bool | Received | CtxDone

inductive disp_step :: "dispatcher \<times> bool \<Rightarrow> disp_event \<Rightarrow> dispatcher \<times> bool \<Rightarrow> bool" where
  submit: "Submit e d = (ok, d') \<Longrightarrow> disp_step (d, running) (Submitted e ok) (d', running)"
| receive: "run_receive d = Some d' \<Longrightarrow> disp_step (d, True) Received (d', True)"
| ctx_done: "disp_step (d, True) CtxDone (d, False)"

inductive_simps disp_step_simps:
  "disp_step (d, running) (Submitted e ok) c"
  "disp_step (d, running) Received c"
  "disp_step (d, running) CtxDone c"

inductive disp_run :: "dispatcher \<times> bool \<Rightarrow> disp_event list \<Rightarrow> dispatcher \<times> bool \<Rightarrow> bool" where
  nil: "disp_run c [] c"
| snoc: "disp_run c evs c' \<Longrightarrow> disp_step c' ev c'' \<Longrightarrow> disp_run c (evs @ [ev]) c''"

fun accepted :: "disp_event list \<Rightarrow> risk_event list" where
  "accepted [] = []"
| "accepted (Submitted e True # evs) = e # accepted evs"
| "accepted (_ # evs) = accepted evs"

fun dropped :: "disp_event list \<Rightarrow> risk_event list" where
  "dropped [] = []"
| "dropped (Submitted e False # evs) = e # dropped evs"
| "dropped (_ # evs) = dropped evs"

definition received :: "disp_event list \<Rightarrow> nat" where
  "received evs = length (filter (\<lambda>ev. ev = Received) evs)"

lemma accepted_append [simp]: "accepted (xs @ ys) = accepted xs @ accepted ys"
  by (induction xs rule: accepted.induct) simp_all

lemma dropped_append [simp]: "dropped (xs @ ys) = dropped xs @ dropped ys"
  by (induction xs rule: dropped.induct) simp_all

lemma received_simps [simp]:
  "received [] = 0" "received (xs @ ys) = received xs + received ys"
  "received (ev # evs) = (if ev = Received then Suc (received evs) else received evs)"
  by (simp_all add: received_def)

definition is_dispatched :: "log_line \<Rightarrow> bool" where
  "is_dispatched l \<longleftrightarrow> (\<exists>a b c d. l = RiskDispatched a b c d)"

text \<open>
  The invariant of an execution: the accepted events are those already received, in order,
  followed by the channel; the log has one line for every event received and every event dropped.
\<close>

definition disp_inv :: "int \<Rightarrow> disp_event list \<Rightarrow> dispatcher \<Rightarrow> bool" where
  "disp_inv cap evs d \<longleftrightarrow>
     disp_capacity d = cap \<and> int (length (disp_queue d)) \<le> cap \<and>
     received evs \<le> length (accepted evs) \<and>
     disp_queue d = drop (received evs) (accepted evs) \<and>
     filter is_dispatched (disp_log d) = map dispatched_line (take (received evs) (accepted evs)) \<and>
     filter (\<lambda>l. \<not> is_dispatched l) (disp_log d) =
       map (\<lambda>e. RiskDropped (risk_ID e) (risk_TransferID e)) (dropped evs)"

lemma is_dispatched_simps [simp]:
  "is_dispatched (dispatched_line e)" "\<not> is_dispatched (RiskDropped a b)"
  by (simp_all add: is_dispatched_def dispatched_line_def)

lemma disp_inv_submit:
  assumes "disp_inv cap evs d" "Submit e d = (ok, d')"
  shows "disp_inv cap (evs @ [Submitted e ok]) d'"
  using assms by (cases ok) (auto simp: disp_inv_def Submit_def split: if_splits)

lemma disp_inv_receive:
  assumes "disp_inv cap evs d" "run_receive d = Some d'"
  shows "disp_inv cap (evs @ [Received]) d'"
proof -
  let ?n = "received evs" and ?a = "accepted evs"
  from assms(2) obtain e rest where q: "disp_queue d = e # rest"
    and d': "d' = d\<lparr>disp_queue := rest, disp_log := disp_log d @ [dispatched_line e]\<rparr>"
    by (auto simp: run_receive_def split: list.splits)
  have dr: "drop ?n ?a = e # rest" using assms(1) q by (simp add: disp_inv_def)
  then have len: "?n < length ?a" by (metis drop_all leI list.distinct(1))
  moreover have "?a ! ?n = e" "drop (Suc ?n) ?a = rest"
    using dr len Cons_nth_drop_Suc [OF len] by simp_all
  ultimately show ?thesis
    using assms(1) q unfolding d' disp_inv_def by (simp add: take_Suc_conv_app_nth)
qed

lemma disp_inv_done: "disp_inv cap evs d \<Longrightarrow> disp_inv cap (evs @ [CtxDone]) d"
  by (auto simp: disp_inv_def of_nat_diff)

lemma disp_run_inv:
  "disp_run c evs c' \<Longrightarrow> c = (NewDispatcher n, r) \<Longrightarrow> disp_inv (if n \<le> 0 then 128 else n) evs (fst c')"
proof (induction rule: disp_run.induct)
  case (nil c)
  then show ?case by (simp add: disp_inv_def NewDispatcher_def)
next
  case (snoc c evs c' ev c'')
  then have "disp_inv (if n \<le> 0 then 128 else n) evs (fst c')" by blast
  with \<open>disp_step c' ev c''\<close> show ?case
    by cases (use disp_inv_submit disp_inv_receive disp_inv_done in auto)
qed

text \<open>While \<^verbatim>\<open>Run\<close> is running it can always empty the channel.\<close>

lemma disp_drain:
  assumes "disp_run c evs (d, True)"
  shows "\<exists>d'. disp_run c (evs @ replicate (length (disp_queue d)) Received) (d', True) \<and> disp_queue d' = []"
  using assms
proof (induction "disp_queue d" arbitrary: d evs)
  case Nil
  then show ?case by fastforce
next
  case (Cons e rest)
  let ?d = "d\<lparr>disp_queue := rest, disp_log := disp_log d @ [dispatched_line e]\<rparr>"
  have "run_receive d = Some ?d" using Cons.hyps(2) by (simp add: run_receive_def flip: Cons.hyps(2))
  then have "disp_run c (evs @ [Received]) (?d, True)"
    using Cons.prems by (blast intro: disp_run.snoc disp_step.receive)
  from Cons.hyps(1) [OF _ this] show ?case using Cons.hyps(2) [symmetric] by simp
qed

section \<open>Properties\<close>

text \<open>An execution with a channel of one place: the second event is dropped, the first dispatched.\<close>

definition demo_event :: risk_event where
  "demo_event = \<lparr>risk_ID = ''risk_1'', risk_Type = ''high_value_transfer'', risk_Severity = ''medium'',
     risk_TransferID = ''txn_1'', risk_Reason = ''amount_minor >= 1000000'', risk_CreatedAt = 1\<rparr>"

definition demo_disp :: "log_line list \<Rightarrow> risk_event list \<Rightarrow> dispatcher" where
  "demo_disp l q = \<lparr>disp_capacity = 1, disp_queue = q, disp_log = l\<rparr>"

lemma demo_disp_run:
  "disp_run (NewDispatcher 1, True) [Submitted demo_event True, Submitted demo_event False, Received]
     (demo_disp [RiskDropped ''risk_1'' ''txn_1'', dispatched_line demo_event] [], True)"
proof -
  have "disp_run (NewDispatcher 1, True) ([] @ [Submitted demo_event True]) (demo_disp [] [demo_event], True)"
    by (rule disp_run.snoc [OF disp_run.nil]) (simp add: disp_step_simps Submit_def NewDispatcher_def demo_disp_def)
  then have "disp_run (NewDispatcher 1, True) (([] @ [Submitted demo_event True]) @ [Submitted demo_event False])
      (demo_disp [RiskDropped ''risk_1'' ''txn_1''] [demo_event], True)"
    by (rule disp_run.snoc) (simp add: disp_step_simps Submit_def demo_disp_def demo_event_def)
  then have "disp_run (NewDispatcher 1, True)
      ((([] @ [Submitted demo_event True]) @ [Submitted demo_event False]) @ [Received])
      (demo_disp [RiskDropped ''risk_1'' ''txn_1'', dispatched_line demo_event] [], True)"
    by (rule disp_run.snoc) (simp add: disp_step_simps run_receive_def demo_disp_def)
  then show ?thesis by simp
qed

text \<open>C22. Along any execution of the dispatcher, with submissions from any number of goroutines and
  \<^verbatim>\<open>Run\<close> stopping at any moment, the accepted events are logged as dispatched in the order of
  their acceptance, each at most once and none lost: the accepted events are those already
  received followed by those in the channel; every rejected event has its warning in the log; and the
  channel never holds more than the capacity, 128 when the given one is not positive.\<close>

theorem dispatcher_fifo:
  assumes "disp_run (NewDispatcher n, True) evs (d, running)"
  shows "filter is_dispatched (disp_log d) @ map dispatched_line (disp_queue d) = map dispatched_line (accepted evs) \<and>
    filter (\<lambda>l. \<not> is_dispatched l) (disp_log d) =
      map (\<lambda>e. RiskDropped (risk_ID e) (risk_TransferID e)) (dropped evs) \<and>
    int (length (disp_queue d)) \<le> (if n \<le> 0 then 128 else n)"
  using disp_run_inv [OF assms refl] unfolding disp_inv_def fst_conv by (metis append_take_drop_id map_append)

theorem dispatcher_fifo_witness:
  "let log = [RiskDropped ''risk_1'' ''txn_1'', dispatched_line demo_event] in
   disp_run (NewDispatcher 1, True) [Submitted demo_event True, Submitted demo_event False, Received]
     (demo_disp log [], True) \<and>
   filter is_dispatched log = map dispatched_line (accepted [Submitted demo_event True, Submitted demo_event False, Received])"
  using dispatcher_fifo [OF demo_disp_run] demo_disp_run by (simp add: demo_disp_def Let_def)

text \<open>\<^verbatim>\<open>Submit\<close> never blocks and tells the truth: in any execution it answers \<^verbatim>\<open>true\<close> exactly
  when the channel has room, and then the event is in the channel; while \<^verbatim>\<open>Run\<close> is running every
  event in the channel can be dispatched by turns of \<^verbatim>\<open>Run\<close> alone.\<close>

theorem dispatcher_submit_drain:
  assumes "disp_run (NewDispatcher n, True) evs (d, True)"
  shows "\<exists>ok d1 d2. Submit e d = (ok, d1) \<and>
    ok = (int (length (disp_queue d)) < (if n \<le> 0 then 128 else n)) \<and>
    disp_queue d1 = (if ok then disp_queue d @ [e] else disp_queue d) \<and>
    disp_run (NewDispatcher n, True) (evs @ Submitted e ok # replicate (length (disp_queue d1)) Received) (d2, True) \<and>
    filter is_dispatched (disp_log d2) = map dispatched_line (accepted evs @ (if ok then [e] else []))"
proof -
  obtain ok d1 where s: "Submit e d = (ok, d1)" by fastforce
  have cap: "disp_capacity d = (if n \<le> 0 then 128 else n)"
    using disp_run_inv [OF assms refl] by (simp add: disp_inv_def)
  have r1: "disp_run (NewDispatcher n, True) (evs @ [Submitted e ok]) (d1, True)"
    using assms s by (blast intro: disp_run.snoc disp_step.submit)
  from disp_drain [OF r1] obtain d2 where
    r2: "disp_run (NewDispatcher n, True) (evs @ Submitted e ok # replicate (length (disp_queue d1)) Received) (d2, True)"
    and "disp_queue d2 = []"
    by auto
  with disp_run_inv [OF r2 refl] have "filter is_dispatched (disp_log d2) =
      map dispatched_line (accepted (evs @ Submitted e ok # replicate (length (disp_queue d1)) Received))"
    by (simp add: disp_inv_def)
  moreover have "accepted (replicate k Received) = []" for k by (induction k) simp_all
  ultimately have "filter is_dispatched (disp_log d2) = map dispatched_line (accepted evs @ (if ok then [e] else []))"
    by (cases ok) simp_all
  with s r2 cap show ?thesis
    by (intro exI [of _ ok] exI [of _ d1] exI [of _ d2]) (auto simp: Submit_def split: if_splits)
qed

theorem dispatcher_submit_drain_witness:
  "\<exists>ok d1. Submit demo_event (demo_disp [RiskDropped ''risk_1'' ''txn_1'', dispatched_line demo_event] []) = (ok, d1) \<and>
     ok \<and> disp_queue d1 = [demo_event]"
  using dispatcher_submit_drain [OF demo_disp_run, of demo_event] by (auto simp: demo_disp_def)

end
