(* ===== verification/Service_Properties.thy ===== *)
theory Service_Properties
  imports Service_Inputs Memory_Scenario Dispatcher
begin

text \<open>
  Properties of the application service over the in-memory adapter, with other requests served
  between the calls that a request makes.
\<close>

interpretation memsvc: ledger_service mem_repository mem_inv mem_accounts mem_bound id mem_input_ok
  by unfold_locales (simp add: mem_input_ok_def drawn_input_ok)

section \<open>Requests that succeed\<close>

text \<open>The identifiers that the next five reads give are not in use.\<close>

definition fresh_draws :: "(mem_store, 'n) world \<Rightarrow> bool" where
  "fresh_draws w \<longleftrightarrow>
     (\<forall>f. drawn_from w f \<longrightarrow>
        drawn_id ''txn'' f \<notin> mem_transactions (w_store w) \<and> drawn_id ''open'' f \<notin> mem_transactions (w_store w) \<and>
        drawn_id ''post'' f \<notin> mem_postings (w_store w) \<and> drawn_id ''audit'' f \<notin> mem_audits (w_store w) \<and>
        drawn_id ''risk'' f \<notin> mem_risks (w_store w) \<and> mem_accounts (w_store w) (drawn_id ''acct'' f) = None)"

lemma command_amount:
  "transfer_command_error cfg c = None \<Longrightarrow>
     0 < sint (tc_AmountMinor c) \<and> sint (tc_AmountMinor c) \<le> sint (cfg_MaxTransferMinor cfg) \<and>
     tc_FromAccountID c \<noteq> [] \<and> tc_ToAccountID c \<noteq> []"
  by (auto simp: transfer_command_error_def int64_simps not_less not_le split: if_splits)

lemma trim_transfer_ids:
  "TrimSpace (tc_FromAccountID (trim_transfer cmd)) = tc_FromAccountID (trim_transfer cmd)"
  "TrimSpace (tc_ToAccountID (trim_transfer cmd)) = tc_ToAccountID (trim_transfer cmd)"
  by (simp_all add: trim_transfer_def)

lemma drawn_transfer_ready:
  fixes w :: "(mem_store, 'n) world"
  assumes inv: "mem_inv (w_store w)"
    and ok: "transfer_input_error inp = None" and inp: "inp = drawn_input actor now c (account_Currency fa) tid risk p0 p1 aud"
    and cl: "transfer_cleared cfg actor c fa ta" "TrimSpace (tc_FromAccountID c) = tc_FromAccountID c"
      "TrimSpace (tc_ToAccountID c) = tc_ToAccountID c" "tc_FromAccountID c \<noteq> tc_ToAccountID c"
    and acc: "mem_accounts (w_store w) (tc_FromAccountID c) = Some fa" "mem_accounts (w_store w) (tc_ToAccountID c) = Some ta"
    and unb: "mem_bound (w_store w) (principal_ID actor, tc_IdempotencyKey c) = None"
    and funds: "sint (tc_AmountMinor c) \<le> sint (account_BalanceMinor fa)"
      "sint (account_BalanceMinor ta) + sint (tc_AmountMinor c) < 2 ^ 63"
    and dr: "drawn_from w tid" "drawn_from w p0" "drawn_from w p1" "drawn_from w aud" "fresh_draws w"
      "\<And>ev. risk = Some ev \<Longrightarrow> \<exists>f. drawn_from w f \<and> risk_ID ev = drawn_id ''risk'' f"
  shows "transfer_ready inp fa ta (w_store w)"
proof -
  let ?s = "w_store w"
  note wf = mem_inv_account_wf [OF inv acc(1)] mem_inv_account_wf [OF inv acc(2)]
  have amt: "0 < sint (tc_AmountMinor c)" "tc_FromAccountID c \<noteq> []" "tc_ToAccountID c \<noteq> []"
    using cl(1) command_amount by (auto simp: transfer_cleared_def)
  have bal: "ValidateBalanced (transfer_postings inp fa ta (mem_sequence ?s)) = None"
    using wf amt cl
    by (auto simp: inp transfer_postings_def drawn_input_def transfer_input_def new_transfer_def command_intent_def
        ValidateBalanced_pair posting_ok_def drawn_id_solid account_wf_def transfer_cleared_def sint_neg64 Let_def)
  have scope: "mem_idempotency ?s (transfer_scope (ati_Transfer inp)) = None"
    using unb by (simp add: inp mem_bound_def transfer_scope_def drawn_input_def transfer_input_def new_transfer_def)
  have fresh: "\<forall>r \<in> set_option risk. risk_ID r \<notin> mem_risks ?s" using dr(5,6) by (force simp: fresh_draws_def)
  show ?thesis
    unfolding transfer_ready_def Let_def
    using ok bal scope fresh dr(1-5) acc cl amt funds wf
    by (simp add: inp drawn_input_def transfer_input_def new_transfer_def command_intent_def fresh_draws_def
        account_wf_def transfer_cleared_def)
qed

lemma transfer_commits:
  fixes w :: "(mem_store, 'n) world"
  assumes "mem_reachable (w_store w)" "svc_repo svc = mem_repository"
    and "transfer_cleared (svc_cfg svc) actor (trim_transfer cmd) fa ta"
    and "mem_accounts (w_store w) (tc_FromAccountID (trim_transfer cmd)) = Some fa"
      "mem_accounts (w_store w) (tc_ToAccountID (trim_transfer cmd)) = Some ta"
      "tc_FromAccountID (trim_transfer cmd) \<noteq> tc_ToAccountID (trim_transfer cmd)"
    and "mem_bound (w_store w) (principal_ID actor, tc_IdempotencyKey (trim_transfer cmd)) = None"
    and "sint (tc_AmountMinor cmd) \<le> sint (account_BalanceMinor fa)"
      "sint (account_BalanceMinor ta) + sint (tc_AmountMinor cmd) < 2 ^ 63"
    and "draws_ok 5 w" "fresh_draws w" "\<not> IsZero now"
  shows "\<exists>t w'. svc_Transfer svc (served_by mem_repository (\<lambda>_. None) (\<lambda>_. [])) now actor cmd w =
      (Return \<lparr>result_Transfer = t, result_Replayed = False\<rparr>, w') \<and>
    transfer_Intent t = command_intent (trim_transfer cmd) \<and>
    scope_of t = (principal_ID actor, tc_IdempotencyKey (trim_transfer cmd))"
proof -
  let ?c = "trim_transfer cmd" and ?rq = "served_by mem_repository (\<lambda>_. None) (\<lambda>_. [])"
  have reach: "svc_Transfer svc ?rq now actor cmd w = submit_transfer svc ?rq now actor ?c (account_Currency fa) w"
    using memsvc.Transfer_reaches [OF assms(2,3) mem_reachable_inv [OF assms(1)], of "\<lambda>_. []" now] assms(4,5) by simp
  obtain tid risk p0 p1 aud u where
    f: "risk_for (svc_cfg svc) now ?c (drawn_id ''txn'' tid) risk" "\<not> same_draw p0 p1"
      "drawn_from w tid" "drawn_from w p0" "drawn_from w p1" "drawn_from w aud"
      "\<And>ev. risk = Some ev \<Longrightarrow> \<exists>f. drawn_from w f \<and> risk_ID ev = drawn_id ''risk'' f" and
    sub: "submit_transfer svc ?rq now actor ?c (account_Currency fa) w =
      (case mem_ApplyTransfer None (drawn_input actor now ?c (account_Currency fa) tid risk p0 p1 aud) (w_store w) of
         (Inl e, s') \<Rightarrow> (Fail e, u\<lparr>w_store := s'\<rparr>)
       | (Inr res, s') \<Rightarrow> notify (svc_notifier svc) risk res (u\<lparr>w_store := s'\<rparr>))"
    by (rule submit_transfer_ok [of w svc now ?c ?rq actor "account_Currency fa"])
      (use assms(10) in \<open>auto simp: assms(2) served_by_def draws_ok_def\<close>)
  define inp where "inp = drawn_input actor now ?c (account_Currency fa) tid risk p0 p1 aud"
  have "transfer_input_error inp = None"
    unfolding inp_def using assms(3,12) f(1,2) by (intro drawn_input_ok) (auto simp: transfer_cleared_def)
  then have "transfer_ready inp fa ta (w_store w)"
    using assms(3-9,11) f(3-7) mem_reachable_inv [OF assms(1)]
    by (intro drawn_transfer_ready [where w = w, OF _ _ inp_def]) (auto simp: trim_transfer_def)
  from mem_ApplyTransfer_commitI [OF this] show ?thesis
    unfolding reach sub inp_def [symmetric]
    by (auto simp: notify_def inp_def drawn_input_def transfer_input_def new_transfer_def scope_of_def split: option.split)
qed

section \<open>A service in use\<close>

text \<open>Alice, a customer, sends 250 from her account with the risk threshold at 200.\<close>

definition alice :: principal where
  "alice = \<lparr>principal_ID = ''alice'', principal_Role = ''customer''\<rparr>"

definition demo_svc :: "(mem_store, dispatcher) service" where
  "demo_svc = svc_New mem_repository (Some Submit) \<lparr>cfg_MaxTransferMinor = 0, cfg_RiskThresholdMinor = 200\<rparr>"

definition demo_world :: "(mem_store, dispatcher) world" where
  "demo_world = \<lparr>w_store = demo1, w_notifier = NewDispatcher 4, w_rand = (\<lambda>k. Some (\<lambda>_. of_nat k)), w_drawn = 0\<rparr>"

definition demo_cmd :: transfer_command where
  "demo_cmd = \<lparr>tc_IdempotencyKey = ''key-12345678'', tc_FromAccountID = ''a'', tc_ToAccountID = ''b'',
     tc_AmountMinor = 250, tc_Description = ''''\<rparr>"

lemma demo_cmd_trim [simp]: "trim_transfer demo_cmd = demo_cmd"
  by (simp add: trim_transfer_def demo_cmd_def TrimSpace_solid_ends solid_def bv_def IsSpace_def)

lemma demo_svc_sel [simp]:
  "svc_repo demo_svc = mem_repository" "svc_notifier demo_svc = Some Submit"
  "svc_cfg demo_svc = \<lparr>cfg_MaxTransferMinor = 100000000, cfg_RiskThresholdMinor = 200\<rparr>"
  by (simp_all add: demo_svc_def svc_New_def word_sle_eq)

lemma demo_sel [simp]:
  "tc_IdempotencyKey demo_cmd = ''key-12345678''" "tc_FromAccountID demo_cmd = ''a''" "tc_ToAccountID demo_cmd = ''b''"
  "tc_AmountMinor demo_cmd = 250" "principal_ID alice = ''alice''" "principal_Role alice = RoleCustomer"
  "w_store demo_world = demo1" "w_notifier demo_world = NewDispatcher 4"
  "account_BalanceMinor demo_a = 1000" "account_BalanceMinor demo_b = 0"
  by (simp_all add: demo_cmd_def alice_def demo_world_def demo_a_def demo_b_def demo_account_def RoleCustomer_def)

lemma demo_cleared: "transfer_cleared (svc_cfg demo_svc) alice demo_cmd demo_a demo_b"
  by (simp add: transfer_cleared_def transfer_command_error_def Principal_Valid_def alice_def demo_cmd_def demo_a_def
      demo_b_def demo_account_def role_defs not_blank string_evals int64_simps)

lemma demo_accounts: "mem_accounts demo1 ''a'' = Some demo_a" "mem_accounts demo1 ''b'' = Some demo_b"
  by (simp_all add: demo_state_evals systemAccountID_def)

lemma demo_draws: "draws_ok 5 demo_world"
  by (simp add: draws_ok_def reads_ok_def demo_world_def upt_rec)

lemma demo_fresh: "fresh_draws demo_world"
  by (auto simp: fresh_draws_def demo_world_def demo_state_evals drawn_id_def systemAccountID_def)

lemma demo_first:
  obtains t w' where
    "svc_Transfer demo_svc (served_by mem_repository (\<lambda>_. None) (\<lambda>_. [])) 5 alice demo_cmd demo_world =
      (Return \<lparr>result_Transfer = t, result_Replayed = False\<rparr>, w')"
proof -
  have "mem_bound demo1 (''alice'', ''key-12345678'') = None"
    by (simp add: mem_bound_def demo_state_evals)
  then show ?thesis
    using transfer_commits [of demo_world demo_svc alice demo_cmd demo_a demo_b 5] demo_cleared demo_accounts
      demo_draws demo_fresh demo_reachable(2) that
    by (force simp: scope_of_def IsZero_def)
qed

section \<open>Properties\<close>

text \<open>C18. A transfer request with valid data whose source account the actor may debit, with enough
  funds, room in the destination, an unused key and a working random source is committed, and the
  result carries the intent and the scope of the request.\<close>

theorem svc_transfer_succeeds:
  fixes w :: "(mem_store, 'n) world"
  assumes "mem_reachable (w_store w)" "svc_repo svc = mem_repository"
    and "transfer_cleared (svc_cfg svc) actor (trim_transfer cmd) fa ta"
    and "mem_accounts (w_store w) (tc_FromAccountID (trim_transfer cmd)) = Some fa"
      "mem_accounts (w_store w) (tc_ToAccountID (trim_transfer cmd)) = Some ta"
      "tc_FromAccountID (trim_transfer cmd) \<noteq> tc_ToAccountID (trim_transfer cmd)"
    and "mem_bound (w_store w) (principal_ID actor, tc_IdempotencyKey (trim_transfer cmd)) = None"
    and "sint (tc_AmountMinor cmd) \<le> sint (account_BalanceMinor fa)"
      "sint (account_BalanceMinor ta) + sint (tc_AmountMinor cmd) < 2 ^ 63"
    and "draws_ok 5 w" "fresh_draws w" "\<not> IsZero now"
  shows "\<exists>t w'. svc_Transfer svc (served_by mem_repository (\<lambda>_. None) (\<lambda>_. [])) now actor cmd w =
      (Return \<lparr>result_Transfer = t, result_Replayed = False\<rparr>, w') \<and>
    transfer_Intent t = command_intent (trim_transfer cmd) \<and>
    scope_of t = (principal_ID actor, tc_IdempotencyKey (trim_transfer cmd))"
  by (rule transfer_commits [OF assms])

theorem svc_transfer_succeeds_witness:
  "\<exists>t w'. svc_Transfer demo_svc (served_by mem_repository (\<lambda>_. None) (\<lambda>_. [])) 5 alice demo_cmd demo_world =
     (Return \<lparr>result_Transfer = t, result_Replayed = False\<rparr>, w') \<and> transfer_ActorID t = ''alice''"
proof -
  have "mem_bound demo1 (''alice'', ''key-12345678'') = None"
    by (simp add: mem_bound_def demo_state_evals)
  then show ?thesis
    using svc_transfer_succeeds [of demo_world demo_svc alice demo_cmd demo_a demo_b 5] demo_cleared demo_accounts
      demo_draws demo_fresh demo_reachable(2)
    by (force simp: scope_of_def IsZero_def)
qed

text \<open>Authorisation and effect of a transfer request, under any interleaving with other requests
  and any cancellation: either it leaves the ledger as the other requests make it, and a value it
  returns is the earlier transfer of the same actor, key and intent; or it commits, and then the
  actor is a valid principal and no auditor, a customer owns the debited account at that moment,
  the amount is positive and within the limit, and exactly the source and the destination change
  by the amount.\<close>

theorem svc_transfer_effect:
  fixes w :: "(mem_store, 'n) world"
  assumes "mem_reachable (w_store w)" "svc_repo svc = mem_repository"
    and "svc_Transfer svc (served_by mem_repository cx ops) now actor cmd w = (out, w')"
  shows "request_idle mem_repository ops actor (trim_transfer cmd) w out w' \<or>
    request_moves mem_repository mem_accounts ops (svc_cfg svc) actor (trim_transfer cmd) w out w'"
  by (rule memsvc.Transfer_effect [OF mem_reachable_inv [OF assms(1)] assms(2,3)])

theorem svc_transfer_effect_witness:
  "\<exists>out w'. svc_Transfer demo_svc (served_by mem_repository (\<lambda>_. None) (\<lambda>_. [])) 5 alice demo_cmd demo_world = (out, w') \<and>
     (request_idle mem_repository (\<lambda>_. []) alice demo_cmd demo_world out w' \<or>
      request_moves mem_repository mem_accounts (\<lambda>_. []) (svc_cfg demo_svc) alice demo_cmd demo_world out w')"
  using svc_transfer_effect [of demo_world demo_svc "\<lambda>_. None" "\<lambda>_. []" 5 alice demo_cmd] demo_reachable(2)
  by (cases "svc_Transfer demo_svc (served_by mem_repository (\<lambda>_. None) (\<lambda>_. [])) 5 alice demo_cmd demo_world")
    (simp del: demo_svc_sel(3))

text \<open>C17. End-to-end idempotency: after a request has committed a transfer, the same command of the
  same actor, sent again after any further history and interleaved with any other requests, is
  answered with the same transfer as a replay; it leaves the ledger to the other requests and
  does not notify again.\<close>

theorem svc_retry_replays:
  fixes w w2 :: "(mem_store, 'n) world"
  assumes "mem_reachable (w_store w)" "svc_repo svc = mem_repository"
    and "svc_Transfer svc (served_by mem_repository cx ops) now actor cmd w = (Return res, w1)" "\<not> result_Replayed res"
    and "w_store w2 = repo_run mem_repository hist (w_store w1)" "draws_ok 5 w2"
    and "trim_transfer cmd2 = trim_transfer cmd" "\<not> IsZero now2"
  shows "\<exists>w3. svc_Transfer svc (served_by mem_repository (\<lambda>_. None) ops2) now2 actor cmd2 w2 =
      (Return (res\<lparr>result_Replayed := True\<rparr>), w3) \<and>
    w_store w3 = others_work mem_repository ops2 3 (w_store w2) \<and> w_notifier w3 = w_notifier w2"
  using memsvc.Transfer_retry [OF mem_reachable_inv [OF assms(1)] assms(2-8), of ops2] by (cases res) simp

theorem svc_retry_replays_witness:
  "\<exists>res w1 w3. svc_Transfer demo_svc (served_by mem_repository (\<lambda>_. None) (\<lambda>_. [])) 5 alice demo_cmd demo_world =
       (Return res, w1) \<and> \<not> result_Replayed res \<and>
     svc_Transfer demo_svc (served_by mem_repository (\<lambda>_. None) (\<lambda>_. [])) 6 alice demo_cmd
       (demo_world\<lparr>w_store := w_store w1\<rparr>) = (Return (res\<lparr>result_Replayed := True\<rparr>), w3)"
proof -
  obtain t w1 where first: "svc_Transfer demo_svc (served_by mem_repository (\<lambda>_. None) (\<lambda>_. [])) 5 alice demo_cmd demo_world =
      (Return \<lparr>result_Transfer = t, result_Replayed = False\<rparr>, w1)" by (rule demo_first)
  have "draws_ok 5 (demo_world\<lparr>w_store := w_store w1\<rparr>)"
    using demo_draws by (simp add: draws_ok_def reads_ok_def)
  from svc_retry_replays [OF _ _ first _ _ this, of "[]" demo_cmd 6 "\<lambda>_. []"] first show ?thesis
    using demo_reachable(2) by (fastforce simp: IsZero_def)
qed

text \<open>C19. Risk: a committed transfer of at least the threshold stores exactly one risk event, which
  names the transfer, and hands that event to the notifier once, if there is one; a smaller
  transfer does neither.\<close>

theorem svc_risk_recorded:
  fixes w :: "(mem_store, 'n) world"
  assumes "mem_reachable (w_store w)" "svc_repo svc = mem_repository"
    and "svc_Transfer svc (served_by mem_repository cx ops) now actor cmd w = (Return res, w')" "\<not> result_Replayed res"
  shows "let s = others_work mem_repository ops 3 (w_store w) in
    if sint (cfg_RiskThresholdMinor (svc_cfg svc)) \<le> sint (tc_AmountMinor cmd)
    then \<exists>ev. mem_risk (w_store w') = mem_risk s @ [ev] \<and> risk_TransferID ev = transfer_ID (result_Transfer res) \<and>
      risk_Severity ev = ''medium'' \<and>
      w_notifier w' = (case svc_notifier svc of None \<Rightarrow> w_notifier w | Some submit \<Rightarrow> snd (submit ev (w_notifier w)))
    else mem_risk (w_store w') = mem_risk s \<and> w_notifier w' = w_notifier w"
  using assms(2,3) mem_reachable_inv [OF assms(1)]
proof (cases rule: memsvc.Transfer_cases)
  case (stopped n)
  then show ?thesis by blast
next
  case (submitted fa ta)
  from submitted(4) show ?thesis
  proof (rule submittedE)
    fix tid risk p0 p1 aud u r s'
    assume u: "only_drawn (w\<lparr>w_store := others_work mem_repository ops 2 (w_store w)\<rparr>) u"
      and rf: "risk_for (svc_cfg svc) now (trim_transfer cmd) (drawn_id ''txn'' tid) risk"
      and ap: "repo_ApplyTransfer (svc_repo svc) (rq_ctx (served_by mem_repository cx ops) 2)
        (drawn_input actor now (trim_transfer cmd) (account_Currency fa) tid risk p0 p1 aud)
        (rq_others (served_by mem_repository cx ops) 2 (w_store (w\<lparr>w_store := others_work mem_repository ops 2 (w_store w)\<rparr>))) = (r, s')"
      and fin: "(Return res, w') = (case r of Inl e \<Rightarrow> (Fail e, u\<lparr>w_store := s'\<rparr>)
        | Inr x \<Rightarrow> notify (svc_notifier svc) risk x (u\<lparr>w_store := s'\<rparr>))"
    have r: "r = Inr res" using fin by (auto simp: notify_def split: sum.splits option.splits if_splits)
    have "result_Transfer res = new_transfer actor now (trim_transfer cmd) (account_Currency fa) (drawn_id ''txn'' tid) \<and>
        mem_risk s' = mem_risk (others_work mem_repository ops 3 (w_store w)) @ (case risk of None \<Rightarrow> [] | Some ev \<Rightarrow> [ev])"
      using ap [unfolded r assms(2), simplified] assms(4)
      by (elim mem_ApplyTransfer_cases)
        (auto simp: served_by_def drawn_input_def transfer_input_def transfer_commit_def Let_def split: option.split)
    with fin rf r only_drawn_fields [OF u] assms(4) show ?thesis
      by (auto simp: risk_for_def new_transfer_def notify_def trim_transfer_def int64_simps Let_def split: if_splits option.splits)
  qed
qed

theorem svc_risk_recorded_witness:
  "\<exists>res w' ev. svc_Transfer demo_svc (served_by mem_repository (\<lambda>_. None) (\<lambda>_. [])) 5 alice demo_cmd demo_world =
       (Return res, w') \<and> mem_risk (w_store w') = [ev] \<and> risk_TransferID ev = transfer_ID (result_Transfer res) \<and>
     disp_queue (w_notifier w') = [ev]"
proof -
  obtain t w1 where first: "svc_Transfer demo_svc (served_by mem_repository (\<lambda>_. None) (\<lambda>_. [])) 5 alice demo_cmd demo_world =
      (Return \<lparr>result_Transfer = t, result_Replayed = False\<rparr>, w1)" by (rule demo_first)
  have "mem_risk demo1 = []" by (simp add: demo_state_evals)
  with svc_risk_recorded [OF _ _ first] first show ?thesis
    using demo_reachable(2) by (fastforce simp: Let_def Submit_def NewDispatcher_def)
qed



text \<open>A request panics only when the random source fails, and then it has changed nothing: no
  account is opened, no transfer committed and nothing notified.\<close>

theorem svc_panic_safe:
  fixes w :: "(mem_store, 'n) world"
  assumes "mem_reachable (w_store w)" "svc_repo svc = mem_repository"
  shows "(svc_Transfer svc (served_by mem_repository cx ops) now actor cmd w = (Panic, w') \<longrightarrow>
      \<not> reads_ok 5 w \<and> w_notifier w' = w_notifier w \<and> (\<exists>n \<le> 2. w_store w' = others_work mem_repository ops n (w_store w))) \<and>
    (svc_CreateAccount svc (served_by mem_repository cx ops) now actor ccmd w = (Panic, w') \<longrightarrow>
      \<not> reads_ok 5 w \<and> w_notifier w' = w_notifier w \<and> w_store w' = w_store w)"
proof (intro conjI impI)
  assume "svc_CreateAccount svc (served_by mem_repository cx ops) now actor ccmd w = (Panic, w')"
  then have "only_drawn w w'" "\<not> reads_ok 5 w"
    using svc_CreateAccount_no_panic [of w svc "served_by mem_repository cx ops" now actor ccmd]
    by (auto elim!: svc_CreateAccount_cases simp: created_def account_outcome_def split: option.splits)
  then show "\<not> reads_ok 5 w" "w_notifier w' = w_notifier w" "w_store w' = w_store w"
    by (simp_all add: only_drawn_fields)
next
  assume T: "svc_Transfer svc (served_by mem_repository cx ops) now actor cmd w = (Panic, w')"
  then show "\<not> reads_ok 5 w"
    using svc_Transfer_no_panic [of w svc "served_by mem_repository cx ops" now actor cmd] by force
  from assms(2) T mem_reachable_inv [OF assms(1)] have "w_notifier w' = w_notifier w \<and> (\<exists>n \<le> 2. w_store w' = others_work mem_repository ops n (w_store w))"
  proof (cases rule: memsvc.Transfer_cases)
    case (submitted fa ta)
    from submitted(4) show ?thesis
      by (rule submittedE) (auto simp: notify_def split: sum.splits option.splits if_splits)
  qed blast
  then show "w_notifier w' = w_notifier w" "\<exists>n \<le> 2. w_store w' = others_work mem_repository ops n (w_store w)"
    by blast+
qed

theorem svc_panic_safe_witness:
  "\<exists>w'. svc_Transfer demo_svc (served_by mem_repository (\<lambda>_. None) (\<lambda>_. [])) 5 alice demo_cmd
       (demo_world\<lparr>w_rand := \<lambda>_. None\<rparr>) = (Panic, w') \<and> w_store w' = demo1"
proof -
  let ?w = "demo_world\<lparr>w_rand := \<lambda>_. None\<rparr>" and ?rq = "served_by mem_repository (\<lambda>_. None) (\<lambda>_. [])"
  have "svc_Transfer demo_svc ?rq 5 alice demo_cmd ?w =
      submit_transfer demo_svc ?rq 5 alice demo_cmd (account_Currency demo_a) (?w\<lparr>w_store := demo1\<rparr>)"
    using memsvc.Transfer_reaches [of demo_svc alice demo_cmd demo_a demo_b ?w "\<lambda>_. []" 5] demo_cleared demo_accounts mem_reachable_inv [OF demo_reachable(2)]
    by simp
  then obtain w' where w': "svc_Transfer demo_svc ?rq 5 alice demo_cmd ?w = (Panic, w')"
    by (simp add: submit_transfer_def bind_action_def randomID_def Let_def)
  with svc_panic_safe [of ?w demo_svc "\<lambda>_. None" "\<lambda>_. []" 5 alice demo_cmd w'] demo_reachable(2) show ?thesis by auto
qed

text \<open>C21. Reads are authorised and do not write: an account is returned only to a valid principal, to
  a customer only when the customer owns it, never a system account, and it is the account that
  the ledger holds; the journal, the audit log and the risk events are returned only to a valid
  principal that is no customer.\<close>

theorem svc_reads_authorised:
  fixes w :: "(mem_store, 'n) world"
  assumes "svc_repo svc = mem_repository"
  shows "(\<forall>a w'. svc_GetAccount svc (served_by mem_repository cx ops) actor aid w = (Return a, w') \<longrightarrow>
      Principal_Valid actor \<and> (principal_Role actor = RoleCustomer \<longrightarrow> account_OwnerID a = principal_ID actor) \<and>
      \<not> account_System a \<and> mem_accounts (w_store w') (TrimSpace aid) = Some a \<and>
      w_store w' = others_work mem_repository ops 1 (w_store w)) \<and>
    (\<forall>ps w'. svc_ListJournal svc (served_by mem_repository cx ops) actor limit w = (Return ps, w') \<longrightarrow>
      Principal_Valid actor \<and> principal_Role actor \<noteq> RoleCustomer \<and>
      set ps \<subseteq> set (mem_journal (w_store w')) \<and> w_store w' = others_work mem_repository ops 1 (w_store w)) \<and>
    (\<forall>rs w'. svc_ListAudit svc (served_by mem_repository cx ops) actor limit w = (Return rs, w') \<longrightarrow>
      Principal_Valid actor \<and> principal_Role actor \<noteq> RoleCustomer \<and>
      w_store w' = others_work mem_repository ops 1 (w_store w)) \<and>
    (\<forall>es w'. svc_ListRiskEvents svc (served_by mem_repository cx ops) actor limit w = (Return es, w') \<longrightarrow>
      Principal_Valid actor \<and> principal_Role actor \<noteq> RoleCustomer \<and>
      set es \<subseteq> set (mem_risk (w_store w')) \<and> w_store w' = others_work mem_repository ops 1 (w_store w))"
proof -
  have "Principal_Valid actor \<and> (principal_Role actor = RoleCustomer \<longrightarrow> account_OwnerID a = principal_ID actor) \<and>
      \<not> account_System a \<and> mem_accounts (w_store w') (TrimSpace aid) = Some a \<and>
      w_store w' = others_work mem_repository ops 1 (w_store w)"
    if "svc_GetAccount svc (served_by mem_repository cx ops) actor aid w = (Return a, w')" for a w'
    using that assms
    by (auto simp: svc_GetAccount_def fail_def bind_call served_by_def mem_GetAccount_def Let_def
        split: if_splits option.splits)
  moreover have "canInspect actor \<and> set ps \<subseteq> set (mem_journal (w_store w')) \<and>
      w_store w' = others_work mem_repository ops 1 (w_store w)"
    if "svc_ListJournal svc (served_by mem_repository cx ops) actor limit w = (Return ps, w')" for ps w'
    using that assms
    by (auto simp: svc_ListJournal_def fail_def call_def served_by_def mem_ListJournal_def tail_from_last_n
        split: if_splits option.splits dest: set_last_n [THEN subsetD])
  moreover have "canInspect actor \<and> w_store w' = others_work mem_repository ops 1 (w_store w)"
    if "svc_ListAudit svc (served_by mem_repository cx ops) actor limit w = (Return rs, w')" for rs w'
    using that assms
    by (auto simp: svc_ListAudit_def fail_def call_def served_by_def mem_ListAudit_def split: if_splits option.splits)
  moreover have "canInspect actor \<and> set es \<subseteq> set (mem_risk (w_store w')) \<and>
      w_store w' = others_work mem_repository ops 1 (w_store w)"
    if "svc_ListRiskEvents svc (served_by mem_repository cx ops) actor limit w = (Return es, w')" for es w'
    using that assms
    by (auto simp: svc_ListRiskEvents_def fail_def call_def served_by_def mem_ListRiskEvents_def tail_from_last_n
        split: if_splits option.splits dest: set_last_n [THEN subsetD])
  moreover have "canInspect actor \<Longrightarrow> Principal_Valid actor \<and> principal_Role actor \<noteq> RoleCustomer"
    by (auto simp: canInspect_def role_defs)
  ultimately show ?thesis by blast
qed

theorem svc_reads_authorised_witness:
  "\<exists>w'. svc_GetAccount demo_svc (served_by mem_repository (\<lambda>_. None) (\<lambda>_. [])) alice ''a'' demo_world = (Return demo_a, w') \<and>
     account_OwnerID demo_a = ''alice''"
proof -
  have "svc_GetAccount demo_svc (served_by mem_repository (\<lambda>_. None) (\<lambda>_. [])) alice ''a'' demo_world = (Return demo_a, demo_world\<lparr>w_store := demo1\<rparr>)"
    using demo_accounts
    by (simp add: svc_GetAccount_def Principal_Valid_def TrimSpace_solid_ends string_evals role_defs bind_call served_by_def
        mem_GetAccount_def demo_a_def demo_account_def alice_def)
  with svc_reads_authorised [of demo_svc "\<lambda>_. None" "\<lambda>_. []" alice "''a''" demo_world 0] show ?thesis by fastforce
qed

end
