(* ===== verification/Go_Encoding.thy ===== *)
theory Go_Encoding
  imports Go_Strings
begin

text \<open>
  The part of Go's \<^verbatim>\<open>encoding/json\<close> and \<^verbatim>\<open>crypto/sha256\<close> that the program uses: the encoding of
  strings and integers in JSON, with the escapes of \<^verbatim>\<open>json.Marshal\<close>, and the SHA-256 digest.
\<close>

unbundle bit_operations_syntax

section \<open>JSON\<close>

text \<open>One byte below \<^verbatim>\<open>utf8.RuneSelf\<close>: safe bytes stand for themselves, the others are escaped.\<close>

definition json_ascii :: "nat \<Rightarrow> go_string" where
  "json_ascii r =
     (if r = 0x5C then [CHR 0x5C, CHR 0x5C]
      else if r = 0x22 then [CHR 0x5C, CHR 0x22]
      else if r = 0x08 then [CHR 0x5C, CHR ''b'']
      else if r = 0x0C then [CHR 0x5C, CHR ''f'']
      else if r = 0x0A then [CHR 0x5C, CHR ''n'']
      else if r = 0x0D then [CHR 0x5C, CHR ''r'']
      else if r = 0x09 then [CHR 0x5C, CHR ''t'']
      else if r < 0x20 \<or> r \<in> {0x3C, 0x3E, 0x26} then
        CHR 0x5C # ''u00'' @ [hex_digit (r div 16), hex_digit (r mod 16)]
      else [char_of r])"

function json_chars :: "go_string \<Rightarrow> go_string" where
  "json_chars s =
     (if s = [] then []
      else (let r = fst (DecodeRune s); n = snd (DecodeRune s) in
        (if r < 0x80 then json_ascii r
         else if r = RuneError \<and> n = 1 then CHR 0x5C # ''ufffd''
         else if r = 0x2028 then CHR 0x5C # ''u2028''
         else if r = 0x2029 then CHR 0x5C # ''u2029''
         else take n s) @ json_chars (drop n s)))"
  by pat_completeness auto
termination
  by (relation "measure length") (use DecodeRune_width in \<open>fastforce+\<close>)

declare json_chars.simps [simp del]

definition json_string :: "go_string \<Rightarrow> go_string" where
  "json_string s = CHR 0x22 # json_chars s @ [CHR 0x22]"

text \<open>A JSON object from the encodings of its fields.\<close>

definition json_object :: "(go_string \<times> go_string) list \<Rightarrow> go_string" where
  "json_object fs =
     ''{'' @ concat (map (\<lambda>(i, (k, v)). (if i = 0 then [] else '','') @ json_string k @ '':'' @ v) (enumerate 0 fs)) @ ''}''"

section \<open>SHA-256\<close>

type_synonym word32 = "32 word"

text \<open>The constants, in decimal: the leading 32 bits of the fractional parts of the cube roots and of
  the square roots of the first primes.\<close>

definition sha256_K :: "word32 list" where
  "sha256_K =
    [1116352408, 1899447441, 3049323471, 3921009573, 961987163, 1508970993,
     2453635748, 2870763221, 3624381080, 310598401, 607225278, 1426881987,
     1925078388, 2162078206, 2614888103, 3248222580, 3835390401, 4022224774,
     264347078, 604807628, 770255983, 1249150122, 1555081692, 1996064986,
     2554220882, 2821834349, 2952996808, 3210313671, 3336571891, 3584528711,
     113926993, 338241895, 666307205, 773529912, 1294757372, 1396182291,
     1695183700, 1986661051, 2177026350, 2456956037, 2730485921, 2820302411,
     3259730800, 3345764771, 3516065817, 3600352804, 4094571909, 275423344,
     430227734, 506948616, 659060556, 883997877, 958139571, 1322822218,
     1537002063, 1747873779, 1955562222, 2024104815, 2227730452, 2361852424,
     2428436474, 2756734187, 3204031479, 3329325298]"

definition sha256_H :: "word32 list" where
  "sha256_H = [1779033703, 3144134277, 1013904242, 2773480762, 1359893119, 2600822924, 528734635, 1541459225]"

text \<open>The number of a list of bytes, most significant first, and the bytes of a number.\<close>

definition be_num :: "byte list \<Rightarrow> nat" where
  "be_num bs = foldl (\<lambda>n b. n * 256 + unat b) 0 bs"

definition be_bytes :: "nat \<Rightarrow> nat \<Rightarrow> byte list" where
  "be_bytes k n = map (\<lambda>i. of_nat (n div 256 ^ i)) (rev [0..<k])"

definition sha256_pad :: "byte list \<Rightarrow> byte list" where
  "sha256_pad m = m @ [0x80] @ replicate (nat ((55 - int (length m)) mod 64)) 0 @ be_bytes 8 (8 * length m)"

fun chunks :: "nat \<Rightarrow> nat \<Rightarrow> 'a list \<Rightarrow> 'a list list" where
  "chunks 0 k xs = []"
| "chunks (Suc n) k xs = take k xs # chunks n k (drop k xs)"

definition ror32 :: "nat \<Rightarrow> word32 \<Rightarrow> word32" where
  "ror32 n x = drop_bit n x OR push_bit (32 - n) x"

text \<open>The message schedule, kept with the latest word first.\<close>

definition sha256_extend :: "word32 list \<Rightarrow> word32 list" where
  "sha256_extend w =
     (let x = w ! 14; y = w ! 1;
          s0 = ror32 7 x XOR ror32 18 x XOR drop_bit 3 x;
          s1 = ror32 17 y XOR ror32 19 y XOR drop_bit 10 y in
      (w ! 15 + s0 + w ! 6 + s1) # w)"

definition sha256_schedule :: "byte list \<Rightarrow> word32 list" where
  "sha256_schedule block =
     rev ((sha256_extend ^^ 48) (rev (map (\<lambda>b. of_nat (be_num b)) (chunks 16 4 block))))"

fun sha256_round :: "word32 list \<Rightarrow> word32 \<times> word32 \<Rightarrow> word32 list" where
  "sha256_round [a, b, c, d, e, f, g, h] (k, w) =
     (let t1 = h + (ror32 6 e XOR ror32 11 e XOR ror32 25 e) + ((e AND f) XOR (NOT e AND g)) + k + w;
          t2 = (ror32 2 a XOR ror32 13 a XOR ror32 22 a) + ((a AND b) XOR (a AND c) XOR (b AND c)) in
      [t1 + t2, a, b, c, d + t1, e, f, g])"
| "sha256_round hs _ = hs"

definition sha256_block :: "word32 list \<Rightarrow> byte list \<Rightarrow> word32 list" where
  "sha256_block hs block =
     map2 (+) hs (foldl sha256_round hs (zip sha256_K (sha256_schedule block)))"

definition Sum256 :: "byte list \<Rightarrow> byte list" where
  "Sum256 m =
     (let p = sha256_pad m in
      concat (map (\<lambda>w. be_bytes 4 (unat w)) (foldl sha256_block sha256_H (chunks (length p div 64) 64 p))))"

definition bytes_of :: "go_string \<Rightarrow> byte list" where
  "bytes_of s = map (\<lambda>c. of_nat (bv c)) s"

section \<open>The digest has 32 bytes\<close>

lemma length_be_bytes [simp]: "length (be_bytes k n) = k"
  by (simp add: be_bytes_def)

lemma length_sha256_round [simp]: "length (sha256_round hs x) = length hs"
  by (induction hs x rule: sha256_round.induct) (simp_all add: Let_def)

lemma length_sha256_rounds [simp]: "length (foldl sha256_round hs xs) = length hs"
  by (induction xs arbitrary: hs) simp_all

lemma length_sha256_blocks [simp]: "length (foldl sha256_block hs bs) = length hs"
  by (induction bs arbitrary: hs) (simp_all add: sha256_block_def)

lemma length_Sum256 [simp]: "length (Sum256 m) = 32"
proof -
  have "length (concat (map (\<lambda>w. be_bytes 4 (unat w)) ws)) = 4 * length ws" for ws :: "word32 list"
    by (induction ws) simp_all
  then show ?thesis by (simp add: Sum256_def Let_def sha256_H_def del: foldl_Cons)
qed

end
