(* ===== verification/Pg_Schema.thy ===== *)
theory Pg_Schema
  imports Store Go_Encoding
begin

text \<open>
  \<^verbatim>\<open>deploy/postgres/001_init.sql\<close>: the tables of the PostgreSQL schema with their constraints and
  triggers, and the statements by which the adapter changes them.

  A table is the list of its rows. A statement takes the database and returns an error of the
  server, with its SQLSTATE and the constraint it names, or a result and the next database. The
  server checks, in this order, the encoding of the text parameters (22021), the \<^verbatim>\<open>CHECK\<close>
  constraints (23514), the unique indexes in the order of their declaration (23505) and the
  foreign keys (23503). A \<^verbatim>\<open>CHECK\<close> is reported under the name of its table.

  What the server and the driver do to a value on its way through a column is a parameter:
  \<open>x_time\<close> is the instant that a \<^verbatim>\<open>timestamptz\<close> column keeps of a time, and \<open>x_metadata\<close> is the
  metadata read back from a \<^verbatim>\<open>jsonb\<close> column, or the error of storing it. \<open>x_rank\<close> orders text as the
  collation of the database does.
\<close>

type_synonym metadata = "(go_string \<times> any_value) list"

record externals =
  x_time :: "time \<Rightarrow> time"
  x_metadata :: "metadata \<Rightarrow> error + metadata"
  x_rank :: "go_string \<Rightarrow> int"

section \<open>Tables\<close>

record account_row =
  acc_id :: go_string
  acc_owner_id :: go_string
  acc_currency :: go_string
  acc_balance_minor :: int64
  acc_system :: bool
  acc_version :: int64
  acc_created_at :: time
  acc_updated_at :: time

record transaction_row =
  jt_id :: go_string
  jt_kind :: go_string
  jt_idempotency_key :: "go_string option"
  jt_actor_id :: go_string
  jt_currency :: go_string
  jt_description :: go_string
  jt_expected_postings :: int
  jt_created_at :: time

record posting_row =
  po_id :: go_string
  po_transaction_id :: go_string
  po_account_id :: go_string
  po_amount_minor :: int64
  po_sequence_no :: int64
  po_created_at :: time

record intent_row =
  ti_transaction_id :: go_string
  ti_from_account_id :: go_string
  ti_to_account_id :: go_string
  ti_amount_minor :: int64
  ti_request_fingerprint :: "byte list"

record audit_row =
  au_sequence_no :: int64
  au_id :: go_string
  au_actor_id :: go_string
  au_action :: go_string
  au_resource_id :: go_string
  au_outcome :: go_string
  au_metadata :: metadata
  au_created_at :: time

record risk_row =
  rk_id :: go_string
  rk_event_type :: go_string
  rk_severity :: go_string
  rk_transaction_id :: go_string
  rk_reason :: go_string
  rk_status :: go_string
  rk_attempts :: int
  rk_created_at :: time
  rk_available_at :: time
  rk_locked_at :: "time option"
  rk_published_at :: "time option"
  rk_last_error :: "go_string option"

record db =
  db_schema_migrations :: "int list"
  db_accounts :: "account_row list"
  db_transactions :: "transaction_row list"
  db_postings :: "posting_row list"
  db_intents :: "intent_row list"
  db_audit :: "audit_row list"
  db_risk :: "risk_row list"

text \<open>The database after migration 1.\<close>

definition db_init :: db where
  "db_init = \<lparr>db_schema_migrations = [1], db_accounts = [], db_transactions = [], db_postings = [],
     db_intents = [], db_audit = [], db_risk = []\<rparr>"

text \<open>The row with a given key.\<close>

definition lookup :: "('r \<Rightarrow> 'k) \<Rightarrow> 'k \<Rightarrow> 'r list \<Rightarrow> 'r option" where
  "lookup key k rows = find (\<lambda>r. key r = k) rows"

type_synonym 'a stmt = "db \<Rightarrow> error + ('a \<times> db)"

section \<open>Constraints\<close>

text \<open>Text that PostgreSQL accepts in UTF-8: a valid encoding without the null byte.\<close>

definition valid_text :: "go_string \<Rightarrow> bool" where
  "valid_text s \<longleftrightarrow> string_of_runes (runes s) = s \<and> (\<forall>c \<in> set s. bv c \<noteq> 0)"

definition chars_between :: "nat \<Rightarrow> nat \<Rightarrow> go_string \<Rightarrow> bool" where
  "chars_between lo hi s \<longleftrightarrow> lo \<le> RuneCountInString s \<and> RuneCountInString s \<le> hi"

text \<open>\<^verbatim>\<open>currency::text ~ '^[A-Z]{3}$'\<close>\<close>

definition currency_check :: "go_string \<Rightarrow> bool" where
  "currency_check c \<longleftrightarrow> length c = 3 \<and> (\<forall>x \<in> set c. 65 \<le> bv x \<and> bv x \<le> 90)"

definition account_check :: "account_row \<Rightarrow> bool" where
  "account_check r \<longleftrightarrow>
     currency_check (acc_currency r) \<and> 0 \<le> sint (acc_version r) \<and>
     chars_between 1 128 (acc_id r) \<and> chars_between 1 128 (acc_owner_id r) \<and>
     (acc_system r \<or> 0 \<le> sint (acc_balance_minor r)) \<and>
     (\<not> acc_system r \<or> acc_owner_id r = ''system'') \<and>
     ((acc_system r \<and> acc_id r = ''system:equity:'' @ acc_currency r) \<or>
      (\<not> acc_system r \<and> \<not> HasPrefix (acc_id r) ''system:''))"

definition transaction_check :: "transaction_row \<Rightarrow> bool" where
  "transaction_check r \<longleftrightarrow>
     jt_kind r \<in> {''opening'', ''transfer''} \<and> currency_check (jt_currency r) \<and>
     RuneCountInString (jt_description r) \<le> 200 \<and> 2 \<le> jt_expected_postings r \<and>
     chars_between 1 128 (jt_id r) \<and> chars_between 1 128 (jt_actor_id r) \<and>
     (case jt_idempotency_key r of
        None \<Rightarrow> jt_kind r = ''opening''
      | Some key \<Rightarrow> jt_kind r = ''transfer'' \<and> chars_between 8 128 key)"

definition posting_check :: "posting_row \<Rightarrow> bool" where
  "posting_check r \<longleftrightarrow> po_amount_minor r \<noteq> 0 \<and> chars_between 1 128 (po_id r)"

definition intent_check :: "intent_row \<Rightarrow> bool" where
  "intent_check r \<longleftrightarrow> 0 < sint (ti_amount_minor r) \<and> length (ti_request_fingerprint r) = 32 \<and>
     ti_from_account_id r \<noteq> ti_to_account_id r"

definition audit_check :: "audit_row \<Rightarrow> bool" where
  "audit_check r \<longleftrightarrow>
     chars_between 1 128 (au_id r) \<and> chars_between 1 128 (au_actor_id r) \<and> chars_between 1 128 (au_action r) \<and>
     chars_between 1 128 (au_resource_id r) \<and> chars_between 1 64 (au_outcome r)"

definition risk_check :: "risk_row \<Rightarrow> bool" where
  "risk_check r \<longleftrightarrow>
     rk_severity r \<in> {''low'', ''medium'', ''high'', ''critical''} \<and>
     rk_status r \<in> {''pending'', ''processing'', ''published'', ''failed''} \<and> 0 \<le> rk_attempts r \<and>
     (case rk_last_error r of None \<Rightarrow> True | Some e \<Rightarrow> RuneCountInString e \<le> 500) \<and>
     chars_between 1 128 (rk_id r) \<and> chars_between 1 64 (rk_event_type r) \<and> chars_between 1 500 (rk_reason r)"

section \<open>Statements\<close>

definition encoding_error :: error where
  "encoding_error = PgError ''22021'' []"

definition check_violation :: "go_string \<Rightarrow> error" where
  "check_violation table = PgError ''23514'' (table @ ''_check'')"

definition unique_violation :: "go_string \<Rightarrow> error" where
  "unique_violation index = PgError ''23505'' index"

definition fkey_violation :: "go_string \<Rightarrow> error" where
  "fkey_violation name = PgError ''23503'' name"

text \<open>\<^verbatim>\<open>INSERT INTO accounts\<close>; the flag is \<^verbatim>\<open>ON CONFLICT (id) DO NOTHING\<close>.\<close>

definition insert_account :: "bool \<Rightarrow> account_row \<Rightarrow> unit stmt" where
  "insert_account do_nothing r d =
     (if \<not> (valid_text (acc_id r) \<and> valid_text (acc_owner_id r) \<and> valid_text (acc_currency r)) then Inl encoding_error
      else if \<not> account_check r then Inl (check_violation ''accounts'')
      else if lookup acc_id (acc_id r) (db_accounts d) \<noteq> None then
        (if do_nothing then Inr ((), d) else Inl (unique_violation ''accounts_pkey''))
      else Inr ((), d\<lparr>db_accounts := db_accounts d @ [r]\<rparr>))"

text \<open>
  \<^verbatim>\<open>UPDATE accounts SET balance_minor = $2, version = version + 1, updated_at = $3 WHERE id = $1\<close>.
  The trigger \<^verbatim>\<open>protect_account_identity\<close> accepts it, since it keeps the identity columns.
\<close>

definition set_balance :: "int64 \<Rightarrow> time \<Rightarrow> account_row \<Rightarrow> account_row" where
  "set_balance bal now r = r\<lparr>acc_balance_minor := bal, acc_version := acc_version r + 1, acc_updated_at := now\<rparr>"

definition update_account :: "go_string \<Rightarrow> int64 \<Rightarrow> time \<Rightarrow> unit stmt" where
  "update_account aid bal now d =
     (if \<not> valid_text aid then Inl encoding_error
      else (case lookup acc_id aid (db_accounts d) of
        None \<Rightarrow> Inr ((), d)
      | Some r \<Rightarrow>
          if \<not> fits64 (sint (acc_version r) + 1) then Inl (PgError ''22003'' [])
          else if \<not> account_check (set_balance bal now r) then Inl (check_violation ''accounts'')
          else Inr ((), d\<lparr>db_accounts := map (\<lambda>x. if acc_id x = aid then set_balance bal now x else x) (db_accounts d)\<rparr>)))"

definition insert_transaction :: "transaction_row \<Rightarrow> unit stmt" where
  "insert_transaction r d =
     (if \<not> (valid_text (jt_id r) \<and> (\<forall>k \<in> set_option (jt_idempotency_key r). valid_text k) \<and> valid_text (jt_actor_id r) \<and>
           valid_text (jt_currency r) \<and> valid_text (jt_description r)) then Inl encoding_error
      else if \<not> transaction_check r then Inl (check_violation ''journal_transactions'')
      else if lookup jt_id (jt_id r) (db_transactions d) \<noteq> None then Inl (unique_violation ''journal_transactions_pkey'')
      else if jt_idempotency_key r \<noteq> None \<and>
          (\<exists>x \<in> set (db_transactions d). jt_actor_id x = jt_actor_id r \<and> jt_idempotency_key x = jt_idempotency_key r)
        then Inl (unique_violation ''journal_transactions_actor_id_idempotency_key_key'')
      else Inr ((), d\<lparr>db_transactions := db_transactions d @ [r]\<rparr>))"

text \<open>\<^verbatim>\<open>INSERT INTO postings\<close>, one row: checks and unique indexes.\<close>

definition insert_posting_row :: "posting_row \<Rightarrow> unit stmt" where
  "insert_posting_row r d =
     (if \<not> posting_check r then Inl (check_violation ''postings'')
      else if lookup po_id (po_id r) (db_postings d) \<noteq> None then Inl (unique_violation ''postings_pkey'')
      else if \<exists>x \<in> set (db_postings d). po_sequence_no x = po_sequence_no r then Inl (unique_violation ''postings_sequence_no_key'')
      else if \<exists>x \<in> set (db_postings d). po_transaction_id x = po_transaction_id r \<and> po_account_id x = po_account_id r
        then Inl (unique_violation ''postings_transaction_id_account_id_key'')
      else Inr ((), d\<lparr>db_postings := db_postings d @ [r]\<rparr>))"

definition posting_fkeys :: "db \<Rightarrow> posting_row \<Rightarrow> error option" where
  "posting_fkeys d r =
     (if lookup jt_id (po_transaction_id r) (db_transactions d) = None then Some (fkey_violation ''postings_transaction_id_fkey'')
      else if lookup acc_id (po_account_id r) (db_accounts d) = None then Some (fkey_violation ''postings_account_id_fkey'')
      else None)"

text \<open>The statement with two rows; the foreign keys are checked at its end.\<close>

definition insert_postings :: "posting_row \<Rightarrow> posting_row \<Rightarrow> unit stmt" where
  "insert_postings p q d =
     (if \<not> (valid_text (po_id p) \<and> valid_text (po_id q) \<and> valid_text (po_transaction_id p) \<and> valid_text (po_account_id p) \<and>
           valid_text (po_transaction_id q) \<and> valid_text (po_account_id q)) then Inl encoding_error
      else (case insert_posting_row p d of Inl e \<Rightarrow> Inl e | Inr (_, d1) \<Rightarrow>
      (case insert_posting_row q d1 of Inl e \<Rightarrow> Inl e | Inr (_, d2) \<Rightarrow>
      (case posting_fkeys d2 p of Some e \<Rightarrow> Inl e | None \<Rightarrow>
      (case posting_fkeys d2 q of Some e \<Rightarrow> Inl e | None \<Rightarrow> Inr ((), d2))))))"

definition insert_intent :: "intent_row \<Rightarrow> unit stmt" where
  "insert_intent r d =
     (if \<not> (valid_text (ti_transaction_id r) \<and> valid_text (ti_from_account_id r) \<and> valid_text (ti_to_account_id r))
        then Inl encoding_error
      else if \<not> intent_check r then Inl (check_violation ''transfer_intents'')
      else if lookup ti_transaction_id (ti_transaction_id r) (db_intents d) \<noteq> None
        then Inl (unique_violation ''transfer_intents_pkey'')
      else if lookup jt_id (ti_transaction_id r) (db_transactions d) = None
        then Inl (fkey_violation ''transfer_intents_transaction_id_fkey'')
      else if lookup acc_id (ti_from_account_id r) (db_accounts d) = None
        then Inl (fkey_violation ''transfer_intents_from_account_id_fkey'')
      else if lookup acc_id (ti_to_account_id r) (db_accounts d) = None
        then Inl (fkey_violation ''transfer_intents_to_account_id_fkey'')
      else Inr ((), d\<lparr>db_intents := db_intents d @ [r]\<rparr>))"

definition insert_audit_row :: "audit_row \<Rightarrow> unit stmt" where
  "insert_audit_row r d =
     (if \<not> (valid_text (au_id r) \<and> valid_text (au_actor_id r) \<and> valid_text (au_action r) \<and>
           valid_text (au_resource_id r) \<and> valid_text (au_outcome r)) then Inl encoding_error
      else if \<not> audit_check r then Inl (check_violation ''audit_records'')
      else if \<exists>x \<in> set (db_audit d). au_sequence_no x = au_sequence_no r then Inl (unique_violation ''audit_records_pkey'')
      else if lookup au_id (au_id r) (db_audit d) \<noteq> None then Inl (unique_violation ''audit_records_id_key'')
      else Inr ((), d\<lparr>db_audit := db_audit d @ [r]\<rparr>))"

definition insert_risk :: "risk_row \<Rightarrow> unit stmt" where
  "insert_risk r d =
     (if \<not> (valid_text (rk_id r) \<and> valid_text (rk_event_type r) \<and> valid_text (rk_severity r) \<and>
           valid_text (rk_transaction_id r) \<and> valid_text (rk_reason r)) then Inl encoding_error
      else if \<not> risk_check r then Inl (check_violation ''risk_events'')
      else if lookup rk_id (rk_id r) (db_risk d) \<noteq> None then Inl (unique_violation ''risk_events_pkey'')
      else if lookup jt_id (rk_transaction_id r) (db_transactions d) = None
        then Inl (fkey_violation ''risk_events_transaction_id_fkey'')
      else Inr ((), d\<lparr>db_risk := db_risk d @ [r]\<rparr>))"

section \<open>The deferred balance trigger\<close>

text \<open>The postings of a transaction and their exact sum, which PostgreSQL computes in \<^verbatim>\<open>numeric\<close>.\<close>

definition txn_postings :: "db \<Rightarrow> go_string \<Rightarrow> posting_row list" where
  "txn_postings d t = filter (\<lambda>p. po_transaction_id p = t) (db_postings d)"

definition po_sum :: "posting_row list \<Rightarrow> int" where
  "po_sum ps = (\<Sum>p\<leftarrow>ps. sint (po_amount_minor p))"

text \<open>\<^verbatim>\<open>assert_balanced_journal_transaction\<close>. The comparison with the count of a transaction that is
  not there is null, and the exception is then raised only for a sum that is not zero.\<close>

definition assert_balanced :: "db \<Rightarrow> go_string \<Rightarrow> error option" where
  "assert_balanced d t =
     (if (case lookup jt_id t (db_transactions d) of
            None \<Rightarrow> False
          | Some r \<Rightarrow> int (length (txn_postings d t)) \<noteq> jt_expected_postings r) \<or> po_sum (txn_postings d t) \<noteq> 0
      then Some (PgError ''23514'' []) else None)"

text \<open>The rows that a transaction has inserted, when it started from \<open>d\<close> and commits \<open>d'\<close>.\<close>

definition deferred_triggers :: "db \<Rightarrow> db \<Rightarrow> error option" where
  "deferred_triggers d d' =
     (let targets = map jt_id (drop (length (db_transactions d)) (db_transactions d')) @
        map po_transaction_id (drop (length (db_postings d)) (db_postings d')) in
      case find (\<lambda>t. assert_balanced d' t \<noteq> None) targets of None \<Rightarrow> None | Some t \<Rightarrow> assert_balanced d' t)"

end
