(* ===== verification/Pg_Store.thy ===== *)
theory Pg_Store
  imports Pg_Schema
begin

text \<open>
  \<^verbatim>\<open>internal/store/postgres/store.go\<close>: the transactional adapter over the tables of \<open>Pg_Schema\<close>.

  A transaction runs at isolation level SERIALIZABLE, so a transaction that commits has the
  effect of running alone at one moment; one that cannot be ordered so fails with SQLSTATE 40001.
  An \<open>attempt\<close> is what happens around one transaction: the error of \<^verbatim>\<open>BeginTx\<close>, an error that any
  of its statements returns (a serialisation failure, a deadlock, a lost connection, a cancelled
  context), the values that the identity sequences give, and the reply to the commit, which may be
  lost after the server has committed. Between two attempts of a call other sessions change the
  database.
\<close>

definition maxRetries :: nat where
  "maxRetries = 4"

definition requiredSchemaVersion :: int where
  "requiredSchemaVersion = 1"

datatype commit_reply = CommitOK | CommitRefused error | CommitLost error

record attempt =
  at_begin :: "error option"
  at_fault :: "nat \<Rightarrow> error option"
  at_seq :: "db \<Rightarrow> nat \<Rightarrow> int64"
  at_commit :: commit_reply
  at_wait :: "int \<Rightarrow> ctx"

record call_env =
  ce_attempt :: "nat \<Rightarrow> attempt"
  ce_others :: "nat \<Rightarrow> db \<Rightarrow> db"

section \<open>Statements in a transaction\<close>

definition bind_stmt :: "'a stmt \<Rightarrow> ('a \<Rightarrow> 'b stmt) \<Rightarrow> 'b stmt" where
  "bind_stmt m f d = (case m d of Inl e \<Rightarrow> Inl e | Inr (x, d') \<Rightarrow> f x d')"

definition return_stmt :: "'a \<Rightarrow> 'a stmt" where
  "return_stmt x d = Inr (x, d)"

definition throw :: "error \<Rightarrow> 'a stmt" where
  "throw e d = Inl e"

text \<open>Statement \<open>k\<close> of a transaction, which the environment may make fail.\<close>

definition exec :: "attempt \<Rightarrow> nat \<Rightarrow> 'a stmt \<Rightarrow> 'a stmt" where
  "exec at k m d = (case at_fault at k of Some e \<Rightarrow> Inl e | None \<Rightarrow> m d)"

text \<open>The body of a transaction and its commit: an error leaves the database as it was.\<close>

definition run_tx :: "attempt \<Rightarrow> 'a stmt \<Rightarrow> db \<Rightarrow> (error + 'a) \<times> db" where
  "run_tx at body d =
     (case body d of
        Inl e \<Rightarrow> (Inl e, d)
      | Inr (x, d') \<Rightarrow>
          (case at_commit at of
             CommitRefused e \<Rightarrow> (Inl e, d)
           | CommitOK \<Rightarrow> (case deferred_triggers d d' of Some e \<Rightarrow> (Inl e, d) | None \<Rightarrow> (Inr x, d'))
           | CommitLost e \<Rightarrow> (case deferred_triggers d d' of Some e' \<Rightarrow> (Inl e', d) | None \<Rightarrow> (Inl e, d'))))"

section \<open>Errors and retries\<close>

definition isRetryable :: "error \<Rightarrow> bool" where
  "isRetryable e = (case e of PgError code _ \<Rightarrow> code = ''40001'' \<or> code = ''40P01'' | _ \<Rightarrow> False)"

text \<open>\<^verbatim>\<open>strings.Contains\<close>\<close>

fun Contains :: "go_string \<Rightarrow> go_string \<Rightarrow> bool" where
  "Contains [] p \<longleftrightarrow> p = []"
| "Contains (c # s) p \<longleftrightarrow> HasPrefix (c # s) p \<or> Contains s p"

definition isIdempotencyRace :: "error \<Rightarrow> bool" where
  "isIdempotencyRace e =
     (case e of PgError code name \<Rightarrow> code = ''23505'' \<and> Contains name ''actor_id_idempotency_key'' | _ \<Rightarrow> False)"

definition mapDatabaseError :: "error \<Rightarrow> error" where
  "mapDatabaseError e =
     (if e \<in> {ContextCanceled, ContextDeadlineExceeded, ErrInvalidInput, ErrNotFound, ErrCurrencyMismatch,
              ErrInsufficientFunds, ErrIdempotencyConflict} then e
      else (case e of
        PgError code _ \<Rightarrow> if code \<in> {''23503'', ''23505'', ''23514'', ''22003''} then ErrInvalidInput else e
      | _ \<Rightarrow> e))"

text \<open>
  \<^verbatim>\<open>waitForRetry\<close>: the delay in nanoseconds, and the error of the context when the context is done
  before the timer of that delay.
\<close>

definition retryDelay :: "nat \<Rightarrow> int" where
  "retryDelay n = 2 ^ n * 5 * 1000000"

definition waitForRetry :: "attempt \<Rightarrow> nat \<Rightarrow> error option" where
  "waitForRetry at n = at_wait at (retryDelay n)"

text \<open>
  The loop of \<^verbatim>\<open>CreateAccount\<close> and \<^verbatim>\<open>ApplyTransfer\<close>: attempt \<open>n\<close> with \<open>k\<close> attempts left. It
  repeats an attempt whose error is in \<open>again\<close>. Without any attempt it reports an exhausted retry.
\<close>

fun retry_loop :: "call_env \<Rightarrow> (error \<Rightarrow> bool) \<Rightarrow> (attempt \<Rightarrow> 'a stmt) \<Rightarrow> nat \<Rightarrow> nat \<Rightarrow> db \<Rightarrow> (error + 'a) \<times> db" where
  "retry_loop env again body n 0 d = (Inl (ErrOther ''retry exhausted''), d)"
| "retry_loop env again body n (Suc k) d =
     (let at = ce_attempt env n; d1 = ce_others env n d in
      case at_begin at of
        Some e \<Rightarrow> (Inl e, d1)
      | None \<Rightarrow>
          (case run_tx at (body at) d1 of
             (Inr x, d2) \<Rightarrow> (Inr x, d2)
           | (Inl e, d2) \<Rightarrow>
               if \<not> again e \<or> k = 0 then (Inl (mapDatabaseError e), d2)
               else (case waitForRetry at n of
                 Some e' \<Rightarrow> (Inl e', d2)
               | None \<Rightarrow> retry_loop env again body (Suc n) k d2)))"

section \<open>Opening an account\<close>

definition pg_systemAccountID :: "go_string \<Rightarrow> go_string" where
  "pg_systemAccountID currency = ''system:equity:'' @ currency"

definition validateCreateAccount :: "create_account_input \<Rightarrow> error option" where
  "validateCreateAccount inp =
     (let a = cai_Account inp; p0 = fst (cai_OpeningPostingIDs inp); p1 = snd (cai_OpeningPostingIDs inp) in
      if account_ID a = [] \<or> 128 < length (account_ID a) \<or>
         account_OwnerID a = [] \<or> 128 < length (account_OwnerID a) \<or> IsZero (account_CreatedAt a) \<or>
         account_System a \<or> HasPrefix (account_ID a) ''system:'' \<or> account_BalanceMinor a <s 0 then Some ErrInvalidInput
      else (case ValidateCurrency (account_Currency a) of Some e \<Rightarrow> Some e | None \<Rightarrow>
      (case ValidateAuditRecord (cai_Audit inp) [] (account_ID a) of Some e \<Rightarrow> Some e | None \<Rightarrow>
      if 0 <s account_BalanceMinor a then
        (if cai_OpeningTransactionID inp = [] \<or> p0 = [] \<or> p1 = [] \<or> p0 = p1 then Some ErrInvalidInput
         else ValidateBalanced
           [\<lparr>posting_ID = p0, posting_TransactionID = cai_OpeningTransactionID inp, posting_AccountID = account_ID a,
             posting_AmountMinor = account_BalanceMinor a, posting_Currency = account_Currency a,
             posting_Sequence = 0, posting_CreatedAt = 0\<rparr>,
            \<lparr>posting_ID = p1, posting_TransactionID = cai_OpeningTransactionID inp,
             posting_AccountID = pg_systemAccountID (account_Currency a),
             posting_AmountMinor = - account_BalanceMinor a, posting_Currency = account_Currency a,
             posting_Sequence = 0, posting_CreatedAt = 0\<rparr>])
      else None)))"

definition audit_row_of :: "externals \<Rightarrow> int64 \<Rightarrow> metadata \<Rightarrow> audit_record \<Rightarrow> audit_row" where
  "audit_row_of X sq m r =
     \<lparr>au_sequence_no = sq, au_id = audit_ID r, au_actor_id = audit_ActorID r, au_action = audit_Action r,
      au_resource_id = audit_ResourceID r, au_outcome = audit_Outcome r, au_metadata = m,
      au_created_at = x_time X (audit_CreatedAt r)\<rparr>"

definition insertAudit :: "externals \<Rightarrow> attempt \<Rightarrow> nat \<Rightarrow> audit_record \<Rightarrow> unit stmt" where
  "insertAudit X at k r d =
     (case x_metadata X (case audit_Metadata r of None \<Rightarrow> [] | Some m \<Rightarrow> m) of
        Inl e \<Rightarrow> Inl e
      | Inr m \<Rightarrow> exec at k (insert_audit_row (audit_row_of X (at_seq at d 2) m r)) d)"

text \<open>The row of the account to open, and that of the system account of its currency.\<close>

definition new_account_row :: "externals \<Rightarrow> account \<Rightarrow> account_row" where
  "new_account_row X a =
     \<lparr>acc_id = account_ID a, acc_owner_id = account_OwnerID a, acc_currency = account_Currency a,
      acc_balance_minor = account_BalanceMinor a, acc_system = False, acc_version = 0,
      acc_created_at = x_time X (account_CreatedAt a), acc_updated_at = x_time X (account_CreatedAt a)\<rparr>"

definition system_account_row :: "externals \<Rightarrow> account \<Rightarrow> account_row" where
  "system_account_row X a =
     \<lparr>acc_id = pg_systemAccountID (account_Currency a), acc_owner_id = ''system'', acc_currency = account_Currency a,
      acc_balance_minor = 0, acc_system = True, acc_version = 0,
      acc_created_at = x_time X (account_CreatedAt a), acc_updated_at = x_time X (account_CreatedAt a)\<rparr>"

text \<open>\<^verbatim>\<open>SELECT ... FROM accounts WHERE id = $1 FOR UPDATE\<close>\<close>

definition select_account :: "go_string \<Rightarrow> account_row stmt" where
  "select_account aid d =
     (if \<not> valid_text aid then Inl encoding_error
      else (case lookup acc_id aid (db_accounts d) of None \<Rightarrow> Inl ErrNoRows | Some r \<Rightarrow> Inr (r, d)))"

definition new_posting :: "externals \<Rightarrow> go_string \<Rightarrow> go_string \<Rightarrow> go_string \<Rightarrow> int64 \<Rightarrow> time \<Rightarrow> int64 \<Rightarrow> posting_row" where
  "new_posting X pid tid aid amt now sq =
     \<lparr>po_id = pid, po_transaction_id = tid, po_account_id = aid, po_amount_minor = amt, po_sequence_no = sq,
      po_created_at = x_time X now\<rparr>"

text \<open>\<^verbatim>\<open>INSERT INTO postings\<close> for both sides, with the numbers that the sequence gives.\<close>

definition post_pair ::
  "externals \<Rightarrow> attempt \<Rightarrow> go_string \<times> go_string \<Rightarrow> go_string \<Rightarrow> go_string \<times> int64 \<Rightarrow> go_string \<times> int64 \<Rightarrow> time \<Rightarrow> unit stmt" where
  "post_pair X at ids tid p q now d =
     insert_postings (new_posting X (fst ids) tid (fst p) (snd p) now (at_seq at d 0))
       (new_posting X (snd ids) tid (fst q) (snd q) now (at_seq at d 1)) d"

definition opening_row :: "externals \<Rightarrow> create_account_input \<Rightarrow> transaction_row" where
  "opening_row X inp =
     \<lparr>jt_id = cai_OpeningTransactionID inp, jt_kind = ''opening'', jt_idempotency_key = None,
      jt_actor_id = audit_ActorID (cai_Audit inp), jt_currency = account_Currency (cai_Account inp),
      jt_description = ''Opening balance'', jt_expected_postings = 2,
      jt_created_at = x_time X (account_CreatedAt (cai_Account inp))\<rparr>"

definition opening_tx :: "externals \<Rightarrow> attempt \<Rightarrow> create_account_input \<Rightarrow> unit stmt" where
  "opening_tx X at inp =
     (let a = cai_Account inp; now = account_CreatedAt a; systemID = pg_systemAccountID (account_Currency a) in
      bind_stmt (exec at 1 (insert_account True (system_account_row X a))) (\<lambda>_.
      bind_stmt (exec at 2 (select_account systemID)) (\<lambda>sys.
      if \<not> acc_system sys \<or> acc_owner_id sys \<noteq> ''system'' \<or> acc_currency sys \<noteq> account_Currency a
        then throw ErrInvalidInput
      else if acc_balance_minor sys <s MinInt64 + account_BalanceMinor a then throw ErrInvalidInput else
      bind_stmt (exec at 3 (update_account systemID (acc_balance_minor sys - account_BalanceMinor a) (x_time X now))) (\<lambda>_.
      bind_stmt (exec at 4 (insert_transaction (opening_row X inp))) (\<lambda>_.
      exec at 5 (post_pair X at (cai_OpeningPostingIDs inp) (cai_OpeningTransactionID inp)
        (account_ID a, account_BalanceMinor a) (systemID, - account_BalanceMinor a) now))))))"

definition createAccountTx :: "externals \<Rightarrow> create_account_input \<Rightarrow> attempt \<Rightarrow> unit stmt" where
  "createAccountTx X inp at =
     bind_stmt (exec at 0 (insert_account False (new_account_row X (cai_Account inp)))) (\<lambda>_.
     bind_stmt (if 0 <s account_BalanceMinor (cai_Account inp) then opening_tx X at inp else return_stmt ()) (\<lambda>_.
     insertAudit X at 6 (cai_Audit inp)))"

definition pg_CreateAccount :: "externals \<Rightarrow> call_env \<Rightarrow> create_account_input \<Rightarrow> db \<Rightarrow> error option \<times> db" where
  "pg_CreateAccount X env inp d =
     (case validateCreateAccount inp of
        Some e \<Rightarrow> (Some e, d)
      | None \<Rightarrow> (case retry_loop env isRetryable (createAccountTx X inp) 0 maxRetries d of
          (Inl e, d') \<Rightarrow> (Some e, d') | (Inr _, d') \<Rightarrow> (None, d')))"

section \<open>Transfers\<close>

definition validateTransfer :: "apply_transfer_input \<Rightarrow> error option" where
  "validateTransfer inp =
     (let t = ati_Transfer inp; i = transfer_Intent t; p0 = fst (ati_PostingIDs inp); p1 = snd (ati_PostingIDs inp) in
      if transfer_ID t = [] \<or> 128 < length (transfer_ID t) \<or>
         length (transfer_IdempotencyKey t) < 8 \<or> 128 < length (transfer_IdempotencyKey t) \<or>
         transfer_ActorID t = [] \<or> 128 < length (transfer_ActorID t) \<or> IsZero (transfer_CreatedAt t) \<or>
         intent_FromAccountID i = [] \<or> 128 < length (intent_FromAccountID i) \<or>
         intent_ToAccountID i = [] \<or> 128 < length (intent_ToAccountID i) \<or>
         intent_AmountMinor i \<le>s 0 \<or> 200 < RuneCountInString (intent_Description i) then Some ErrInvalidInput
      else (case ValidateCurrency (transfer_Currency t) of Some e \<Rightarrow> Some e | None \<Rightarrow>
      if p0 = [] \<or> p1 = [] \<or> p0 = p1 then Some ErrInvalidInput
      else (case ValidateAuditRecord (ati_Audit inp) (transfer_ActorID t) (transfer_ID t) of Some e \<Rightarrow> Some e | None \<Rightarrow>
        (case ati_Risk inp of None \<Rightarrow> None | Some r \<Rightarrow> ValidateRiskEvent r (transfer_ID t)))))"

text \<open>\<^verbatim>\<open>transferFingerprint\<close>: encoding the struct cannot fail.\<close>

definition intent_json :: "transfer_intent \<Rightarrow> go_string" where
  "intent_json i = json_object
     [(''from_account_id'', json_string (intent_FromAccountID i)), (''to_account_id'', json_string (intent_ToAccountID i)),
      (''amount_minor'', format_int (sint (intent_AmountMinor i))), (''description'', json_string (intent_Description i))]"

definition transferFingerprint :: "transfer \<Rightarrow> byte list" where
  "transferFingerprint t = Sum256 (bytes_of (json_object
     [(''actor_id'', json_string (transfer_ActorID t)), (''intent'', intent_json (transfer_Intent t))]))"

text \<open>The join of \<^verbatim>\<open>findIdempotentTransfer\<close>: the transaction of the scope with its intent.\<close>

definition stored_transfer :: "go_string \<Rightarrow> transaction_row \<Rightarrow> intent_row \<Rightarrow> transfer" where
  "stored_transfer key jt ti =
     \<lparr>transfer_ID = jt_id jt, transfer_IdempotencyKey = key,
      transfer_Intent = \<lparr>intent_FromAccountID = ti_from_account_id ti, intent_ToAccountID = ti_to_account_id ti,
        intent_AmountMinor = ti_amount_minor ti, intent_Description = jt_description jt\<rparr>,
      transfer_Currency = jt_currency jt, transfer_ActorID = jt_actor_id jt, transfer_CreatedAt = jt_created_at jt\<rparr>"

definition select_transfer :: "go_string \<Rightarrow> go_string \<Rightarrow> db \<Rightarrow> (transfer \<times> byte list) option" where
  "select_transfer actorID key d =
     (case find (\<lambda>(jt, ti). jt_kind jt = ''transfer'' \<and> jt_actor_id jt = actorID \<and> jt_idempotency_key jt = Some key)
        [(jt, ti). jt \<leftarrow> db_transactions d, ti \<leftarrow> db_intents d, ti_transaction_id ti = jt_id jt] of
        None \<Rightarrow> None
      | Some (jt, ti) \<Rightarrow> Some (stored_transfer key jt ti, ti_request_fingerprint ti))"

definition findIdempotentTransfer :: "attempt \<Rightarrow> go_string \<Rightarrow> go_string \<Rightarrow> transfer option stmt" where
  "findIdempotentTransfer at actorID key = exec at 0 (\<lambda>d.
     if \<not> (valid_text actorID \<and> valid_text key) then Inl encoding_error
     else (case select_transfer actorID key d of
       None \<Rightarrow> Inr (None, d)
     | Some (t, fp) \<Rightarrow> if fp \<noteq> transferFingerprint t then Inl (ErrOther ''fingerprint mismatch'') else Inr (Some t, d)))"

text \<open>
  \<^verbatim>\<open>lockAccounts\<close>: the two customer accounts, in the order of their identifiers. The rows come as a
  map from identifier to account.
\<close>

definition row_account :: "account_row \<Rightarrow> account" where
  "row_account r =
     \<lparr>account_ID = acc_id r, account_OwnerID = acc_owner_id r, account_Currency = acc_currency r,
      account_BalanceMinor = acc_balance_minor r, account_System = acc_system r, account_CreatedAt = acc_created_at r\<rparr>"

definition lockAccounts :: "attempt \<Rightarrow> go_string \<Rightarrow> go_string \<Rightarrow> (go_string \<Rightarrow> account option) stmt" where
  "lockAccounts at firstID secondID = exec at 1 (\<lambda>d.
     if \<not> (valid_text firstID \<and> valid_text secondID) then Inl encoding_error
     else Inr (map_of (map (\<lambda>r. (acc_id r, row_account r))
       (filter (\<lambda>r. acc_id r \<in> {firstID, secondID} \<and> \<not> acc_system r) (db_accounts d))), d))"

text \<open>The writes of \<^verbatim>\<open>applyTransferTx\<close>, for the accounts that it has locked.\<close>

definition risk_row_of :: "externals \<Rightarrow> go_string \<Rightarrow> risk_event \<Rightarrow> risk_row" where
  "risk_row_of X tid ev =
     \<lparr>rk_id = risk_ID ev, rk_event_type = risk_Type ev, rk_severity = risk_Severity ev, rk_transaction_id = tid,
      rk_reason = risk_Reason ev, rk_status = ''pending'', rk_attempts = 0, rk_created_at = x_time X (risk_CreatedAt ev),
      rk_available_at = x_time X (risk_CreatedAt ev), rk_locked_at = None, rk_published_at = None, rk_last_error = None\<rparr>"

definition transfer_row :: "externals \<Rightarrow> transfer \<Rightarrow> go_string \<Rightarrow> transaction_row" where
  "transfer_row X t currency =
     \<lparr>jt_id = transfer_ID t, jt_kind = ''transfer'', jt_idempotency_key = Some (transfer_IdempotencyKey t),
      jt_actor_id = transfer_ActorID t, jt_currency = currency, jt_description = intent_Description (transfer_Intent t),
      jt_expected_postings = 2, jt_created_at = x_time X (transfer_CreatedAt t)\<rparr>"

definition intent_row_of :: "transfer \<Rightarrow> go_string \<Rightarrow> go_string \<Rightarrow> intent_row" where
  "intent_row_of t fromID toID =
     \<lparr>ti_transaction_id = transfer_ID t, ti_from_account_id = fromID, ti_to_account_id = toID,
      ti_amount_minor = intent_AmountMinor (transfer_Intent t), ti_request_fingerprint = transferFingerprint t\<rparr>"

definition write_transfer ::
  "externals \<Rightarrow> attempt \<Rightarrow> apply_transfer_input \<Rightarrow> account \<Rightarrow> account \<Rightarrow> transfer_result stmt" where
  "write_transfer X at inp from to =
     (let t = ati_Transfer inp; amt = intent_AmountMinor (transfer_Intent t); now = transfer_CreatedAt t in
      bind_stmt (exec at 2 (insert_transaction (transfer_row X t (account_Currency from)))) (\<lambda>_.
      bind_stmt (exec at 3 (insert_intent (intent_row_of t (account_ID from) (account_ID to)))) (\<lambda>_.
      bind_stmt (exec at 4 (update_account (account_ID from) (account_BalanceMinor from - amt) (x_time X now))) (\<lambda>_.
      bind_stmt (exec at 5 (update_account (account_ID to) (account_BalanceMinor to + amt) (x_time X now))) (\<lambda>_.
      bind_stmt (exec at 6 (post_pair X at (ati_PostingIDs inp) (transfer_ID t)
        (account_ID from, - amt) (account_ID to, amt) now)) (\<lambda>_.
      bind_stmt (insertAudit X at 7 (ati_Audit inp)) (\<lambda>_.
      bind_stmt (case ati_Risk inp of None \<Rightarrow> return_stmt () | Some ev \<Rightarrow> exec at 8 (insert_risk (risk_row_of X (transfer_ID t) ev))) (\<lambda>_.
      return_stmt \<lparr>result_Transfer = t, result_Replayed = False\<rparr>))))))))"

definition fresh_transfer_tx :: "externals \<Rightarrow> apply_transfer_input \<Rightarrow> attempt \<Rightarrow> transfer_result stmt" where
  "fresh_transfer_tx X inp at =
     (let t = ati_Transfer inp; i = transfer_Intent t in
      if intent_FromAccountID i = intent_ToAccountID i then throw ErrInvalidInput else
      bind_stmt (lockAccounts at (intent_FromAccountID i) (intent_ToAccountID i)) (\<lambda>accounts.
      case (accounts (intent_FromAccountID i), accounts (intent_ToAccountID i)) of
        (Some from, Some to) \<Rightarrow>
          if account_Currency from \<noteq> account_Currency to \<or> account_Currency from \<noteq> transfer_Currency t
            then throw ErrCurrencyMismatch
          else if account_BalanceMinor from <s intent_AmountMinor i then throw ErrInsufficientFunds
          else if MaxInt64 - intent_AmountMinor i <s account_BalanceMinor to then throw ErrInvalidInput
          else write_transfer X at inp from to
      | _ \<Rightarrow> throw ErrNotFound))"

definition applyTransferTx :: "externals \<Rightarrow> apply_transfer_input \<Rightarrow> attempt \<Rightarrow> transfer_result stmt" where
  "applyTransferTx X inp at =
     (let t = ati_Transfer inp in
      bind_stmt (findIdempotentTransfer at (transfer_ActorID t) (transfer_IdempotencyKey t)) (\<lambda>found.
      case found of
        Some existing \<Rightarrow>
          if \<not> TransferIntent_Equal (transfer_Intent existing) (transfer_Intent t) then throw ErrIdempotencyConflict
          else return_stmt \<lparr>result_Transfer = existing, result_Replayed = True\<rparr>
      | None \<Rightarrow> fresh_transfer_tx X inp at))"

definition pg_ApplyTransfer ::
  "externals \<Rightarrow> call_env \<Rightarrow> apply_transfer_input \<Rightarrow> db \<Rightarrow> (error + transfer_result) \<times> db" where
  "pg_ApplyTransfer X env inp d =
     (case validateTransfer inp of
        Some e \<Rightarrow> (Inl e, d)
      | None \<Rightarrow> retry_loop env (\<lambda>e. isRetryable e \<or> isIdempotencyRace e) (applyTransferTx X inp) 0 maxRetries d)"

section \<open>Reads\<close>

text \<open>
  The queries run outside a transaction. Their environment is the error of the connection or the
  context, if any.
\<close>

definition pg_Ping :: "error option \<Rightarrow> error option \<Rightarrow> db \<Rightarrow> error option" where
  "pg_Ping ping query d =
     (case ping of Some e \<Rightarrow> Some e | None \<Rightarrow>
      (case query of Some e \<Rightarrow> Some e | None \<Rightarrow>
       if requiredSchemaVersion \<notin> set (db_schema_migrations d) then Some (ErrOther ''required schema migration is not applied'')
       else None))"

definition pg_GetAccount :: "error option \<Rightarrow> go_string \<Rightarrow> db \<Rightarrow> error + account" where
  "pg_GetAccount fault aid d =
     (case fault of Some e \<Rightarrow> Inl e | None \<Rightarrow>
      if \<not> valid_text aid then Inl encoding_error
      else (case find (\<lambda>r. acc_id r = aid \<and> \<not> acc_system r) (db_accounts d) of
        None \<Rightarrow> Inl ErrNotFound
      | Some r \<Rightarrow> Inr (row_account r)))"

definition pg_normaliseLimit :: "int \<Rightarrow> int" where
  "pg_normaliseLimit limit = (if limit \<le> 0 then 100 else if 1000 < limit then 1000 else limit)"

text \<open>\<^verbatim>\<open>ORDER BY key DESC LIMIT n\<close> and again \<^verbatim>\<open>ORDER BY key\<close>: the last rows of the order.\<close>

definition recent :: "('r \<Rightarrow> 'k :: linorder) \<Rightarrow> int \<Rightarrow> 'r list \<Rightarrow> 'r list" where
  "recent key limit rows = last_n (nat limit) (sort_key key rows)"

definition pg_ListJournal :: "error option \<Rightarrow> int \<Rightarrow> db \<Rightarrow> error + posting list" where
  "pg_ListJournal fault limit d =
     (case fault of Some e \<Rightarrow> Inl e | None \<Rightarrow>
      Inr (map (\<lambda>(p, jt). \<lparr>posting_ID = po_id p, posting_TransactionID = po_transaction_id p,
          posting_AccountID = po_account_id p, posting_AmountMinor = po_amount_minor p, posting_Currency = jt_currency jt,
          posting_Sequence = po_sequence_no p, posting_CreatedAt = po_created_at p\<rparr>)
        (recent (\<lambda>(p, jt). sint (po_sequence_no p)) (pg_normaliseLimit limit)
          [(p, jt). p \<leftarrow> db_postings d, jt \<leftarrow> db_transactions d, jt_id jt = po_transaction_id p])))"

definition pg_ListAudit :: "error option \<Rightarrow> int \<Rightarrow> db \<Rightarrow> error + audit_record list" where
  "pg_ListAudit fault limit d =
     (case fault of Some e \<Rightarrow> Inl e | None \<Rightarrow>
      Inr (map (\<lambda>r. \<lparr>audit_ID = au_id r, audit_ActorID = au_actor_id r, audit_Action = au_action r,
          audit_ResourceID = au_resource_id r, audit_Outcome = au_outcome r, audit_Metadata = Some (au_metadata r),
          audit_CreatedAt = au_created_at r\<rparr>)
        (recent (\<lambda>r. sint (au_sequence_no r)) (pg_normaliseLimit limit) (db_audit d))))"

text \<open>\<^verbatim>\<open>ORDER BY created_at, id\<close>, by two stable sorts.\<close>

definition row_event :: "risk_row \<Rightarrow> risk_event" where
  "row_event r = \<lparr>risk_ID = rk_id r, risk_Type = rk_event_type r, risk_Severity = rk_severity r,
     risk_TransferID = rk_transaction_id r, risk_Reason = rk_reason r, risk_CreatedAt = rk_created_at r\<rparr>"

definition pg_ListRiskEvents :: "externals \<Rightarrow> error option \<Rightarrow> int \<Rightarrow> db \<Rightarrow> error + risk_event list" where
  "pg_ListRiskEvents X fault limit d =
     (case fault of Some e \<Rightarrow> Inl e | None \<Rightarrow>
      Inr (map row_event (last_n (nat (pg_normaliseLimit limit))
        (sort_key rk_created_at (sort_key (\<lambda>r. x_rank X (rk_id r)) (db_risk d))))))"

section \<open>The adapter as a repository\<close>

text \<open>
  The adapter with a server that works: a call fails at its first access to the database when its
  context is done, and otherwise every statement and the first commit succeed as the schema has it.
  \<open>sq\<close> are the values of the identity sequences.
\<close>

definition calm :: "(db \<Rightarrow> nat \<Rightarrow> int64) \<Rightarrow> ctx \<Rightarrow> call_env" where
  "calm sq c =
     \<lparr>ce_attempt = (\<lambda>_. \<lparr>at_begin = c, at_fault = (\<lambda>_. None), at_seq = sq, at_commit = CommitOK, at_wait = (\<lambda>_. None)\<rparr>),
      ce_others = (\<lambda>_ d. d)\<rparr>"

definition pg_repository :: "externals \<Rightarrow> (db \<Rightarrow> nat \<Rightarrow> int64) \<Rightarrow> db repository" where
  "pg_repository X sq =
     \<lparr>repo_Ping = (\<lambda>c d. (pg_Ping c c d, d)),
      repo_CreateAccount = (\<lambda>c inp d. pg_CreateAccount X (calm sq c) inp d),
      repo_GetAccount = (\<lambda>c aid d. (pg_GetAccount c aid d, d)),
      repo_ApplyTransfer = (\<lambda>c inp d. pg_ApplyTransfer X (calm sq c) inp d),
      repo_ListJournal = (\<lambda>c limit d. (pg_ListJournal c limit d, d)),
      repo_ListAudit = (\<lambda>c limit d. (pg_ListAudit c limit d, d)),
      repo_ListRiskEvents = (\<lambda>c limit d. (pg_ListRiskEvents X c limit d, d))\<rparr>"

end
