(* ===== verification/Pg_Commit.thy ===== *)
theory Pg_Commit
  imports Pg_Store
begin

text \<open>
  What the transactions of the adapter write. \<open>transfer_written\<close> and \<open>account_written\<close> are the
  databases after a successful body, and the lemmas at the end say that an attempt, whatever its
  faults, leaves the database as it was or commits exactly one of these.
\<close>

section \<open>Tables\<close>

lemma lookup_Some: "lookup key k rows = Some r \<Longrightarrow> r \<in> set rows \<and> key r = k"
  by (auto simp: lookup_def find_Some_iff)

lemma lookup_None: "lookup key k rows = None \<longleftrightarrow> k \<notin> key ` set rows"
  by (auto simp: lookup_def find_None_iff)

lemma lookup_append [simp]:
  "lookup key k (xs @ ys) = (case lookup key k xs of None \<Rightarrow> lookup key k ys | Some r \<Rightarrow> Some r)"
  by (induction xs) (simp_all add: lookup_def)

lemma lookup_single [simp]: "lookup key k [r] = (if key r = k then Some r else None)"
  by (simp add: lookup_def)

lemma lookup_Nil [simp]: "lookup key k [] = None"
  by (simp add: lookup_def)

lemma lookup_distinct: "distinct (map key rows) \<Longrightarrow> r \<in> set rows \<Longrightarrow> lookup key (key r) rows = Some r"
  by (induction rows) (auto simp: lookup_def)

lemma lookup_map: "(\<And>r. key (f r) = key r) \<Longrightarrow> lookup key k (map f rows) = map_option f (lookup key k rows)"
  by (induction rows) (simp_all add: lookup_def)

lemma po_sum_simps [simp]: "po_sum [] = 0" "po_sum (p # ps) = sint (po_amount_minor p) + po_sum ps"
  "po_sum (ps @ qs) = po_sum ps + po_sum qs"
  by (simp_all add: po_sum_def)

section \<open>Successful statements\<close>

lemma bind_stmt_Inr: "bind_stmt m f d = Inr y \<longleftrightarrow> (\<exists>x d1. m d = Inr (x, d1) \<and> f x d1 = Inr y)"
  by (auto simp: bind_stmt_def split: sum.splits)

lemma exec_Inr: "exec at k m d = Inr y \<longleftrightarrow> at_fault at k = None \<and> m d = Inr y"
  by (auto simp: exec_def split: option.splits)

lemma throw_Inr [simp]: "throw e d = Inr y \<longleftrightarrow> False"
  by (simp add: throw_def)

lemma return_stmt_Inr [simp]: "return_stmt x d = Inr (y, d') \<longleftrightarrow> y = x \<and> d' = d"
  by (auto simp: return_stmt_def)

lemma run_tx_cases:
  assumes "run_tx at body d = (r, d')"
  obtains (failed) e where "r = Inl e" "d' = d"
  | (replied) x where "body d = Inr (x, d')" "r = Inr x" "at_commit at = CommitOK"
  | (lost) x e where "body d = Inr (x, d')" "r = Inl e" "at_commit at = CommitLost e"
  using assms by (auto simp: run_tx_def split: sum.splits commit_reply.splits option.splits)

definition account_texts :: "account_row \<Rightarrow> bool" where
  "account_texts r \<longleftrightarrow> valid_text (acc_id r) \<and> valid_text (acc_owner_id r) \<and> valid_text (acc_currency r)"

lemma insert_account_Inr:
  "insert_account b r d = Inr (u, d') \<longleftrightarrow> account_texts r \<and> account_check r \<and>
     (case lookup acc_id (acc_id r) (db_accounts d) of
        None \<Rightarrow> d' = d\<lparr>db_accounts := db_accounts d @ [r]\<rparr>
      | Some _ \<Rightarrow> b \<and> d' = d)"
  by (auto simp: insert_account_def account_texts_def split: option.split)

definition write_balance :: "go_string \<Rightarrow> int64 \<Rightarrow> time \<Rightarrow> account_row list \<Rightarrow> account_row list" where
  "write_balance aid bal now rows = map (\<lambda>x. if acc_id x = aid then set_balance bal now x else x) rows"

lemma update_account_Inr:
  "update_account aid bal now d = Inr (u, d') \<longleftrightarrow> valid_text aid \<and>
     (case lookup acc_id aid (db_accounts d) of
        None \<Rightarrow> d' = d
      | Some r \<Rightarrow> fits64 (sint (acc_version r) + 1) \<and> account_check (set_balance bal now r) \<and>
          d' = d\<lparr>db_accounts := write_balance aid bal now (db_accounts d)\<rparr>)"
  by (auto simp: update_account_def write_balance_def split: option.split)

lemma lookup_write_balance:
  "lookup acc_id k (write_balance aid bal now rows) =
     (if k = aid then map_option (set_balance bal now) (lookup acc_id k rows) else lookup acc_id k rows)"
proof -
  have "lookup acc_id k (write_balance aid bal now rows) =
      map_option (\<lambda>x. if acc_id x = aid then set_balance bal now x else x) (lookup acc_id k rows)"
    unfolding write_balance_def by (rule lookup_map) (simp add: set_balance_def)
  also have "\<dots> = (if k = aid then map_option (set_balance bal now) (lookup acc_id k rows) else lookup acc_id k rows)"
    by (cases "lookup acc_id k rows") (auto dest: lookup_Some)
  finally show ?thesis .
qed

definition transaction_texts :: "transaction_row \<Rightarrow> bool" where
  "transaction_texts r \<longleftrightarrow> valid_text (jt_id r) \<and> (\<forall>k \<in> set_option (jt_idempotency_key r). valid_text k) \<and>
     valid_text (jt_actor_id r) \<and> valid_text (jt_currency r) \<and> valid_text (jt_description r)"

definition key_free :: "transaction_row \<Rightarrow> transaction_row list \<Rightarrow> bool" where
  "key_free r rows \<longleftrightarrow> jt_idempotency_key r = None \<or>
     (\<forall>x \<in> set rows. \<not> (jt_actor_id x = jt_actor_id r \<and> jt_idempotency_key x = jt_idempotency_key r))"

lemma insert_transaction_Inr:
  "insert_transaction r d = Inr (u, d') \<longleftrightarrow> transaction_texts r \<and> transaction_check r \<and>
     lookup jt_id (jt_id r) (db_transactions d) = None \<and> key_free r (db_transactions d) \<and>
     d' = d\<lparr>db_transactions := db_transactions d @ [r]\<rparr>"
  by (auto simp: insert_transaction_def transaction_texts_def key_free_def)

definition posting_free :: "posting_row \<Rightarrow> posting_row list \<Rightarrow> bool" where
  "posting_free r rows \<longleftrightarrow> posting_check r \<and>
     (\<forall>x \<in> set rows. po_id x \<noteq> po_id r \<and> po_sequence_no x \<noteq> po_sequence_no r \<and>
        \<not> (po_transaction_id x = po_transaction_id r \<and> po_account_id x = po_account_id r))"

lemma insert_posting_row_Inr:
  "insert_posting_row r d = Inr (u, d') \<longleftrightarrow> posting_free r (db_postings d) \<and> d' = d\<lparr>db_postings := db_postings d @ [r]\<rparr>"
  by (auto simp: insert_posting_row_def posting_free_def lookup_None image_iff)

lemma posting_fkeys_None:
  "posting_fkeys d r = None \<longleftrightarrow> lookup jt_id (po_transaction_id r) (db_transactions d) \<noteq> None \<and>
     lookup acc_id (po_account_id r) (db_accounts d) \<noteq> None"
  by (auto simp: posting_fkeys_def)

definition posting_texts :: "posting_row \<Rightarrow> bool" where
  "posting_texts r \<longleftrightarrow> valid_text (po_id r) \<and> valid_text (po_transaction_id r) \<and> valid_text (po_account_id r)"

lemma insert_postings_Inr:
  "insert_postings p q d = Inr (u, d') \<longleftrightarrow> posting_texts p \<and> posting_texts q \<and>
     posting_free p (db_postings d) \<and> posting_free q (db_postings d @ [p]) \<and>
     posting_fkeys d p = None \<and> posting_fkeys d q = None \<and>
     d' = d\<lparr>db_postings := db_postings d @ [p, q]\<rparr>"
proof -
  have fk: "posting_fkeys (d\<lparr>db_postings := ps\<rparr>) r = posting_fkeys d r" for ps r
    by (simp add: posting_fkeys_def)
  have "insert_postings p q d = Inr (u, d') \<longleftrightarrow> posting_texts p \<and> posting_texts q \<and>
     (\<exists>d1. insert_posting_row p d = Inr ((), d1) \<and> (\<exists>d2. insert_posting_row q d1 = Inr ((), d2) \<and>
       posting_fkeys d2 p = None \<and> posting_fkeys d2 q = None \<and> d' = d2))"
    by (auto simp: insert_postings_def posting_texts_def split: sum.splits option.splits)
  then show ?thesis by (auto simp: insert_posting_row_Inr fk)
qed

lemma insert_intent_Inr:
  "insert_intent r d = Inr (u, d') \<longleftrightarrow>
     valid_text (ti_transaction_id r) \<and> valid_text (ti_from_account_id r) \<and> valid_text (ti_to_account_id r) \<and>
     intent_check r \<and> lookup ti_transaction_id (ti_transaction_id r) (db_intents d) = None \<and>
     lookup jt_id (ti_transaction_id r) (db_transactions d) \<noteq> None \<and>
     lookup acc_id (ti_from_account_id r) (db_accounts d) \<noteq> None \<and>
     lookup acc_id (ti_to_account_id r) (db_accounts d) \<noteq> None \<and>
     d' = d\<lparr>db_intents := db_intents d @ [r]\<rparr>"
  by (auto simp: insert_intent_def)

definition audit_texts :: "audit_row \<Rightarrow> bool" where
  "audit_texts r \<longleftrightarrow> valid_text (au_id r) \<and> valid_text (au_actor_id r) \<and> valid_text (au_action r) \<and>
     valid_text (au_resource_id r) \<and> valid_text (au_outcome r)"

definition audit_free :: "audit_row \<Rightarrow> audit_row list \<Rightarrow> bool" where
  "audit_free r rows \<longleftrightarrow> audit_check r \<and> (\<forall>x \<in> set rows. au_sequence_no x \<noteq> au_sequence_no r \<and> au_id x \<noteq> au_id r)"

lemma insert_audit_row_Inr:
  "insert_audit_row r d = Inr (u, d') \<longleftrightarrow> audit_texts r \<and> audit_free r (db_audit d) \<and>
     d' = d\<lparr>db_audit := db_audit d @ [r]\<rparr>"
  by (auto simp: insert_audit_row_def audit_texts_def audit_free_def lookup_None image_iff)

definition risk_texts :: "risk_row \<Rightarrow> bool" where
  "risk_texts r \<longleftrightarrow> valid_text (rk_id r) \<and> valid_text (rk_event_type r) \<and> valid_text (rk_severity r) \<and>
     valid_text (rk_transaction_id r) \<and> valid_text (rk_reason r)"

lemma insert_risk_Inr:
  "insert_risk r d = Inr (u, d') \<longleftrightarrow> risk_texts r \<and> risk_check r \<and> lookup rk_id (rk_id r) (db_risk d) = None \<and>
     lookup jt_id (rk_transaction_id r) (db_transactions d) \<noteq> None \<and> d' = d\<lparr>db_risk := db_risk d @ [r]\<rparr>"
  by (auto simp: insert_risk_def risk_texts_def)

section \<open>A transfer\<close>

lemma insertAudit_Inr:
  "insertAudit X at k r d = Inr (u, d') \<longleftrightarrow>
     (\<exists>m. x_metadata X (case audit_Metadata r of None \<Rightarrow> [] | Some m \<Rightarrow> m) = Inr m \<and> at_fault at k = None \<and>
        audit_texts (audit_row_of X (at_seq at d 2) m r) \<and> audit_free (audit_row_of X (at_seq at d 2) m r) (db_audit d) \<and>
        d' = d\<lparr>db_audit := db_audit d @ [audit_row_of X (at_seq at d 2) m r]\<rparr>)"
  by (auto simp: insertAudit_def exec_Inr insert_audit_row_Inr split: sum.splits)

text \<open>The postings of a transfer, for the numbers that the sequence gave.\<close>

definition transfer_pair :: "externals \<Rightarrow> apply_transfer_input \<Rightarrow> account \<Rightarrow> account \<Rightarrow> int64 \<Rightarrow> int64 \<Rightarrow> posting_row \<times> posting_row" where
  "transfer_pair X inp from to sq0 sq1 =
     (let t = ati_Transfer inp; amt = intent_AmountMinor (transfer_Intent t) in
      (new_posting X (fst (ati_PostingIDs inp)) (transfer_ID t) (account_ID from) (- amt) (transfer_CreatedAt t) sq0,
       new_posting X (snd (ati_PostingIDs inp)) (transfer_ID t) (account_ID to) amt (transfer_CreatedAt t) sq1))"

definition transfer_written ::
  "externals \<Rightarrow> apply_transfer_input \<Rightarrow> account \<Rightarrow> account \<Rightarrow> posting_row \<times> posting_row \<Rightarrow> audit_row \<Rightarrow> db \<Rightarrow> db" where
  "transfer_written X inp from to pq ar d =
     (let t = ati_Transfer inp; amt = intent_AmountMinor (transfer_Intent t); now = x_time X (transfer_CreatedAt t) in
      d\<lparr>db_transactions := db_transactions d @ [transfer_row X t (account_Currency from)],
        db_intents := db_intents d @ [intent_row_of t (account_ID from) (account_ID to)],
        db_accounts := write_balance (account_ID to) (account_BalanceMinor to + amt) now
          (write_balance (account_ID from) (account_BalanceMinor from - amt) now (db_accounts d)),
        db_postings := db_postings d @ [fst pq, snd pq],
        db_audit := db_audit d @ [ar],
        db_risk := db_risk d @ (case ati_Risk inp of None \<Rightarrow> [] | Some ev \<Rightarrow> [risk_row_of X (transfer_ID t) ev])\<rparr>)"

text \<open>The conditions under which the statements of \<open>write_transfer\<close> succeed.\<close>

definition transfer_writable ::
  "externals \<Rightarrow> apply_transfer_input \<Rightarrow> account \<Rightarrow> account \<Rightarrow> account_row \<Rightarrow> account_row \<Rightarrow> posting_row \<times> posting_row \<Rightarrow>
     audit_row \<Rightarrow> db \<Rightarrow> bool" where
  "transfer_writable X inp from to rf rt pq ar d \<longleftrightarrow>
     (let t = ati_Transfer inp; amt = intent_AmountMinor (transfer_Intent t); now = x_time X (transfer_CreatedAt t);
          jt = transfer_row X t (account_Currency from) in
      transaction_texts jt \<and> transaction_check jt \<and> lookup jt_id (jt_id jt) (db_transactions d) = None \<and>
      key_free jt (db_transactions d) \<and>
      valid_text (account_ID from) \<and> valid_text (account_ID to) \<and>
      intent_check (intent_row_of t (account_ID from) (account_ID to)) \<and>
      lookup ti_transaction_id (transfer_ID t) (db_intents d) = None \<and>
      fits64 (sint (acc_version rf) + 1) \<and> account_check (set_balance (account_BalanceMinor from - amt) now rf) \<and>
      fits64 (sint (acc_version rt) + 1) \<and> account_check (set_balance (account_BalanceMinor to + amt) now rt) \<and>
      posting_texts (fst pq) \<and> posting_texts (snd pq) \<and>
      posting_free (fst pq) (db_postings d) \<and> posting_free (snd pq) (db_postings d @ [fst pq]) \<and>
      audit_texts ar \<and> audit_free ar (db_audit d) \<and>
      (\<forall>ev \<in> set_option (ati_Risk inp). risk_texts (risk_row_of X (transfer_ID t) ev) \<and>
         risk_check (risk_row_of X (transfer_ID t) ev) \<and> lookup rk_id (risk_ID ev) (db_risk d) = None))"

lemma write_transfer_Inr:
  assumes "lookup acc_id (account_ID from) (db_accounts d) = Some rf" "lookup acc_id (account_ID to) (db_accounts d) = Some rt"
    and "account_ID from \<noteq> account_ID to"
    and "write_transfer X at inp from to d = Inr (res, d')"
  shows "\<exists>sq0 sq1 sq2 m. let pq = transfer_pair X inp from to sq0 sq1; ar = audit_row_of X sq2 m (ati_Audit inp) in
    transfer_writable X inp from to rf rt pq ar d \<and> d' = transfer_written X inp from to pq ar d \<and>
    res = \<lparr>result_Transfer = ati_Transfer inp, result_Replayed = False\<rparr>"
proof -
  let ?t = "ati_Transfer inp" and ?amt = "intent_AmountMinor (transfer_Intent (ati_Transfer inp))"
  let ?now = "x_time X (transfer_CreatedAt (ati_Transfer inp))"
  from assms(4) obtain d1 d2 d3 d4 d5 d6 where
    s: "insert_transaction (transfer_row X ?t (account_Currency from)) d = Inr ((), d1)"
      "insert_intent (intent_row_of ?t (account_ID from) (account_ID to)) d1 = Inr ((), d2)"
      "update_account (account_ID from) (account_BalanceMinor from - ?amt) ?now d2 = Inr ((), d3)"
      "update_account (account_ID to) (account_BalanceMinor to + ?amt) ?now d3 = Inr ((), d4)"
      "post_pair X at (ati_PostingIDs inp) (transfer_ID ?t) (account_ID from, - ?amt) (account_ID to, ?amt)
         (transfer_CreatedAt ?t) d4 = Inr ((), d5)"
      "insertAudit X at 7 (ati_Audit inp) d5 = Inr ((), d6)"
      "(case ati_Risk inp of None \<Rightarrow> return_stmt ()
        | Some ev \<Rightarrow> exec at 8 (insert_risk (risk_row_of X (transfer_ID ?t) ev))) d6 = Inr ((), d')"
    and res: "res = \<lparr>result_Transfer = ?t, result_Replayed = False\<rparr>"
    by (auto simp: write_transfer_def bind_stmt_Inr exec_Inr Let_def)
  have d12: "d2 = d\<lparr>db_transactions := db_transactions d @ [transfer_row X ?t (account_Currency from)],
      db_intents := db_intents d @ [intent_row_of ?t (account_ID from) (account_ID to)]\<rparr>"
    using s(1,2) by (simp add: insert_transaction_Inr insert_intent_Inr)
  have d4: "d4 = d2\<lparr>db_accounts := write_balance (account_ID to) (account_BalanceMinor to + ?amt) ?now
      (write_balance (account_ID from) (account_BalanceMinor from - ?amt) ?now (db_accounts d))\<rparr>"
    using s(3,4) assms(1-3) by (simp add: d12 update_account_Inr lookup_write_balance)
  define sq0 sq1 sq2 where sq: "sq0 = at_seq at d4 0" "sq1 = at_seq at d4 1" "sq2 = at_seq at d5 2"
  define pq where "pq = transfer_pair X inp from to sq0 sq1"
  have pq: "insert_postings (fst pq) (snd pq) d4 = Inr ((), d5)"
    using s(5) by (simp add: post_pair_def pq_def transfer_pair_def sq Let_def)
  obtain m where m: "audit_texts (audit_row_of X sq2 m (ati_Audit inp))"
      "audit_free (audit_row_of X sq2 m (ati_Audit inp)) (db_audit d5)"
      "d6 = d5\<lparr>db_audit := db_audit d5 @ [audit_row_of X sq2 m (ati_Audit inp)]\<rparr>"
    using s(6) unfolding insertAudit_Inr sq by blast
  define ar where "ar = audit_row_of X sq2 m (ati_Audit inp)"
  have d6: "d6 = d4\<lparr>db_postings := db_postings d @ [fst pq, snd pq], db_audit := db_audit d @ [ar]\<rparr>"
    using pq m(3) by (simp add: insert_postings_Inr ar_def d4 d12)
  have d': "d' = d6\<lparr>db_risk := db_risk d @ (case ati_Risk inp of None \<Rightarrow> [] | Some ev \<Rightarrow> [risk_row_of X (transfer_ID ?t) ev])\<rparr>"
    using s(7) by (auto simp: exec_Inr insert_risk_Inr d6 d4 d12 split: option.splits)
  have "d' = transfer_written X inp from to pq ar d"
    by (simp add: transfer_written_def d' d6 d4 d12 Let_def)
  moreover have "transfer_writable X inp from to rf rt pq ar d"
    unfolding transfer_writable_def Let_def
    using s(1-4,7) pq m(1,2) assms(1-3)
    by (auto simp: insert_transaction_Inr insert_intent_Inr update_account_Inr insert_postings_Inr exec_Inr insert_risk_Inr
        lookup_write_balance ar_def d6 d4 d12 intent_row_of_def risk_row_of_def split: option.splits)
  ultimately show ?thesis using res by (auto simp: pq_def ar_def Let_def)
qed

section \<open>Opening an account\<close>

definition with_system :: "externals \<Rightarrow> account \<Rightarrow> account_row list \<Rightarrow> account_row list" where
  "with_system X a rows =
     (if lookup acc_id (pg_systemAccountID (account_Currency a)) rows = None then rows @ [system_account_row X a] else rows)"

definition system_row :: "externals \<Rightarrow> account \<Rightarrow> account_row list \<Rightarrow> account_row" where
  "system_row X a rows =
     (case lookup acc_id (pg_systemAccountID (account_Currency a)) rows of None \<Rightarrow> system_account_row X a | Some r \<Rightarrow> r)"

lemma lookup_with_system [simp]:
  "lookup acc_id (pg_systemAccountID (account_Currency a)) (with_system X a rows) = Some (system_row X a rows)"
  by (auto simp: with_system_def system_row_def system_account_row_def split: option.split)

definition opening_pair :: "externals \<Rightarrow> create_account_input \<Rightarrow> int64 \<Rightarrow> int64 \<Rightarrow> posting_row \<times> posting_row" where
  "opening_pair X inp sq0 sq1 =
     (let a = cai_Account inp; tid = cai_OpeningTransactionID inp in
      (new_posting X (fst (cai_OpeningPostingIDs inp)) tid (account_ID a) (account_BalanceMinor a) (account_CreatedAt a) sq0,
       new_posting X (snd (cai_OpeningPostingIDs inp)) tid (pg_systemAccountID (account_Currency a)) (- account_BalanceMinor a)
         (account_CreatedAt a) sq1))"

definition opening_written ::
  "externals \<Rightarrow> create_account_input \<Rightarrow> posting_row \<times> posting_row \<Rightarrow> db \<Rightarrow> db" where
  "opening_written X inp pq d =
     (let a = cai_Account inp in
      d\<lparr>db_accounts := write_balance (pg_systemAccountID (account_Currency a))
          (acc_balance_minor (system_row X a (db_accounts d)) - account_BalanceMinor a) (x_time X (account_CreatedAt a))
          (with_system X a (db_accounts d)),
        db_transactions := db_transactions d @ [opening_row X inp],
        db_postings := db_postings d @ [fst pq, snd pq]\<rparr>)"

definition account_written ::
  "externals \<Rightarrow> create_account_input \<Rightarrow> posting_row \<times> posting_row \<Rightarrow> audit_row \<Rightarrow> db \<Rightarrow> db" where
  "account_written X inp pq ar d =
     (let d1 = d\<lparr>db_accounts := db_accounts d @ [new_account_row X (cai_Account inp)]\<rparr>;
          d2 = (if 0 < sint (account_BalanceMinor (cai_Account inp)) then opening_written X inp pq d1 else d1) in
      d2\<lparr>db_audit := db_audit d @ [ar]\<rparr>)"

definition opening_writable :: "externals \<Rightarrow> create_account_input \<Rightarrow> posting_row \<times> posting_row \<Rightarrow> db \<Rightarrow> bool" where
  "opening_writable X inp pq d \<longleftrightarrow>
     (let a = cai_Account inp; sys = system_row X a (db_accounts d); now = x_time X (account_CreatedAt a) in
      account_texts (system_account_row X a) \<and> account_check (system_account_row X a) \<and>
      acc_system sys \<and> acc_owner_id sys = ''system'' \<and> acc_currency sys = account_Currency a \<and>
      - (2 ^ 63) + sint (account_BalanceMinor a) \<le> sint (acc_balance_minor sys) \<and>
      fits64 (sint (acc_version sys) + 1) \<and>
      account_check (set_balance (acc_balance_minor sys - account_BalanceMinor a) now sys) \<and>
      transaction_texts (opening_row X inp) \<and> transaction_check (opening_row X inp) \<and>
      lookup jt_id (cai_OpeningTransactionID inp) (db_transactions d) = None \<and>
      posting_texts (fst pq) \<and> posting_texts (snd pq) \<and>
      posting_free (fst pq) (db_postings d) \<and> posting_free (snd pq) (db_postings d @ [fst pq]))"

lemma opening_tx_Inr:
  assumes "0 < sint (account_BalanceMinor (cai_Account inp))" "opening_tx X at inp d = Inr (u, d')"
  shows "\<exists>sq0 sq1. opening_writable X inp (opening_pair X inp sq0 sq1) d \<and>
    d' = opening_written X inp (opening_pair X inp sq0 sq1) d"
proof -
  let ?a = "cai_Account inp" and ?now = "x_time X (account_CreatedAt (cai_Account inp))"
  let ?id = "pg_systemAccountID (account_Currency (cai_Account inp))" and ?sys = "system_row X (cai_Account inp) (db_accounts d)"
  from assms(2) obtain d1 sys d2 d3 d4 where
    s: "insert_account True (system_account_row X ?a) d = Inr ((), d1)" "select_account ?id d1 = Inr (sys, d2)"
      "acc_system sys" "acc_owner_id sys = ''system''" "acc_currency sys = account_Currency ?a"
      "\<not> acc_balance_minor sys <s MinInt64 + account_BalanceMinor ?a"
      "update_account ?id (acc_balance_minor sys - account_BalanceMinor ?a) ?now d2 = Inr ((), d3)"
      "insert_transaction (opening_row X inp) d3 = Inr ((), d4)"
      "post_pair X at (cai_OpeningPostingIDs inp) (cai_OpeningTransactionID inp) (account_ID ?a, account_BalanceMinor ?a)
         (?id, - account_BalanceMinor ?a) (account_CreatedAt ?a) d4 = Inr ((), d')"
    by (auto simp: opening_tx_def bind_stmt_Inr exec_Inr Let_def split: if_splits)
  have d1: "d1 = d\<lparr>db_accounts := with_system X ?a (db_accounts d)\<rparr>"
    using s(1) by (auto simp: insert_account_Inr with_system_def system_account_row_def split: option.splits)
  have d2: "d2 = d1" "sys = ?sys" using s(2) by (auto simp: select_account_def d1 split: if_splits option.splits)
  have d4: "d4 = d1\<lparr>db_accounts := write_balance ?id (acc_balance_minor ?sys - account_BalanceMinor ?a) ?now
      (with_system X ?a (db_accounts d)), db_transactions := db_transactions d @ [opening_row X inp]\<rparr>"
    using s(7,8) by (simp add: update_account_Inr insert_transaction_Inr d1 d2)
  define sq0 sq1 where sq: "sq0 = at_seq at d4 0" "sq1 = at_seq at d4 1"
  define pq where "pq = opening_pair X inp sq0 sq1"
  have pq: "insert_postings (fst pq) (snd pq) d4 = Inr ((), d')"
    using s(9) by (simp add: post_pair_def pq_def opening_pair_def sq Let_def)
  have "d' = opening_written X inp pq d"
    using pq by (simp add: insert_postings_Inr opening_written_def d4 d1 Let_def)
  moreover have "opening_writable X inp pq d"
    unfolding opening_writable_def Let_def
    using s(1,3-8) pq assms(1)
    by (auto simp: insert_account_Inr update_account_Inr insert_transaction_Inr insert_postings_Inr d4 d1 d2 opening_row_def
        int64_simps)
  ultimately show ?thesis using pq_def by blast
qed

definition account_writable ::
  "externals \<Rightarrow> create_account_input \<Rightarrow> posting_row \<times> posting_row \<Rightarrow> audit_row \<Rightarrow> db \<Rightarrow> bool" where
  "account_writable X inp pq ar d \<longleftrightarrow>
     account_texts (new_account_row X (cai_Account inp)) \<and> account_check (new_account_row X (cai_Account inp)) \<and>
     lookup acc_id (account_ID (cai_Account inp)) (db_accounts d) = None \<and>
     (0 < sint (account_BalanceMinor (cai_Account inp)) \<longrightarrow>
        opening_writable X inp pq (d\<lparr>db_accounts := db_accounts d @ [new_account_row X (cai_Account inp)]\<rparr>)) \<and>
     audit_texts ar \<and> audit_free ar (db_audit d)"

lemma createAccountTx_Inr:
  assumes "createAccountTx X inp at d = Inr (u, d')"
  shows "\<exists>sq0 sq1 sq2 m. let pq = opening_pair X inp sq0 sq1; ar = audit_row_of X sq2 m (cai_Audit inp) in
    account_writable X inp pq ar d \<and> d' = account_written X inp pq ar d"
proof -
  let ?a = "cai_Account inp"
  from assms obtain d1 d2 where
    s: "insert_account False (new_account_row X ?a) d = Inr ((), d1)"
      "(if 0 <s account_BalanceMinor ?a then opening_tx X at inp else return_stmt ()) d1 = Inr ((), d2)"
      "insertAudit X at 6 (cai_Audit inp) d2 = Inr (u, d')"
    by (auto simp: createAccountTx_def bind_stmt_Inr exec_Inr)
  have d1: "d1 = d\<lparr>db_accounts := db_accounts d @ [new_account_row X ?a]\<rparr>"
      "account_texts (new_account_row X ?a)" "account_check (new_account_row X ?a)"
      "lookup acc_id (account_ID ?a) (db_accounts d) = None"
    using s(1) by (auto simp: insert_account_Inr new_account_row_def split: option.splits)
  obtain sq0 sq1 where o: "0 < sint (account_BalanceMinor ?a) \<Longrightarrow> opening_writable X inp (opening_pair X inp sq0 sq1) d1"
      "d2 = (if 0 < sint (account_BalanceMinor ?a) then opening_written X inp (opening_pair X inp sq0 sq1) d1 else d1)"
  proof (cases "0 < sint (account_BalanceMinor ?a)")
    case True
    then show ?thesis using opening_tx_Inr [of inp X at d1] s(2) that by (auto simp: int64_simps)
  next
    case False
    then show ?thesis using s(2) that [of 0 0] by (simp add: int64_simps)
  qed
  obtain m where m: "audit_texts (audit_row_of X (at_seq at d2 2) m (cai_Audit inp))"
      "audit_free (audit_row_of X (at_seq at d2 2) m (cai_Audit inp)) (db_audit d2)"
      "d' = d2\<lparr>db_audit := db_audit d2 @ [audit_row_of X (at_seq at d2 2) m (cai_Audit inp)]\<rparr>"
    using s(3) unfolding insertAudit_Inr by blast
  have "db_audit d2 = db_audit d" using o(2) d1(1) by (simp add: opening_written_def Let_def)
  then have "account_writable X inp (opening_pair X inp sq0 sq1) (audit_row_of X (at_seq at d2 2) m (cai_Audit inp)) d \<and>
      d' = account_written X inp (opening_pair X inp sq0 sq1) (audit_row_of X (at_seq at d2 2) m (cai_Audit inp)) d"
    using o m d1 by (simp add: account_writable_def account_written_def Let_def)
  then show ?thesis unfolding Let_def by blast
qed

end
