(* ===== verification/Pg_Invariant.thy ===== *)
theory Pg_Invariant
  imports Pg_Commit
begin

text \<open>
  The invariant of the database under the transactions of the adapter, one definition per group of
  tables, and its preservation. It holds whatever the faults of the attempts are, because an attempt
  leaves the database as it was or commits one of the two written databases.
\<close>

definition account_postings :: "posting_row list \<Rightarrow> go_string \<Rightarrow> posting_row list" where
  "account_postings ps k = filter (\<lambda>p. po_account_id p = k) ps"

definition txn_rows :: "posting_row list \<Rightarrow> go_string \<Rightarrow> posting_row list" where
  "txn_rows ps t = filter (\<lambda>p. po_transaction_id p = t) ps"

definition pg_accounts_ok :: "db \<Rightarrow> bool" where
  "pg_accounts_ok d \<longleftrightarrow> distinct (map acc_id (db_accounts d)) \<and>
     (\<forall>r \<in> set (db_accounts d). account_check r \<and> account_texts r)"

definition pg_keys_unique :: "transaction_row list \<Rightarrow> bool" where
  "pg_keys_unique rows \<longleftrightarrow>
     (\<forall>x \<in> set rows. \<forall>y \<in> set rows. jt_idempotency_key x \<noteq> None \<and> jt_actor_id x = jt_actor_id y \<and>
        jt_idempotency_key x = jt_idempotency_key y \<longrightarrow> x = y)"

definition pg_transactions_ok :: "db \<Rightarrow> bool" where
  "pg_transactions_ok d \<longleftrightarrow> distinct (map jt_id (db_transactions d)) \<and> pg_keys_unique (db_transactions d) \<and>
     (\<forall>r \<in> set (db_transactions d). transaction_check r \<and> transaction_texts r \<and> jt_expected_postings r = 2 \<and>
        length (txn_rows (db_postings d) (jt_id r)) = 2 \<and> po_sum (txn_rows (db_postings d) (jt_id r)) = 0)"

definition pg_postings_ok :: "db \<Rightarrow> bool" where
  "pg_postings_ok d \<longleftrightarrow> distinct (map po_id (db_postings d)) \<and> distinct (map po_sequence_no (db_postings d)) \<and>
     (\<forall>p \<in> set (db_postings d). po_amount_minor p \<noteq> 0 \<and>
        (\<exists>jt a. lookup jt_id (po_transaction_id p) (db_transactions d) = Some jt \<and>
           lookup acc_id (po_account_id p) (db_accounts d) = Some a \<and> jt_currency jt = acc_currency a))"

definition pg_balances_ok :: "db \<Rightarrow> bool" where
  "pg_balances_ok d \<longleftrightarrow>
     (\<forall>r \<in> set (db_accounts d). sint (acc_balance_minor r) = po_sum (account_postings (db_postings d) (acc_id r)))"

text \<open>Every transfer has its intent, whose digest and postings agree with it.\<close>

definition intent_agrees :: "db \<Rightarrow> transaction_row \<Rightarrow> intent_row \<Rightarrow> bool" where
  "intent_agrees d jt ti \<longleftrightarrow> jt_kind jt = ''transfer'' \<and>
     (\<forall>key. ti_request_fingerprint ti = transferFingerprint (stored_transfer key jt ti)) \<and>
     map (\<lambda>p. (po_account_id p, po_amount_minor p)) (txn_rows (db_postings d) (jt_id jt)) =
       [(ti_from_account_id ti, - ti_amount_minor ti), (ti_to_account_id ti, ti_amount_minor ti)]"

definition pg_intents_ok :: "db \<Rightarrow> bool" where
  "pg_intents_ok d \<longleftrightarrow> distinct (map ti_transaction_id (db_intents d)) \<and>
     (\<forall>ti \<in> set (db_intents d). \<exists>jt. lookup jt_id (ti_transaction_id ti) (db_transactions d) = Some jt \<and>
        intent_agrees d jt ti) \<and>
     (\<forall>jt \<in> set (db_transactions d). jt_kind jt = ''transfer'' \<longrightarrow>
        lookup ti_transaction_id (jt_id jt) (db_intents d) \<noteq> None)"

definition pg_logs_ok :: "db \<Rightarrow> bool" where
  "pg_logs_ok d \<longleftrightarrow> distinct (map au_id (db_audit d)) \<and> distinct (map rk_id (db_risk d)) \<and>
     (\<forall>r \<in> set (db_risk d). risk_check r \<and> lookup jt_id (rk_transaction_id r) (db_transactions d) \<noteq> None)"

definition pg_inv :: "db \<Rightarrow> bool" where
  "pg_inv d \<longleftrightarrow> pg_accounts_ok d \<and> pg_transactions_ok d \<and> pg_postings_ok d \<and> pg_balances_ok d \<and>
     pg_intents_ok d \<and> pg_logs_ok d"

lemma pg_inv_init: "pg_inv db_init"
  by (simp add: pg_inv_def pg_accounts_ok_def pg_transactions_ok_def pg_keys_unique_def pg_postings_ok_def
      pg_balances_ok_def pg_intents_ok_def pg_logs_ok_def db_init_def)

section \<open>Facts about rows\<close>

lemma rows_append [simp]:
  "account_postings (ps @ qs) k = account_postings ps k @ account_postings qs k"
  "account_postings (p # ps) k = (if po_account_id p = k then p # account_postings ps k else account_postings ps k)"
  "account_postings [] k = []"
  "txn_rows (ps @ qs) t = txn_rows ps t @ txn_rows qs t"
  "txn_rows (p # ps) t = (if po_transaction_id p = t then p # txn_rows ps t else txn_rows ps t)"
  "txn_rows [] t = []"
  by (simp_all add: account_postings_def txn_rows_def)

lemma txn_rows_none: "(\<And>p. p \<in> set ps \<Longrightarrow> po_transaction_id p \<noteq> t) \<Longrightarrow> txn_rows ps t = []"
  by (simp add: txn_rows_def filter_empty_conv)

lemma account_postings_none: "(\<And>p. p \<in> set ps \<Longrightarrow> po_account_id p \<noteq> k) \<Longrightarrow> account_postings ps k = []"
  by (simp add: account_postings_def filter_empty_conv)

lemma acc_id_write_balance [simp]: "map acc_id (write_balance aid bal now rows) = map acc_id rows"
  by (simp add: write_balance_def set_balance_def)

lemma set_balance_sel [simp]:
  "acc_id (set_balance b n r) = acc_id r" "acc_owner_id (set_balance b n r) = acc_owner_id r"
  "acc_currency (set_balance b n r) = acc_currency r" "acc_system (set_balance b n r) = acc_system r"
  "acc_balance_minor (set_balance b n r) = b" "acc_created_at (set_balance b n r) = acc_created_at r"
  by (simp_all add: set_balance_def)

lemma new_posting_sel [simp]:
  "po_id (new_posting X pid tid aid amt now sq) = pid" "po_transaction_id (new_posting X pid tid aid amt now sq) = tid"
  "po_account_id (new_posting X pid tid aid amt now sq) = aid" "po_amount_minor (new_posting X pid tid aid amt now sq) = amt"
  "po_sequence_no (new_posting X pid tid aid amt now sq) = sq"
  by (simp_all add: new_posting_def)

lemma transfer_row_sel [simp]:
  "jt_id (transfer_row X t c) = transfer_ID t" "jt_kind (transfer_row X t c) = ''transfer''"
  "jt_idempotency_key (transfer_row X t c) = Some (transfer_IdempotencyKey t)"
  "jt_actor_id (transfer_row X t c) = transfer_ActorID t" "jt_currency (transfer_row X t c) = c"
  "jt_description (transfer_row X t c) = intent_Description (transfer_Intent t)"
  "jt_expected_postings (transfer_row X t c) = 2" "jt_created_at (transfer_row X t c) = x_time X (transfer_CreatedAt t)"
  by (simp_all add: transfer_row_def)

lemma opening_row_sel [simp]:
  "jt_id (opening_row X inp) = cai_OpeningTransactionID inp" "jt_kind (opening_row X inp) = ''opening''"
  "jt_idempotency_key (opening_row X inp) = None" "jt_expected_postings (opening_row X inp) = 2"
  "jt_currency (opening_row X inp) = account_Currency (cai_Account inp)"
  by (simp_all add: opening_row_def)

lemma intent_row_sel [simp]:
  "ti_transaction_id (intent_row_of t f g) = transfer_ID t" "ti_from_account_id (intent_row_of t f g) = f"
  "ti_to_account_id (intent_row_of t f g) = g" "ti_amount_minor (intent_row_of t f g) = intent_AmountMinor (transfer_Intent t)"
  "ti_request_fingerprint (intent_row_of t f g) = transferFingerprint t"
  by (simp_all add: intent_row_of_def)

lemma account_rows_sel [simp]:
  "acc_id (new_account_row X a) = account_ID a" "acc_balance_minor (new_account_row X a) = account_BalanceMinor a"
  "acc_currency (new_account_row X a) = account_Currency a" "acc_system (new_account_row X a) = False"
  "acc_id (system_account_row X a) = pg_systemAccountID (account_Currency a)"
  "acc_balance_minor (system_account_row X a) = 0" "acc_currency (system_account_row X a) = account_Currency a"
  "acc_system (system_account_row X a) = True"
  by (simp_all add: new_account_row_def system_account_row_def)

lemma audit_row_sel [simp]: "au_id (audit_row_of X sq m r) = audit_ID r" "au_sequence_no (audit_row_of X sq m r) = sq"
  by (simp_all add: audit_row_of_def)

lemma risk_row_sel [simp]: "rk_id (risk_row_of X t ev) = risk_ID ev" "rk_transaction_id (risk_row_of X t ev) = t"
  by (simp_all add: risk_row_of_def)

lemma row_account_sel [simp]:
  "account_ID (row_account r) = acc_id r" "account_OwnerID (row_account r) = acc_owner_id r"
  "account_Currency (row_account r) = acc_currency r" "account_BalanceMinor (row_account r) = acc_balance_minor r"
  "account_System (row_account r) = acc_system r" "account_CreatedAt (row_account r) = acc_created_at r"
  by (simp_all add: row_account_def)

lemma in_write_balance:
  "r \<in> set (write_balance aid bal now rows) \<longleftrightarrow>
     (\<exists>x \<in> set rows. r = (if acc_id x = aid then set_balance bal now x else x))"
  by (simp only: write_balance_def set_map image_iff)

section \<open>Preservation by a transfer\<close>

text \<open>A transfer that the adapter writes, with the rows of its two accounts.\<close>

definition transfer_step ::
  "externals \<Rightarrow> apply_transfer_input \<Rightarrow> account_row \<Rightarrow> account_row \<Rightarrow> posting_row \<times> posting_row \<Rightarrow> audit_row \<Rightarrow> db \<Rightarrow> bool" where
  "transfer_step X inp rf rt pq ar d \<longleftrightarrow>
     (let t = ati_Transfer inp; i = transfer_Intent t in
      lookup acc_id (intent_FromAccountID i) (db_accounts d) = Some rf \<and>
      lookup acc_id (intent_ToAccountID i) (db_accounts d) = Some rt \<and>
      \<not> acc_system rf \<and> \<not> acc_system rt \<and> acc_id rf \<noteq> acc_id rt \<and>
      acc_currency rf = acc_currency rt \<and> acc_currency rf = transfer_Currency t \<and>
      0 < sint (intent_AmountMinor i) \<and> sint (intent_AmountMinor i) \<le> sint (acc_balance_minor rf) \<and>
      sint (acc_balance_minor rt) + sint (intent_AmountMinor i) < 2 ^ 63 \<and>
      (\<exists>sq0 sq1. pq = transfer_pair X inp (row_account rf) (row_account rt) sq0 sq1) \<and>
      au_id ar = audit_ID (ati_Audit inp) \<and>
      transfer_writable X inp (row_account rf) (row_account rt) rf rt pq ar d)"

lemma transfer_step_facts:
  assumes "transfer_step X inp rf rt pq ar d"
  shows "lookup acc_id (acc_id rf) (db_accounts d) = Some rf" "lookup acc_id (acc_id rt) (db_accounts d) = Some rt"
    "acc_id rf = intent_FromAccountID (transfer_Intent (ati_Transfer inp))"
    "acc_id rt = intent_ToAccountID (transfer_Intent (ati_Transfer inp))"
    "acc_id rf \<noteq> acc_id rt" "acc_currency rf = acc_currency rt" "\<not> acc_system rf" "\<not> acc_system rt"
    "0 < sint (intent_AmountMinor (transfer_Intent (ati_Transfer inp)))"
    "sint (intent_AmountMinor (transfer_Intent (ati_Transfer inp))) \<le> sint (acc_balance_minor rf)"
    "sint (acc_balance_minor rt) + sint (intent_AmountMinor (transfer_Intent (ati_Transfer inp))) < 2 ^ 63"
    "po_transaction_id (fst pq) = transfer_ID (ati_Transfer inp)" "po_transaction_id (snd pq) = transfer_ID (ati_Transfer inp)"
    "po_account_id (fst pq) = acc_id rf" "po_account_id (snd pq) = acc_id rt"
    "po_amount_minor (fst pq) = - intent_AmountMinor (transfer_Intent (ati_Transfer inp))"
    "po_amount_minor (snd pq) = intent_AmountMinor (transfer_Intent (ati_Transfer inp))"
    "transfer_writable X inp (row_account rf) (row_account rt) rf rt pq ar d"
    "lookup jt_id (transfer_ID (ati_Transfer inp)) (db_transactions d) = None"
    "acc_currency rf = transfer_Currency (ati_Transfer inp)"
proof -
  have ids: "acc_id rf = intent_FromAccountID (transfer_Intent (ati_Transfer inp))"
    "acc_id rt = intent_ToAccountID (transfer_Intent (ati_Transfer inp))"
    using assms lookup_Some [of acc_id _ "db_accounts d"] unfolding transfer_step_def Let_def by metis+
  obtain sq0 sq1 where pq: "pq = transfer_pair X inp (row_account rf) (row_account rt) sq0 sq1"
    using assms unfolding transfer_step_def Let_def by blast
  note step = assms [unfolded transfer_step_def Let_def, folded ids]
  show "lookup acc_id (acc_id rf) (db_accounts d) = Some rf" "lookup acc_id (acc_id rt) (db_accounts d) = Some rt"
    "acc_id rf = intent_FromAccountID (transfer_Intent (ati_Transfer inp))"
    "acc_id rt = intent_ToAccountID (transfer_Intent (ati_Transfer inp))"
    "acc_id rf \<noteq> acc_id rt" "acc_currency rf = acc_currency rt" "\<not> acc_system rf" "\<not> acc_system rt"
    "0 < sint (intent_AmountMinor (transfer_Intent (ati_Transfer inp)))"
    "sint (intent_AmountMinor (transfer_Intent (ati_Transfer inp))) \<le> sint (acc_balance_minor rf)"
    "sint (acc_balance_minor rt) + sint (intent_AmountMinor (transfer_Intent (ati_Transfer inp))) < 2 ^ 63"
    "transfer_writable X inp (row_account rf) (row_account rt) rf rt pq ar d"
    "acc_currency rf = transfer_Currency (ati_Transfer inp)"
    using step ids by auto
  show "po_transaction_id (fst pq) = transfer_ID (ati_Transfer inp)" "po_transaction_id (snd pq) = transfer_ID (ati_Transfer inp)"
    "po_account_id (fst pq) = acc_id rf" "po_account_id (snd pq) = acc_id rt"
    "po_amount_minor (fst pq) = - intent_AmountMinor (transfer_Intent (ati_Transfer inp))"
    "po_amount_minor (snd pq) = intent_AmountMinor (transfer_Intent (ati_Transfer inp))"
    by (simp_all add: pq transfer_pair_def Let_def)
  show "lookup jt_id (transfer_ID (ati_Transfer inp)) (db_transactions d) = None"
    using step by (simp add: transfer_writable_def Let_def)
qed

definition step_accounts :: "externals \<Rightarrow> apply_transfer_input \<Rightarrow> account_row \<Rightarrow> account_row \<Rightarrow> db \<Rightarrow> account_row list" where
  "step_accounts X inp rf rt d =
     (let t = ati_Transfer inp; amt = intent_AmountMinor (transfer_Intent t); now = x_time X (transfer_CreatedAt t) in
      write_balance (acc_id rt) (acc_balance_minor rt + amt) now
        (write_balance (acc_id rf) (acc_balance_minor rf - amt) now (db_accounts d)))"

lemma transfer_written_sel:
  "db_accounts (transfer_written X inp (row_account rf) (row_account rt) pq ar d) = step_accounts X inp rf rt d"
  "db_transactions (transfer_written X inp (row_account rf) (row_account rt) pq ar d) =
     db_transactions d @ [transfer_row X (ati_Transfer inp) (acc_currency rf)]"
  "db_postings (transfer_written X inp (row_account rf) (row_account rt) pq ar d) = db_postings d @ [fst pq, snd pq]"
  "db_intents (transfer_written X inp (row_account rf) (row_account rt) pq ar d) =
     db_intents d @ [intent_row_of (ati_Transfer inp) (acc_id rf) (acc_id rt)]"
  "db_audit (transfer_written X inp (row_account rf) (row_account rt) pq ar d) = db_audit d @ [ar]"
  "db_risk (transfer_written X inp (row_account rf) (row_account rt) pq ar d) =
     db_risk d @ (case ati_Risk inp of None \<Rightarrow> [] | Some ev \<Rightarrow> [risk_row_of X (transfer_ID (ati_Transfer inp)) ev])"
  "db_schema_migrations (transfer_written X inp (row_account rf) (row_account rt) pq ar d) = db_schema_migrations d"
  by (simp_all add: transfer_written_def step_accounts_def Let_def)

text \<open>The rows of the two accounts after the transfer, and those of the others.\<close>

lemma step_account_cases:
  assumes "pg_accounts_ok d" "transfer_step X inp rf rt pq ar d" "r \<in> set (step_accounts X inp rf rt d)"
  obtains (from_row) now where "r = set_balance (acc_balance_minor rf - intent_AmountMinor (transfer_Intent (ati_Transfer inp))) now rf"
      "account_check r"
  | (to_row) now where "r = set_balance (acc_balance_minor rt + intent_AmountMinor (transfer_Intent (ati_Transfer inp))) now rt"
      "account_check r"
  | (other) "r \<in> set (db_accounts d)" "acc_id r \<noteq> acc_id rf" "acc_id r \<noteq> acc_id rt"
proof -
  note f = transfer_step_facts [OF assms(2)]
  have uniq: "x = rf" if "x \<in> set (db_accounts d)" "acc_id x = acc_id rf" for x
    using assms(1) that f(1) lookup_distinct [of acc_id "db_accounts d" x] by (simp add: pg_accounts_ok_def)
  have uniq': "x = rt" if "x \<in> set (db_accounts d)" "acc_id x = acc_id rt" for x
    using assms(1) that f(2) lookup_distinct [of acc_id "db_accounts d" x] by (simp add: pg_accounts_ok_def)
  from assms(3) obtain x where x: "x \<in> set (db_accounts d)"
    "r = (let t = ati_Transfer inp; amt = intent_AmountMinor (transfer_Intent t); now = x_time X (transfer_CreatedAt t);
        y = (if acc_id x = acc_id rf then set_balance (acc_balance_minor rf - amt) now x else x) in
      if acc_id y = acc_id rt then set_balance (acc_balance_minor rt + amt) now y else y)"
    by (auto simp: step_accounts_def in_write_balance Let_def)
  consider "acc_id x = acc_id rf" | "acc_id x = acc_id rt" | "acc_id x \<noteq> acc_id rf" "acc_id x \<noteq> acc_id rt" by blast
  then show ?thesis
  proof cases
    case 1
    then show ?thesis using from_row x uniq [OF x(1)] f(5,18) by (auto simp: transfer_writable_def Let_def)
  next
    case 2
    then show ?thesis using to_row x uniq' [OF x(1)] f(5,18) by (auto simp: transfer_writable_def Let_def)
  next
    case 3
    then show ?thesis using other x by (auto simp: Let_def)
  qed
qed

lemma step_lookup:
  assumes "transfer_step X inp rf rt pq ar d"
  shows "lookup acc_id k (step_accounts X inp rf rt d) =
    (let t = ati_Transfer inp; amt = intent_AmountMinor (transfer_Intent t); now = x_time X (transfer_CreatedAt t) in
     if k = acc_id rf then Some (set_balance (acc_balance_minor rf - amt) now rf)
     else if k = acc_id rt then Some (set_balance (acc_balance_minor rt + amt) now rt)
     else lookup acc_id k (db_accounts d))"
  using transfer_step_facts(1,2,5) [OF assms] by (auto simp: step_accounts_def lookup_write_balance Let_def)

lemma old_txn_rows:
  assumes "pg_postings_ok d" "transfer_step X inp rf rt pq ar d"
  shows "txn_rows (db_postings d) (transfer_ID (ati_Transfer inp)) = []"
  using assms(1) transfer_step_facts(19) [OF assms(2)]
  by (intro txn_rows_none) (force simp: pg_postings_ok_def)

lemma transfer_accounts_ok:
  assumes "pg_inv d" "transfer_step X inp rf rt pq ar d"
  shows "pg_accounts_ok (transfer_written X inp (row_account rf) (row_account rt) pq ar d)"
proof -
  have ok: "pg_accounts_ok d" using assms(1) by (simp add: pg_inv_def)
  have "rf \<in> set (db_accounts d)" "rt \<in> set (db_accounts d)"
    using transfer_step_facts(1,2) [OF assms(2)] by (auto dest: lookup_Some)
  then have vt: "account_texts rf" "account_texts rt" using ok by (auto simp: pg_accounts_ok_def)
  have "account_check r \<and> account_texts r" if "r \<in> set (step_accounts X inp rf rt d)" for r
    using ok assms(2) that
  proof (cases rule: step_account_cases)
    case other
    then show ?thesis using ok by (simp add: pg_accounts_ok_def)
  qed (use vt in \<open>simp_all add: account_texts_def\<close>)
  then show ?thesis
    using ok by (simp add: pg_accounts_ok_def transfer_written_sel) (simp add: step_accounts_def Let_def)
qed

lemma transfer_transactions_ok:
  assumes "pg_inv d" "transfer_step X inp rf rt pq ar d"
  shows "pg_transactions_ok (transfer_written X inp (row_account rf) (row_account rt) pq ar d)"
proof -
  note f = transfer_step_facts [OF assms(2)]
  have ok: "pg_transactions_ok d" "pg_postings_ok d" using assms(1) by (simp_all add: pg_inv_def)
  let ?jt = "transfer_row X (ati_Transfer inp) (acc_currency rf)"
  have free: "key_free ?jt (db_transactions d)" and chk: "transaction_check ?jt" "transaction_texts ?jt"
    using f(18) by (simp_all add: transfer_writable_def Let_def)
  have uniq: "pg_keys_unique (db_transactions d @ [?jt])"
    using ok(1) free unfolding pg_transactions_ok_def pg_keys_unique_def key_free_def by auto
  have new: "jt_id r \<noteq> transfer_ID (ati_Transfer inp)" if "r \<in> set (db_transactions d)" for r
    using f(19) that by (force simp: lookup_None)
  have rows: "txn_rows (db_postings d @ [fst pq, snd pq]) (jt_id r) =
      (if r = ?jt then [fst pq, snd pq] else txn_rows (db_postings d) (jt_id r))"
    if "r \<in> set (db_transactions d @ [?jt])" for r
  proof (cases "r = ?jt")
    case True
    then show ?thesis using old_txn_rows [OF ok(2) assms(2)] f(12,13) by simp
  next
    case False
    with that have "jt_id r \<noteq> transfer_ID (ati_Transfer inp)" using new by simp
    with False show ?thesis using f(12,13) by simp
  qed
  have "po_sum [fst pq, snd pq] = 0" using f(9,16,17) by (simp add: sint_neg64)
  then have "length (txn_rows (db_postings d @ [fst pq, snd pq]) (jt_id r)) = 2 \<and>
      po_sum (txn_rows (db_postings d @ [fst pq, snd pq]) (jt_id r)) = 0"
    if "r \<in> set (db_transactions d @ [?jt])" for r
    using rows [OF that] that ok(1) by (auto simp: pg_transactions_ok_def)
  moreover have "distinct (map jt_id (db_transactions d @ [?jt]))"
    using ok(1) f(19) by (simp add: pg_transactions_ok_def lookup_None)
  ultimately show ?thesis
    unfolding pg_transactions_ok_def transfer_written_sel using uniq chk ok(1)
    by (auto simp: pg_transactions_ok_def)
qed

lemma transfer_postings_ok:
  assumes "pg_inv d" "transfer_step X inp rf rt pq ar d"
  shows "pg_postings_ok (transfer_written X inp (row_account rf) (row_account rt) pq ar d)"
proof -
  note f = transfer_step_facts [OF assms(2)]
  have ok: "pg_postings_ok d" using assms(1) by (simp add: pg_inv_def)
  have free: "posting_free (fst pq) (db_postings d)" "posting_free (snd pq) (db_postings d @ [fst pq])"
    using f(18) by (simp_all add: transfer_writable_def Let_def)
  have old: "\<exists>jt a. lookup jt_id (po_transaction_id p) (db_transactions d @ [transfer_row X (ati_Transfer inp) (acc_currency rf)]) = Some jt \<and>
      lookup acc_id (po_account_id p) (step_accounts X inp rf rt d) = Some a \<and> jt_currency jt = acc_currency a"
    if p: "p \<in> set (db_postings d)" for p
  proof -
    from ok p obtain jt a where ja: "lookup jt_id (po_transaction_id p) (db_transactions d) = Some jt"
      "lookup acc_id (po_account_id p) (db_accounts d) = Some a" "jt_currency jt = acc_currency a"
      unfolding pg_postings_ok_def by blast
    have "\<exists>a'. lookup acc_id (po_account_id p) (step_accounts X inp rf rt d) = Some a' \<and> acc_currency a' = acc_currency a"
    proof (cases "po_account_id p = acc_id rf \<or> po_account_id p = acc_id rt")
      case True
      with f(1,2) ja(2) have "a = rf \<or> a = rt" by (elim disjE) simp_all
      with True f(6) show ?thesis by (elim disjE) (simp_all add: step_lookup [OF assms(2)] Let_def)
    next
      case False
      with ja(2) show ?thesis by (simp add: step_lookup [OF assms(2)])
    qed
    with ja(1,3) show ?thesis by auto
  qed
  have new: "\<exists>jt a. lookup jt_id (po_transaction_id p) (db_transactions d @ [transfer_row X (ati_Transfer inp) (acc_currency rf)]) = Some jt \<and>
      lookup acc_id (po_account_id p) (step_accounts X inp rf rt d) = Some a \<and> jt_currency jt = acc_currency a"
    if "p = fst pq \<or> p = snd pq" for p
    using that f(5,6,12-15,19) by (elim disjE) (simp_all add: step_lookup [OF assms(2)] Let_def)
  show ?thesis
    unfolding pg_postings_ok_def transfer_written_sel
    using ok free old new f(9,16,17) by (auto simp: pg_postings_ok_def posting_free_def posting_check_def)
qed

lemma transfer_balances_ok:
  assumes "pg_inv d" "transfer_step X inp rf rt pq ar d"
  shows "pg_balances_ok (transfer_written X inp (row_account rf) (row_account rt) pq ar d)"
proof -
  note f = transfer_step_facts [OF assms(2)]
  have ok: "pg_balances_ok d" "pg_accounts_ok d" using assms(1) by (simp_all add: pg_inv_def)
  have in_db: "rf \<in> set (db_accounts d)" "rt \<in> set (db_accounts d)" using f(1,2) by (auto dest: lookup_Some)
  have "sint (acc_balance_minor r) = po_sum (account_postings (db_postings d @ [fst pq, snd pq]) (acc_id r))"
    if "r \<in> set (step_accounts X inp rf rt d)" for r
    using ok(2) assms(2) that
  proof (cases rule: step_account_cases)
    case (from_row now)
    then show ?thesis using ok(1) in_db f by (auto simp: pg_balances_ok_def sint_debit sint_neg64)
  next
    case (to_row now)
    then show ?thesis using ok(1) in_db f by (auto simp: pg_balances_ok_def sint_credit)
  next
    case other
    then show ?thesis using ok(1) f by (auto simp: pg_balances_ok_def)
  qed
  then show ?thesis by (simp add: pg_balances_ok_def transfer_written_sel)
qed

lemma stored_fingerprint:
  "transfer_Intent t = \<lparr>intent_FromAccountID = ti_from_account_id ti, intent_ToAccountID = ti_to_account_id ti,
     intent_AmountMinor = ti_amount_minor ti, intent_Description = jt_description jt\<rparr> \<Longrightarrow>
   transfer_ActorID t = jt_actor_id jt \<Longrightarrow> transferFingerprint (stored_transfer key jt ti) = transferFingerprint t"
  by (simp add: transferFingerprint_def stored_transfer_def)

lemma transfer_intents_ok:
  assumes "pg_inv d" "transfer_step X inp rf rt pq ar d"
  shows "pg_intents_ok (transfer_written X inp (row_account rf) (row_account rt) pq ar d)"
proof -
  note f = transfer_step_facts [OF assms(2)]
  have ok: "pg_intents_ok d" "pg_postings_ok d" using assms(1) by (simp_all add: pg_inv_def)
  let ?t = "ati_Transfer inp"
  let ?jt = "transfer_row X ?t (acc_currency rf)" and ?ti = "intent_row_of ?t (acc_id rf) (acc_id rt)"
  let ?d = "transfer_written X inp (row_account rf) (row_account rt) pq ar d"
  have none: "lookup ti_transaction_id (transfer_ID ?t) (db_intents d) = None"
    using f(18) by (simp add: transfer_writable_def Let_def)
  have old: "intent_agrees ?d jt ti" if "intent_agrees d jt ti" "jt_id jt \<noteq> transfer_ID ?t" for jt ti
    using that f(12,13) by (simp add: intent_agrees_def transfer_written_sel)
  have "transfer_Intent ?t = \<lparr>intent_FromAccountID = acc_id rf, intent_ToAccountID = acc_id rt,
      intent_AmountMinor = ti_amount_minor ?ti, intent_Description = jt_description ?jt\<rparr>"
    using f(3,4) by simp
  then have fp: "transferFingerprint (stored_transfer key ?jt ?ti) = transferFingerprint ?t" for key
    by (intro stored_fingerprint) simp_all
  have new: "intent_agrees ?d ?jt ?ti"
    using f(12-17) old_txn_rows [OF ok(2) assms(2)] fp by (simp add: intent_agrees_def transfer_written_sel)
  have "\<exists>jt. lookup jt_id (ti_transaction_id ti) (db_transactions ?d) = Some jt \<and> intent_agrees ?d jt ti"
    if "ti \<in> set (db_intents ?d)" for ti
  proof (cases "ti = ?ti")
    case True
    then show ?thesis using new f(19) by (simp add: transfer_written_sel)
  next
    case False
    then have "ti \<in> set (db_intents d)" using that by (simp add: transfer_written_sel)
    with ok(1) obtain jt where jt: "lookup jt_id (ti_transaction_id ti) (db_transactions d) = Some jt" "intent_agrees d jt ti"
      unfolding pg_intents_ok_def by blast
    then have "jt_id jt \<noteq> transfer_ID ?t" using f(19) lookup_Some [OF jt(1)] by (force simp: lookup_None)
    with jt old show ?thesis by (simp add: transfer_written_sel)
  qed
  moreover have "lookup ti_transaction_id (jt_id jt) (db_intents ?d) \<noteq> None"
    if "jt \<in> set (db_transactions ?d)" "jt_kind jt = ''transfer''" for jt
    using that ok(1) by (auto simp: transfer_written_sel pg_intents_ok_def split: option.split)
  moreover have "distinct (map ti_transaction_id (db_intents ?d))"
    using ok(1) none by (auto simp: transfer_written_sel pg_intents_ok_def lookup_None)
  ultimately show ?thesis unfolding pg_intents_ok_def by blast
qed

lemma transfer_logs_ok:
  assumes "pg_inv d" "transfer_step X inp rf rt pq ar d"
  shows "pg_logs_ok (transfer_written X inp (row_account rf) (row_account rt) pq ar d)"
proof -
  note f = transfer_step_facts [OF assms(2)]
  have ok: "pg_logs_ok d" using assms(1) by (simp add: pg_inv_def)
  have au: "audit_free ar (db_audit d)" using f(18) by (simp add: transfer_writable_def Let_def)
  have rk: "\<forall>ev \<in> set_option (ati_Risk inp). risk_check (risk_row_of X (transfer_ID (ati_Transfer inp)) ev) \<and>
      risk_ID ev \<notin> rk_id ` set (db_risk d)"
    using f(18) by (simp add: transfer_writable_def lookup_None Let_def)
  have "lookup jt_id (rk_transaction_id r) (db_transactions d @ [transfer_row X (ati_Transfer inp) (acc_currency rf)]) \<noteq> None"
    if "r \<in> set (db_risk d)" for r
    using ok that by (auto simp: pg_logs_ok_def split: option.split)
  with ok au rk f(19) show ?thesis
    by (cases "ati_Risk inp") (force simp: pg_logs_ok_def transfer_written_sel audit_free_def)+
qed

lemma transfer_written_inv:
  assumes "pg_inv d" "transfer_step X inp rf rt pq ar d"
  shows "pg_inv (transfer_written X inp (row_account rf) (row_account rt) pq ar d)"
  using transfer_accounts_ok [OF assms] transfer_transactions_ok [OF assms] transfer_postings_ok [OF assms]
    transfer_balances_ok [OF assms] transfer_intents_ok [OF assms] transfer_logs_ok [OF assms]
  by (simp add: pg_inv_def)

end
