(* ===== verification/Pg_Opening.thy ===== *)
theory Pg_Opening
  imports Pg_Invariant
begin

text \<open>
  The invariant of the database is preserved when an account is opened, with an opening balance
  that the system account of its currency provides or without one.
\<close>

text \<open>An account that the adapter opens.\<close>

definition account_step :: "externals \<Rightarrow> create_account_input \<Rightarrow> posting_row \<times> posting_row \<Rightarrow> audit_row \<Rightarrow> db \<Rightarrow> bool" where
  "account_step X inp pq ar d \<longleftrightarrow>
     (\<exists>sq0 sq1. pq = opening_pair X inp sq0 sq1) \<and> account_writable X inp pq ar d"

lemma account_step_id:
  assumes "account_step X inp pq ar d"
  shows "account_ID (cai_Account inp) \<noteq> pg_systemAccountID c"
    "lookup acc_id (account_ID (cai_Account inp)) (db_accounts d) = None"
    "account_check (new_account_row X (cai_Account inp))" "account_texts (new_account_row X (cai_Account inp))"
    "0 \<le> sint (account_BalanceMinor (cai_Account inp))" "audit_free ar (db_audit d)"
    "pg_systemAccountID c \<noteq> account_ID (cai_Account inp)"
proof -
  have w: "account_check (new_account_row X (cai_Account inp))" using assms by (simp add: account_step_def account_writable_def)
  then have "account_ID (cai_Account inp) \<noteq> pg_systemAccountID c" "0 \<le> sint (account_BalanceMinor (cai_Account inp))"
    by (auto simp: account_check_def pg_systemAccountID_def HasPrefix_def)
  then show "account_ID (cai_Account inp) \<noteq> pg_systemAccountID c" "pg_systemAccountID c \<noteq> account_ID (cai_Account inp)"
    "0 \<le> sint (account_BalanceMinor (cai_Account inp))" by simp_all
qed (use assms in \<open>simp_all add: account_step_def account_writable_def\<close>)

lemma system_row_append:
  "account_ID b \<noteq> pg_systemAccountID (account_Currency a) \<Longrightarrow>
     system_row X a (rows @ [new_account_row X b]) = system_row X a rows"
  by (auto simp: system_row_def split: option.split)

text \<open>What an opening balance needs, over the database before the new account.\<close>

lemma account_step_opening:
  assumes "account_step X inp pq ar d" "0 < sint (account_BalanceMinor (cai_Account inp))"
  defines "a \<equiv> cai_Account inp"
  defines "sys \<equiv> system_row X a (db_accounts d)"
  shows "account_texts (system_account_row X a)" "acc_system sys" "acc_currency sys = account_Currency a"
    "- (2 ^ 63) + sint (account_BalanceMinor a) \<le> sint (acc_balance_minor sys)"
    "account_check (set_balance (acc_balance_minor sys - account_BalanceMinor a) (x_time X (account_CreatedAt a)) sys)"
    "transaction_texts (opening_row X inp)" "transaction_check (opening_row X inp)"
    "lookup jt_id (cai_OpeningTransactionID inp) (db_transactions d) = None"
    "posting_free (fst pq) (db_postings d)" "posting_free (snd pq) (db_postings d @ [fst pq])"
    "po_transaction_id (fst pq) = cai_OpeningTransactionID inp" "po_transaction_id (snd pq) = cai_OpeningTransactionID inp"
    "po_account_id (fst pq) = account_ID a" "po_account_id (snd pq) = pg_systemAccountID (account_Currency a)"
    "po_amount_minor (fst pq) = account_BalanceMinor a" "po_amount_minor (snd pq) = - account_BalanceMinor a"
proof -
  have w: "opening_writable X inp pq (d\<lparr>db_accounts := db_accounts d @ [new_account_row X a]\<rparr>)"
    using assms(1,2) by (simp add: account_step_def account_writable_def a_def)
  have sys: "system_row X a (db_accounts d @ [new_account_row X a]) = sys"
    using account_step_id(1) [OF assms(1)] by (simp add: system_row_append a_def sys_def)
  show "account_texts (system_account_row X a)" "acc_system sys" "acc_currency sys = account_Currency a"
    "- (2 ^ 63) + sint (account_BalanceMinor a) \<le> sint (acc_balance_minor sys)"
    "account_check (set_balance (acc_balance_minor sys - account_BalanceMinor a) (x_time X (account_CreatedAt a)) sys)"
    "transaction_texts (opening_row X inp)" "transaction_check (opening_row X inp)"
    "lookup jt_id (cai_OpeningTransactionID inp) (db_transactions d) = None"
    "posting_free (fst pq) (db_postings d)" "posting_free (snd pq) (db_postings d @ [fst pq])"
    using w [unfolded opening_writable_def Let_def, folded a_def] by (simp_all add: sys)
  obtain sq0 sq1 where pq: "pq = opening_pair X inp sq0 sq1" using assms(1) by (auto simp: account_step_def)
  show "po_transaction_id (fst pq) = cai_OpeningTransactionID inp" "po_transaction_id (snd pq) = cai_OpeningTransactionID inp"
    "po_account_id (fst pq) = account_ID a" "po_account_id (snd pq) = pg_systemAccountID (account_Currency a)"
    "po_amount_minor (fst pq) = account_BalanceMinor a" "po_amount_minor (snd pq) = - account_BalanceMinor a"
    by (simp_all add: pq opening_pair_def a_def Let_def)
qed

definition opened_accounts :: "externals \<Rightarrow> create_account_input \<Rightarrow> db \<Rightarrow> account_row list" where
  "opened_accounts X inp d =
     (let a = cai_Account inp; rows = db_accounts d @ [new_account_row X a] in
      if 0 < sint (account_BalanceMinor a) then
        write_balance (pg_systemAccountID (account_Currency a)) (acc_balance_minor (system_row X a rows) - account_BalanceMinor a)
          (x_time X (account_CreatedAt a)) (with_system X a rows)
      else rows)"

definition opening_rows :: "externals \<Rightarrow> create_account_input \<Rightarrow> transaction_row list" where
  "opening_rows X inp = (if 0 < sint (account_BalanceMinor (cai_Account inp)) then [opening_row X inp] else [])"

definition pg_opening_postings :: "create_account_input \<Rightarrow> posting_row \<times> posting_row \<Rightarrow> posting_row list" where
  "pg_opening_postings inp pq = (if 0 < sint (account_BalanceMinor (cai_Account inp)) then [fst pq, snd pq] else [])"

lemma account_written_sel:
  "db_accounts (account_written X inp pq ar d) = opened_accounts X inp d"
  "db_transactions (account_written X inp pq ar d) = db_transactions d @ opening_rows X inp"
  "db_postings (account_written X inp pq ar d) = db_postings d @ pg_opening_postings inp pq"
  "db_intents (account_written X inp pq ar d) = db_intents d"
  "db_audit (account_written X inp pq ar d) = db_audit d @ [ar]"
  "db_risk (account_written X inp pq ar d) = db_risk d"
  "db_schema_migrations (account_written X inp pq ar d) = db_schema_migrations d"
  by (simp_all add: account_written_def opening_written_def opened_accounts_def opening_rows_def pg_opening_postings_def Let_def)

lemma opened_lookup:
  assumes "account_step X inp pq ar d"
  defines "a \<equiv> cai_Account inp"
  defines "sys \<equiv> system_row X a (db_accounts d)"
  shows "lookup acc_id k (opened_accounts X inp d) =
    (if k = account_ID a then Some (new_account_row X a)
     else if 0 < sint (account_BalanceMinor a) \<and> k = pg_systemAccountID (account_Currency a)
       then Some (set_balance (acc_balance_minor sys - account_BalanceMinor a) (x_time X (account_CreatedAt a)) sys)
     else lookup acc_id k (db_accounts d))"
proof -
  note id = account_step_id(1,2) [OF assms(1), folded a_def]
  have sys: "system_row X a (db_accounts d @ [new_account_row X a]) = sys"
    using id(1) by (simp add: system_row_append sys_def)
  have base: "lookup acc_id k (db_accounts d @ [new_account_row X a]) =
      (if k = account_ID a then Some (new_account_row X a) else lookup acc_id k (db_accounts d))" for k
    using id(2) by (auto split: option.split)
  have ws: "lookup acc_id k (with_system X a rows) = lookup acc_id k rows"
    if "k \<noteq> pg_systemAccountID (account_Currency a)" for k rows
    using that by (auto simp: with_system_def split: option.split)
  show ?thesis
    using id(1) account_step_id(7) [OF assms(1), folded a_def]
    by (auto simp: opened_accounts_def a_def [symmetric] sys lookup_write_balance ws base Let_def
        simp del: lookup_append)
qed

lemma opened_distinct:
  assumes "pg_accounts_ok d" "account_step X inp pq ar d"
  shows "distinct (map acc_id (opened_accounts X inp d))"
proof -
  have "distinct (map acc_id (db_accounts d @ [new_account_row X (cai_Account inp)]))"
    using assms(1) account_step_id(2) [OF assms(2)] by (simp add: pg_accounts_ok_def lookup_None)
  then show ?thesis
    by (auto simp: opened_accounts_def with_system_def lookup_None Let_def simp del: lookup_append)
qed

text \<open>The rows of the accounts after an opening.\<close>

lemma opened_cases:
  assumes "pg_accounts_ok d" "account_step X inp pq ar d" "r \<in> set (opened_accounts X inp d)"
  obtains (new) "r = new_account_row X (cai_Account inp)"
  | (system) "0 < sint (account_BalanceMinor (cai_Account inp))" "r = set_balance
      (acc_balance_minor (system_row X (cai_Account inp) (db_accounts d)) - account_BalanceMinor (cai_Account inp))
      (x_time X (account_CreatedAt (cai_Account inp))) (system_row X (cai_Account inp) (db_accounts d))"
  | (other) "r \<in> set (db_accounts d)" "acc_id r \<noteq> account_ID (cai_Account inp)"
      "0 < sint (account_BalanceMinor (cai_Account inp)) \<Longrightarrow> acc_id r \<noteq> pg_systemAccountID (account_Currency (cai_Account inp))"
proof -
  have "lookup acc_id (acc_id r) (opened_accounts X inp d) = Some r"
    using opened_distinct [OF assms(1,2)] assms(3) by (rule lookup_distinct)
  then show ?thesis
    using new system other by (auto simp: opened_lookup [OF assms(2)] split: if_splits dest: lookup_Some)
qed

lemma system_row_cases:
  assumes "pg_accounts_ok d"
  obtains (existing) "system_row X a (db_accounts d) \<in> set (db_accounts d)"
      "acc_id (system_row X a (db_accounts d)) = pg_systemAccountID (account_Currency a)"
  | (missing) "system_row X a (db_accounts d) = system_account_row X a"
      "lookup acc_id (pg_systemAccountID (account_Currency a)) (db_accounts d) = None"
  by (cases "lookup acc_id (pg_systemAccountID (account_Currency a)) (db_accounts d)")
    (use that in \<open>auto simp: system_row_def dest: lookup_Some\<close>)

section \<open>Preservation\<close>

lemma account_accounts_ok:
  assumes "pg_inv d" "account_step X inp pq ar d"
  shows "pg_accounts_ok (account_written X inp pq ar d)"
proof -
  have ok: "pg_accounts_ok d" using assms(1) by (simp add: pg_inv_def)
  have "account_check r \<and> account_texts r" if "r \<in> set (opened_accounts X inp d)" for r
    using ok assms(2) that
  proof (cases rule: opened_cases)
    case new
    then show ?thesis using account_step_id(3,4) [OF assms(2)] by simp
  next
    case system
    have "account_texts (system_row X (cai_Account inp) (db_accounts d))"
      using ok by (cases rule: system_row_cases [where X = X and a = "cai_Account inp"])
        (use ok account_step_opening(1) [OF assms(2) system(1)] in \<open>simp_all add: pg_accounts_ok_def\<close>)
    then show ?thesis using system account_step_opening(5) [OF assms(2) system(1)] by (simp add: account_texts_def)
  next
    case other
    then show ?thesis using ok by (simp add: pg_accounts_ok_def)
  qed
  then show ?thesis
    using opened_distinct [OF ok assms(2)] by (simp add: pg_accounts_ok_def account_written_sel)
qed

lemma opening_old_rows:
  assumes "pg_postings_ok d" "account_step X inp pq ar d"
  shows "0 < sint (account_BalanceMinor (cai_Account inp)) \<Longrightarrow> txn_rows (db_postings d) (cai_OpeningTransactionID inp) = []"
    "account_postings (db_postings d) (account_ID (cai_Account inp)) = []"
proof -
  show "txn_rows (db_postings d) (cai_OpeningTransactionID inp) = []" if "0 < sint (account_BalanceMinor (cai_Account inp))"
    using assms(1) account_step_opening(8) [OF assms(2) that] by (intro txn_rows_none) (force simp: pg_postings_ok_def)
  show "account_postings (db_postings d) (account_ID (cai_Account inp)) = []"
    using assms(1) account_step_id(2) [OF assms(2)] by (intro account_postings_none) (force simp: pg_postings_ok_def)
qed

text \<open>An opening leaves the postings of the older transactions as they are.\<close>

lemma opening_txn_rows:
  assumes "account_step X inp pq ar d" "r \<in> set (db_transactions d)"
  shows "txn_rows (db_postings d @ pg_opening_postings inp pq) (jt_id r) = txn_rows (db_postings d) (jt_id r)"
proof (cases "0 < sint (account_BalanceMinor (cai_Account inp))")
  case True
  note f = account_step_opening [OF assms(1) True]
  have "cai_OpeningTransactionID inp \<noteq> jt_id r" using f(8) assms(2) by (auto simp: lookup_None)
  then show ?thesis using f(11,12) by (simp add: pg_opening_postings_def)
qed (simp add: pg_opening_postings_def)

lemma account_transactions_ok:
  assumes "pg_inv d" "account_step X inp pq ar d"
  shows "pg_transactions_ok (account_written X inp pq ar d)"
proof -
  have ok: "pg_transactions_ok d" "pg_postings_ok d" using assms(1) by (simp_all add: pg_inv_def)
  have old: "transaction_check r \<and> transaction_texts r \<and> jt_expected_postings r = 2 \<and>
      length (txn_rows (db_postings d @ pg_opening_postings inp pq) (jt_id r)) = 2 \<and>
      po_sum (txn_rows (db_postings d @ pg_opening_postings inp pq) (jt_id r)) = 0" if "r \<in> set (db_transactions d)" for r
    using ok(1) that unfolding pg_transactions_ok_def opening_txn_rows [OF assms(2) that] by simp
  show ?thesis
  proof (cases "0 < sint (account_BalanceMinor (cai_Account inp))")
    case True
    note f = account_step_opening [OF assms(2) True]
    have uniq: "pg_keys_unique (db_transactions d @ [opening_row X inp])"
      using ok(1) by (fastforce simp: pg_transactions_ok_def pg_keys_unique_def)
    have "distinct (map jt_id (db_transactions d @ [opening_row X inp]))"
      using ok(1) f(8) by (simp add: pg_transactions_ok_def lookup_None)
    moreover have "length (txn_rows (db_postings d @ pg_opening_postings inp pq) (cai_OpeningTransactionID inp)) = 2"
      "po_sum (txn_rows (db_postings d @ pg_opening_postings inp pq) (cai_OpeningTransactionID inp)) = 0"
      using opening_old_rows(1) [OF ok(2) assms(2) True] f(11,12,15,16) True
      by (simp_all add: pg_opening_postings_def sint_neg64)
    ultimately show ?thesis
      using uniq old f(6,7) True
      unfolding pg_transactions_ok_def account_written_sel opening_rows_def by simp
  next
    case False
    with ok(1) old show ?thesis unfolding pg_transactions_ok_def account_written_sel opening_rows_def by simp
  qed
qed

lemma account_postings_ok:
  assumes "pg_inv d" "account_step X inp pq ar d"
  shows "pg_postings_ok (account_written X inp pq ar d)"
proof -
  let ?a = "cai_Account inp"
  have ok: "pg_postings_ok d" using assms(1) by (simp add: pg_inv_def)
  have old: "\<exists>jt a. lookup jt_id (po_transaction_id p) (db_transactions d @ opening_rows X inp) = Some jt \<and>
      lookup acc_id (po_account_id p) (opened_accounts X inp d) = Some a \<and> jt_currency jt = acc_currency a"
    if p: "p \<in> set (db_postings d)" for p
  proof -
    from ok p obtain jt a where ja: "lookup jt_id (po_transaction_id p) (db_transactions d) = Some jt"
      "lookup acc_id (po_account_id p) (db_accounts d) = Some a" "jt_currency jt = acc_currency a"
      unfolding pg_postings_ok_def by blast
    have "\<exists>a'. lookup acc_id (po_account_id p) (opened_accounts X inp d) = Some a' \<and> acc_currency a' = acc_currency a"
      using ja(2) account_step_id(2) [OF assms(2)]
      by (auto simp: opened_lookup [OF assms(2)] system_row_def)
    with ja(1,3) show ?thesis by auto
  qed
  show ?thesis
  proof (cases "0 < sint (account_BalanceMinor ?a)")
    case True
    note f = account_step_opening [OF assms(2) True]
    have new: "\<exists>jt a. lookup jt_id (po_transaction_id p) (db_transactions d @ opening_rows X inp) = Some jt \<and>
        lookup acc_id (po_account_id p) (opened_accounts X inp d) = Some a \<and> jt_currency jt = acc_currency a"
      if "p = fst pq \<or> p = snd pq" for p
      using that f(3,8,11-14) True account_step_id(1) [OF assms(2)]
      by (elim disjE) (auto simp: opened_lookup [OF assms(2)] opening_rows_def)
    show ?thesis
      unfolding pg_postings_ok_def account_written_sel
      using ok old new f(9,10) True by (auto simp: pg_postings_ok_def pg_opening_postings_def posting_free_def posting_check_def)
  next
    case False
    with ok old show ?thesis unfolding pg_postings_ok_def account_written_sel pg_opening_postings_def by simp
  qed
qed

lemma account_balances_ok:
  assumes "pg_inv d" "account_step X inp pq ar d"
  shows "pg_balances_ok (account_written X inp pq ar d)"
proof -
  let ?a = "cai_Account inp"
  have ok: "pg_balances_ok d" "pg_accounts_ok d" "pg_postings_ok d" using assms(1) by (simp_all add: pg_inv_def)
  note new_id = account_step_id(1,5) [OF assms(2)]
  have "sint (acc_balance_minor r) = po_sum (account_postings (db_postings d @ pg_opening_postings inp pq) (acc_id r))"
    if "r \<in> set (opened_accounts X inp d)" for r
    using ok(2) assms(2) that
  proof (cases rule: opened_cases)
    case new
    show ?thesis
      using new opening_old_rows(2) [OF ok(3) assms(2)] new_id account_step_id(7) [OF assms(2)] account_step_opening(13,14,15) [OF assms(2)]
      by (auto simp: pg_opening_postings_def)
  next
    case system
    note f = account_step_opening [OF assms(2) system(1)]
    let ?sys = "system_row X ?a (db_accounts d)"
    have id: "acc_id ?sys = pg_systemAccountID (account_Currency ?a)"
      and bal: "sint (acc_balance_minor ?sys) = po_sum (account_postings (db_postings d) (acc_id ?sys))"
    proof -
      have "account_postings (db_postings d) (pg_systemAccountID (account_Currency ?a)) = []"
        if "lookup acc_id (pg_systemAccountID (account_Currency ?a)) (db_accounts d) = None"
        using ok(3) that by (intro account_postings_none) (force simp: pg_postings_ok_def)
      then show "acc_id ?sys = pg_systemAccountID (account_Currency ?a)"
        "sint (acc_balance_minor ?sys) = po_sum (account_postings (db_postings d) (acc_id ?sys))"
        using system_row_cases [OF ok(2), of X ?a] ok(1) by (metis account_rows_sel(5,6) pg_balances_ok_def po_sum_simps(1) signed_0)+
    qed
    have "sint (acc_balance_minor ?sys - account_BalanceMinor ?a) = sint (acc_balance_minor ?sys) - sint (account_BalanceMinor ?a)"
      using f(4) system(1) sint_bounds64 [of "acc_balance_minor ?sys"] by (intro sint_sub64) (auto simp: fits64_def)
    then show ?thesis
      using system id bal f(13,14,16) new_id by (simp add: pg_opening_postings_def sint_neg64)
  next
    case other
    then show ?thesis
      using ok(1) account_step_opening(13,14) [OF assms(2)] by (auto simp: pg_balances_ok_def pg_opening_postings_def)
  qed
  then show ?thesis by (simp add: pg_balances_ok_def account_written_sel)
qed

lemma account_intents_ok:
  assumes "pg_inv d" "account_step X inp pq ar d"
  shows "pg_intents_ok (account_written X inp pq ar d)"
proof -
  have ok: "pg_intents_ok d" using assms(1) by (simp add: pg_inv_def)
  have "\<exists>jt. lookup jt_id (ti_transaction_id ti) (db_transactions d @ opening_rows X inp) = Some jt \<and>
      intent_agrees (account_written X inp pq ar d) jt ti" if "ti \<in> set (db_intents d)" for ti
  proof -
    from ok that obtain jt where jt: "lookup jt_id (ti_transaction_id ti) (db_transactions d) = Some jt" "intent_agrees d jt ti"
      unfolding pg_intents_ok_def by blast
    have "jt \<in> set (db_transactions d)" using lookup_Some [OF jt(1)] by simp
    then have "intent_agrees (account_written X inp pq ar d) jt ti"
      using jt(2) unfolding intent_agrees_def account_written_sel by (simp only: opening_txn_rows [OF assms(2)]) simp
    with jt(1) show ?thesis by simp
  qed
  then show ?thesis
    using ok by (auto simp: pg_intents_ok_def account_written_sel opening_rows_def simp del: lookup_append)
qed

lemma account_logs_ok:
  assumes "pg_inv d" "account_step X inp pq ar d"
  shows "pg_logs_ok (account_written X inp pq ar d)"
  using assms(1) account_step_id(6) [OF assms(2)]
  by (auto simp: pg_inv_def pg_logs_ok_def account_written_sel audit_free_def split: option.split)

lemma account_written_inv:
  assumes "pg_inv d" "account_step X inp pq ar d"
  shows "pg_inv (account_written X inp pq ar d)"
  using account_accounts_ok [OF assms] account_transactions_ok [OF assms] account_postings_ok [OF assms]
    account_balances_ok [OF assms] account_intents_ok [OF assms] account_logs_ok [OF assms]
  by (simp add: pg_inv_def)

end
