(* ===== verification/Pg_Attempts.thy ===== *)
theory Pg_Attempts
  imports Pg_Opening
begin

text \<open>
  Attempts and calls of the adapter: what a successful transaction is, that the deferred trigger
  accepts it, histories of transactions of any number of sessions with any faults, and the retry
  loop on top of them.
\<close>

section \<open>The idempotency lookup\<close>

text \<open>The transfer that a database binds to an actor and a key.\<close>

definition pg_bound :: "db \<Rightarrow> go_string \<times> go_string \<Rightarrow> transfer option" where
  "pg_bound d sc = map_option fst (select_transfer (fst sc) (snd sc) d)"

lemma find_mem: "find P xs = Some x \<Longrightarrow> x \<in> set xs \<and> P x"
  by (induction xs) (auto split: if_splits)

lemma find_ex: "x \<in> set xs \<Longrightarrow> P x \<Longrightarrow> \<exists>y. find P xs = Some y"
  by (induction xs) auto

text \<open>A transaction with its intent.\<close>

definition joined :: "db \<Rightarrow> go_string \<Rightarrow> go_string \<Rightarrow> transaction_row \<Rightarrow> intent_row \<Rightarrow> bool" where
  "joined d actor key jt ti \<longleftrightarrow> jt \<in> set (db_transactions d) \<and> ti \<in> set (db_intents d) \<and> ti_transaction_id ti = jt_id jt \<and>
     jt_kind jt = ''transfer'' \<and> jt_actor_id jt = actor \<and> jt_idempotency_key jt = Some key"

lemma select_transfer_SomeD:
  assumes "select_transfer actor key d = Some (t, fp)"
  shows "\<exists>jt ti. joined d actor key jt ti \<and> t = stored_transfer key jt ti \<and> fp = ti_request_fingerprint ti"
proof -
  obtain p where p: "find (\<lambda>(jt, ti). jt_kind jt = ''transfer'' \<and> jt_actor_id jt = actor \<and> jt_idempotency_key jt = Some key)
      [(jt, ti). jt \<leftarrow> db_transactions d, ti \<leftarrow> db_intents d, ti_transaction_id ti = jt_id jt] = Some p"
      "t = stored_transfer key (fst p) (snd p)" "fp = ti_request_fingerprint (snd p)"
    using assms unfolding select_transfer_def by (simp split: option.splits prod.splits)
  then show ?thesis
    using find_mem [OF p(1)] by (intro exI [of _ "fst p"] exI [of _ "snd p"]) (auto simp: joined_def)
qed

lemma select_transfer_ex:
  assumes "joined d actor key jt ti"
  shows "select_transfer actor key d \<noteq> None"
proof -
  have "\<exists>p. find (\<lambda>(jt, ti). jt_kind jt = ''transfer'' \<and> jt_actor_id jt = actor \<and> jt_idempotency_key jt = Some key)
      [(jt, ti). jt \<leftarrow> db_transactions d, ti \<leftarrow> db_intents d, ti_transaction_id ti = jt_id jt] = Some p"
    by (rule find_ex [of "(jt, ti)"]) (use assms in \<open>auto simp: joined_def\<close>)
  then show ?thesis unfolding select_transfer_def by (elim exE) (simp split: prod.splits)
qed

lemma joined_unique:
  assumes "pg_inv d" "joined d actor key jt ti" "joined d actor key jt' ti'"
  shows "jt = jt'" "ti = ti'"
proof -
  have keys: "pg_keys_unique (db_transactions d)" and dis: "distinct (map ti_transaction_id (db_intents d))"
    using assms(1) by (simp_all add: pg_inv_def pg_transactions_ok_def pg_intents_ok_def)
  show "jt = jt'" using keys assms(2,3) by (simp add: pg_keys_unique_def joined_def)
  then show "ti = ti'"
    using assms(2,3) lookup_distinct [OF dis, of ti] lookup_distinct [OF dis, of ti'] by (simp add: joined_def)
qed

lemma pg_bound_iff:
  assumes "pg_inv d"
  shows "pg_bound d (actor, key) = Some t \<longleftrightarrow> (\<exists>jt ti. joined d actor key jt ti \<and> t = stored_transfer key jt ti)"
proof
  assume "pg_bound d (actor, key) = Some t"
  then show "\<exists>jt ti. joined d actor key jt ti \<and> t = stored_transfer key jt ti"
    using select_transfer_SomeD [of actor key d t] unfolding pg_bound_def by force
next
  assume "\<exists>jt ti. joined d actor key jt ti \<and> t = stored_transfer key jt ti"
  then obtain jt ti where j: "joined d actor key jt ti" "t = stored_transfer key jt ti" by blast
  from select_transfer_ex [OF j(1)] obtain u fp where u: "select_transfer actor key d = Some (u, fp)" by auto
  from select_transfer_SomeD [OF u] obtain jt' ti' where j': "joined d actor key jt' ti'" "u = stored_transfer key jt' ti'" by blast
  with j joined_unique [OF assms j(1) j'(1)] u show "pg_bound d (actor, key) = Some t" by (simp add: pg_bound_def)
qed

text \<open>The stored digest is the digest of the transfer that is read, so the check never fails.\<close>

lemma select_transfer_digest:
  assumes "pg_inv d" "select_transfer actor key d = Some (t, fp)"
  shows "fp = transferFingerprint t"
proof -
  from select_transfer_SomeD [OF assms(2)] obtain jt ti where
    f: "joined d actor key jt ti" "t = stored_transfer key jt ti" "fp = ti_request_fingerprint ti" by blast
  have ok: "distinct (map jt_id (db_transactions d))" "pg_intents_ok d"
    using assms(1) by (simp_all add: pg_inv_def pg_transactions_ok_def)
  have "lookup jt_id (ti_transaction_id ti) (db_transactions d) = Some jt"
    using f(1) lookup_distinct [OF ok(1)] by (simp add: joined_def)
  then have "intent_agrees d jt ti" using ok(2) f(1) by (auto simp: pg_intents_ok_def joined_def)
  with f show ?thesis by (simp add: intent_agrees_def)
qed

section \<open>Locked accounts\<close>

lemma locked_accounts:
  assumes "distinct (map acc_id rows)"
  shows "map_of (map (\<lambda>r. (acc_id r, row_account r)) (filter (\<lambda>r. acc_id r \<in> S \<and> \<not> acc_system r) rows)) k =
    (case lookup acc_id k rows of None \<Rightarrow> None | Some r \<Rightarrow> if k \<in> S \<and> \<not> acc_system r then Some (row_account r) else None)"
  using assms
proof (induction rows)
  case (Cons r rows)
  have "lookup acc_id (acc_id r) rows = None" using Cons.prems by (auto simp: lookup_None)
  with Cons show ?case by (auto simp: lookup_def split: option.split)
qed simp

definition locked :: "db \<Rightarrow> go_string \<Rightarrow> account_row option" where
  "locked d k = (case lookup acc_id k (db_accounts d) of None \<Rightarrow> None | Some r \<Rightarrow> if acc_system r then None else Some r)"

lemma lockAccounts_Inr:
  assumes "pg_inv d"
  shows "lockAccounts at a b d = Inr (m, d') \<longleftrightarrow> at_fault at 1 = None \<and> valid_text a \<and> valid_text b \<and> d' = d \<and>
    m = (\<lambda>k. if k \<in> {a, b} then map_option row_account (locked d k) else None)"
proof -
  have "map_of (map (\<lambda>r. (acc_id r, row_account r)) (filter (\<lambda>r. acc_id r \<in> {a, b} \<and> \<not> acc_system r) (db_accounts d))) =
      (\<lambda>k. if k \<in> {a, b} then map_option row_account (locked d k) else None)" (is "?m = _")
    using locked_accounts [of "db_accounts d" "{a, b}"] assms
    by (auto simp: fun_eq_iff locked_def pg_inv_def pg_accounts_ok_def split: option.split)
  then show ?thesis by (auto simp: lockAccounts_def exec_Inr)
qed

lemma locked_Some: "locked d k = Some r \<longleftrightarrow> lookup acc_id k (db_accounts d) = Some r \<and> \<not> acc_system r"
  by (auto simp: locked_def split: option.splits)

lemma fresh_transfer_tx_Inr:
  assumes "pg_inv d" "fresh_transfer_tx X inp at d = Inr (res, d')"
  defines "i \<equiv> transfer_Intent (ati_Transfer inp)"
  obtains rf rt where "intent_FromAccountID i \<noteq> intent_ToAccountID i"
    "locked d (intent_FromAccountID i) = Some rf" "locked d (intent_ToAccountID i) = Some rt"
    "acc_currency rf = acc_currency rt" "acc_currency rf = transfer_Currency (ati_Transfer inp)"
    "\<not> acc_balance_minor rf <s intent_AmountMinor i" "\<not> MaxInt64 - intent_AmountMinor i <s acc_balance_minor rt"
    "write_transfer X at inp (row_account rf) (row_account rt) d = Inr (res, d')"
proof -
  have ne: "intent_FromAccountID i \<noteq> intent_ToAccountID i"
    using assms(2) by (auto simp: fresh_transfer_tx_def i_def Let_def)
  with assms(2) obtain m d1 where m: "lockAccounts at (intent_FromAccountID i) (intent_ToAccountID i) d = Inr (m, d1)"
    "(case (m (intent_FromAccountID i), m (intent_ToAccountID i)) of
        (Some from, Some to) \<Rightarrow>
          if account_Currency from \<noteq> account_Currency to \<or> account_Currency from \<noteq> transfer_Currency (ati_Transfer inp)
            then throw ErrCurrencyMismatch
          else if account_BalanceMinor from <s intent_AmountMinor i then throw ErrInsufficientFunds
          else if MaxInt64 - intent_AmountMinor i <s account_BalanceMinor to then throw ErrInvalidInput
          else write_transfer X at inp from to
      | _ \<Rightarrow> throw ErrNotFound) d1 = Inr (res, d')"
    unfolding fresh_transfer_tx_def Let_def bind_stmt_Inr i_def [symmetric] by (auto simp: bind_stmt_Inr)
  have d1: "d1 = d" "m (intent_FromAccountID i) = map_option row_account (locked d (intent_FromAccountID i))"
    "m (intent_ToAccountID i) = map_option row_account (locked d (intent_ToAccountID i))"
    using m(1) unfolding lockAccounts_Inr [OF assms(1)] by simp_all
  obtain rf rt where r: "locked d (intent_FromAccountID i) = Some rf" "locked d (intent_ToAccountID i) = Some rt"
    using m(2) d1(2,3) by (cases "locked d (intent_FromAccountID i)"; cases "locked d (intent_ToAccountID i)") simp_all
  show ?thesis
    by (rule that [OF ne r]) (use m(2) d1 r in \<open>simp_all split: if_splits\<close>)
qed

text \<open>A successful body of \<^verbatim>\<open>applyTransferTx\<close> replays a stored transfer or writes a new one.\<close>

lemma applyTransferTx_cases:
  assumes "pg_inv d" "applyTransferTx X inp at d = Inr (res, d')"
  obtains (replay) t where "res = \<lparr>result_Transfer = t, result_Replayed = True\<rparr>" "d' = d"
      "pg_bound d (scope_of (ati_Transfer inp)) = Some t" "transfer_Intent t = transfer_Intent (ati_Transfer inp)"
  | (fresh) rf rt pq ar where "res = \<lparr>result_Transfer = ati_Transfer inp, result_Replayed = False\<rparr>"
      "pg_bound d (scope_of (ati_Transfer inp)) = None" "transfer_step X inp rf rt pq ar d"
      "d' = transfer_written X inp (row_account rf) (row_account rt) pq ar d"
proof -
  let ?t = "ati_Transfer inp"
  let ?i = "transfer_Intent ?t"
  from assms(2) obtain found d1 where
    f: "findIdempotentTransfer at (transfer_ActorID ?t) (transfer_IdempotencyKey ?t) d = Inr (found, d1)"
      "(case found of Some existing \<Rightarrow> if \<not> TransferIntent_Equal (transfer_Intent existing) ?i then throw ErrIdempotencyConflict
          else return_stmt \<lparr>result_Transfer = existing, result_Replayed = True\<rparr>
        | None \<Rightarrow> fresh_transfer_tx X inp at) d1 = Inr (res, d')"
    by (auto simp: applyTransferTx_def bind_stmt_Inr Let_def)
  have b: "d1 = d" "pg_bound d (scope_of ?t) = found"
    using f(1) by (auto simp: findIdempotentTransfer_def exec_Inr pg_bound_def scope_of_def split: option.splits if_splits)
  show ?thesis
  proof (cases found)
    case (Some t)
    with f(2) b show ?thesis using replay by (auto simp: TransferIntent_Equal_def split: if_splits)
  next
    case None
    then have "fresh_transfer_tx X inp at d = Inr (res, d')" using f(2) b by simp
    with assms(1) obtain rf rt where
      l: "intent_FromAccountID ?i \<noteq> intent_ToAccountID ?i"
        "locked d (intent_FromAccountID ?i) = Some rf" "locked d (intent_ToAccountID ?i) = Some rt"
        "acc_currency rf = acc_currency rt" "acc_currency rf = transfer_Currency ?t"
        "\<not> acc_balance_minor rf <s intent_AmountMinor ?i" "\<not> MaxInt64 - intent_AmountMinor ?i <s acc_balance_minor rt"
        "write_transfer X at inp (row_account rf) (row_account rt) d = Inr (res, d')"
      by (rule fresh_transfer_tx_Inr)
    let ?fa = "row_account rf" and ?ta = "row_account rt"
    have r: "lookup acc_id (intent_FromAccountID ?i) (db_accounts d) = Some rf" "\<not> acc_system rf"
        "lookup acc_id (intent_ToAccountID ?i) (db_accounts d) = Some rt" "\<not> acc_system rt"
      using l(2,3) by (simp_all add: locked_Some)
    have ids: "acc_id rf = intent_FromAccountID ?i" "acc_id rt = intent_ToAccountID ?i"
      using lookup_Some [OF r(1)] lookup_Some [OF r(3)] by simp_all
    obtain sq0 sq1 sq2 m where
      w: "transfer_writable X inp ?fa ?ta rf rt (transfer_pair X inp ?fa ?ta sq0 sq1) (audit_row_of X sq2 m (ati_Audit inp)) d"
        "d' = transfer_written X inp ?fa ?ta (transfer_pair X inp ?fa ?ta sq0 sq1) (audit_row_of X sq2 m (ati_Audit inp)) d"
        "res = \<lparr>result_Transfer = ?t, result_Replayed = False\<rparr>"
      using write_transfer_Inr [of ?fa d rf ?ta rt X at inp res d'] r l(1,8) ids by (auto simp: Let_def)
    have pos: "0 < sint (intent_AmountMinor ?i)" using w(1) by (simp add: transfer_writable_def intent_check_def Let_def)
    have "transfer_step X inp rf rt (transfer_pair X inp ?fa ?ta sq0 sq1) (audit_row_of X sq2 m (ati_Audit inp)) d"
      unfolding transfer_step_def Let_def
      using r ids l(1,4-7) w(1) pos by (auto simp: int64_simps)
    with fresh b None w show ?thesis by blast
  qed
qed

lemma createAccountTx_cases:
  assumes "createAccountTx X inp at d = Inr (u, d')"
  obtains pq ar where "account_step X inp pq ar d" "d' = account_written X inp pq ar d"
  using createAccountTx_Inr [OF assms] that unfolding account_step_def Let_def by blast

end
