(* ===== verification/Pg_Views.thy ===== *)
theory Pg_Views
  imports Pg_Attempts
begin

text \<open>
  The two views of the database that the contract of a repository speaks of, its accounts and the
  transfer bound to each scope, after each kind of transaction; and the deferred trigger, which
  accepts every database of the invariant.
\<close>

definition pg_accts :: "db \<Rightarrow> go_string \<Rightarrow> account option" where
  "pg_accts d k = map_option row_account (lookup acc_id k (db_accounts d))"

text \<open>A transfer as the database keeps it: its instant goes through a column.\<close>

definition pg_stored :: "externals \<Rightarrow> transfer \<Rightarrow> transfer" where
  "pg_stored X t = t\<lparr>transfer_CreatedAt := x_time X (transfer_CreatedAt t)\<rparr>"

section \<open>Bound transfers\<close>

lemma joined_transfer:
  assumes "pg_inv d" "transfer_step X inp rf rt pq ar d"
  defines "d' \<equiv> transfer_written X inp (row_account rf) (row_account rt) pq ar d"
  shows "joined d' actor key jt ti \<longleftrightarrow> joined d actor key jt ti \<or>
    (scope_of (ati_Transfer inp) = (actor, key) \<and> jt = transfer_row X (ati_Transfer inp) (acc_currency rf) \<and>
     ti = intent_row_of (ati_Transfer inp) (acc_id rf) (acc_id rt))"
proof -
  note f = transfer_step_facts [OF assms(2)]
  have "\<forall>r \<in> set (db_transactions d). jt_id r \<noteq> transfer_ID (ati_Transfer inp)"
    using f(19) by (force simp: lookup_None)
  moreover have "\<forall>r \<in> set (db_intents d). ti_transaction_id r \<noteq> transfer_ID (ati_Transfer inp)"
    using f(18) by (force simp: transfer_writable_def lookup_None Let_def)
  ultimately show ?thesis
    by (auto simp: joined_def d'_def transfer_written_sel scope_of_def)
qed

lemma joined_account: "joined (account_written X inp pq ar d) actor key jt ti \<longleftrightarrow> joined d actor key jt ti"
  by (auto simp: joined_def account_written_sel opening_rows_def)

lemma option_eqI: "(\<And>x. a = Some x \<longleftrightarrow> b = Some x) \<Longrightarrow> a = b"
  by (cases a; cases b) auto

lemma pg_bound_account:
  assumes "pg_inv d" "account_step X inp pq ar d"
  shows "pg_bound (account_written X inp pq ar d) = pg_bound d"
proof
  fix sc :: "go_string \<times> go_string"
  show "pg_bound (account_written X inp pq ar d) sc = pg_bound d sc"
    by (cases sc, rule option_eqI)
      (simp only: pg_bound_iff [OF assms(1)] pg_bound_iff [OF account_written_inv [OF assms]] joined_account)
qed

lemma stored_new:
  assumes "transfer_step X inp rf rt pq ar d"
  shows "stored_transfer (transfer_IdempotencyKey (ati_Transfer inp)) (transfer_row X (ati_Transfer inp) (acc_currency rf))
    (intent_row_of (ati_Transfer inp) (acc_id rf) (acc_id rt)) = pg_stored X (ati_Transfer inp)"
  using transfer_step_facts(3,4,20) [OF assms] by (simp add: stored_transfer_def pg_stored_def)

lemma pg_bound_transfer:
  assumes "pg_inv d" "transfer_step X inp rf rt pq ar d"
  shows "pg_bound (transfer_written X inp (row_account rf) (row_account rt) pq ar d) =
    (pg_bound d)(scope_of (ati_Transfer inp) \<mapsto> pg_stored X (ati_Transfer inp))"
proof
  fix sc :: "go_string \<times> go_string"
  obtain actor key where sc: "sc = (actor, key)" by (cases sc)
  note inv = transfer_written_inv [OF assms]
  show "pg_bound (transfer_written X inp (row_account rf) (row_account rt) pq ar d) sc =
      ((pg_bound d)(scope_of (ati_Transfer inp) \<mapsto> pg_stored X (ati_Transfer inp))) sc"
  proof (cases "scope_of (ati_Transfer inp) = sc")
    case True
    with sc have "key = transfer_IdempotencyKey (ati_Transfer inp)" by (simp add: scope_of_def)
    then have "pg_bound (transfer_written X inp (row_account rf) (row_account rt) pq ar d) (actor, key) =
        Some (pg_stored X (ati_Transfer inp))"
      using True sc stored_new [OF assms(2)] unfolding pg_bound_iff [OF inv] joined_transfer [OF assms] by metis
    with True sc show ?thesis by simp
  next
    case False
    with sc have "pg_bound (transfer_written X inp (row_account rf) (row_account rt) pq ar d) (actor, key) = pg_bound d (actor, key)"
      by (intro option_eqI) (simp add: pg_bound_iff [OF assms(1)] pg_bound_iff [OF inv] joined_transfer [OF assms])
    with False sc show ?thesis by simp
  qed
qed

section \<open>Accounts\<close>

lemma same_identity_balance [simp]: "same_identity (row_account r) (row_account (set_balance b n r))"
  by (simp add: same_identity_def row_account_def)

lemma pg_accts_transfer:
  assumes "transfer_step X inp rf rt pq ar d" "pg_accts d k = Some a"
  shows "\<exists>a'. pg_accts (transfer_written X inp (row_account rf) (row_account rt) pq ar d) k = Some a' \<and> same_identity a a' \<and>
    sint (account_BalanceMinor a') = sint (account_BalanceMinor a) + delta k (ati_Transfer inp)"
proof -
  note f = transfer_step_facts [OF assms(1)]
  have look: "pg_accts (transfer_written X inp (row_account rf) (row_account rt) pq ar d) k =
      map_option row_account (lookup acc_id k (step_accounts X inp rf rt d))"
    by (simp add: pg_accts_def transfer_written_sel)
  consider "k = acc_id rf" | "k = acc_id rt" | "k \<noteq> acc_id rf" "k \<noteq> acc_id rt" by blast
  then show ?thesis
  proof cases
    case 1
    with assms(2) f(1) have "a = row_account rf" by (simp add: pg_accts_def)
    with 1 f(3-5,9,10) show ?thesis
      unfolding look by (simp add: step_lookup [OF assms(1)] delta_def sint_debit Let_def)
  next
    case 2
    with assms(2) f(2) have "a = row_account rt" by (simp add: pg_accts_def)
    with 2 f(3-5,9,11) show ?thesis
      unfolding look by (simp add: step_lookup [OF assms(1)] delta_def sint_credit Let_def)
  next
    case 3
    with assms(2) f(3,4) show ?thesis
      unfolding look by (auto simp: step_lookup [OF assms(1)] pg_accts_def delta_def Let_def)
  qed
qed

lemma pg_accts_account:
  assumes "pg_inv d" "account_step X inp pq ar d" "pg_accts d k = Some a"
  shows "\<exists>a'. pg_accts (account_written X inp pq ar d) k = Some a' \<and> same_identity a a' \<and> (\<not> account_System a \<longrightarrow> a' = a)"
proof -
  from assms(3) obtain r where r: "lookup acc_id k (db_accounts d) = Some r" "a = row_account r"
    by (auto simp: pg_accts_def)
  have k: "k \<noteq> account_ID (cai_Account inp)" using account_step_id(2) [OF assms(2)] r(1) by auto
  show ?thesis
  proof (cases "0 < sint (account_BalanceMinor (cai_Account inp)) \<and> k = pg_systemAccountID (account_Currency (cai_Account inp))")
    case True
    then have "system_row X (cai_Account inp) (db_accounts d) = r" using r(1) by (simp add: system_row_def)
    moreover have "acc_system r" using account_step_opening(2) [OF assms(2)] True calculation by simp
    ultimately show ?thesis using True k r
      by (simp add: pg_accts_def account_written_sel opened_lookup [OF assms(2)])
  next
    case False
    then show ?thesis using k r by (auto simp: pg_accts_def account_written_sel opened_lookup [OF assms(2)])
  qed
qed

lemma pg_accts_row:
  assumes "pg_inv d" "pg_accts d k = Some a"
  shows "\<exists>r \<in> set (db_accounts d). a = row_account r \<and> acc_id r = k \<and> account_check r \<and> account_texts r"
  using assms by (auto simp: pg_accts_def pg_inv_def pg_accounts_ok_def dest: lookup_Some)

lemma pg_accts_funded:
  "pg_inv d \<Longrightarrow> pg_accts d k = Some a \<Longrightarrow> \<not> account_System a \<Longrightarrow> 0 \<le> sint (account_BalanceMinor a)"
  by (drule (1) pg_accts_row) (auto simp: account_check_def)

section \<open>The deferred trigger\<close>

lemma deferred_triggers_None:
  assumes "pg_inv d'"
  shows "deferred_triggers d d' = None"
proof -
  have bal: "assert_balanced d' t = None" if "lookup jt_id t (db_transactions d') \<noteq> None" for t
  proof -
    from that obtain r where r: "lookup jt_id t (db_transactions d') = Some r" by auto
    with lookup_Some [OF r] assms have "length (txn_rows (db_postings d') t) = 2" "po_sum (txn_rows (db_postings d') t) = 0"
      "jt_expected_postings r = 2"
      by (auto simp: pg_inv_def pg_transactions_ok_def)
    with r show ?thesis by (simp add: assert_balanced_def txn_postings_def txn_rows_def)
  qed
  have known: "lookup jt_id t (db_transactions d') \<noteq> None"
    if "t \<in> set (map jt_id (drop n (db_transactions d')) @ map po_transaction_id (drop m (db_postings d')))" for t n m
  proof -
    have post: "lookup jt_id (po_transaction_id p) (db_transactions d') \<noteq> None" if "p \<in> set (db_postings d')" for p
      using assms that by (auto simp: pg_inv_def pg_postings_ok_def)
    from that show ?thesis
      using lookup_None [of jt_id t "db_transactions d'"] by (auto dest!: in_set_dropD post)
  qed
  have "find (\<lambda>t. assert_balanced d' t \<noteq> None)
      (map jt_id (drop n (db_transactions d')) @ map po_transaction_id (drop m (db_postings d'))) = None" for n m
    unfolding find_None_iff using bal [OF known [of _ n m]] by metis
  then show ?thesis by (simp add: deferred_triggers_def)
qed

end
