(* ===== verification/Outbox.thy ===== *)
theory Outbox
  imports Domain
begin

text \<open>
  \<^verbatim>\<open>internal/risk/outbox.go\<close>: the interface of a transactional outbox and the worker that delivers
  its events.

  An outbox is a record of its three operations over a state \<open>'s\<close>. One cycle of the worker makes
  several calls of it: \<open>ops n\<close> is the outbox as call \<open>n\<close> meets it, with the faults of that call, and
  \<open>others n\<close> is the work of other sessions just before that call. Call 0 claims, call \<open>n + 1\<close> marks
  delivery \<open>n\<close>. A publisher changes a state \<open>'p\<close> of its own, and an error of it is its text, the
  only thing the worker reads. A duration is a number of nanoseconds.
\<close>

record delivery =
  delivery_Event :: risk_event
  delivery_Attempts :: int

abbreviation delivery_id :: "delivery \<Rightarrow> go_string" where
  "delivery_id dl \<equiv> risk_ID (delivery_Event dl)"

record 's outbox =
  ob_ClaimRiskEvents :: "int \<Rightarrow> time \<Rightarrow> 's \<Rightarrow> (error + delivery list) \<times> 's"
  ob_MarkRiskEventPublished :: "go_string \<Rightarrow> time \<Rightarrow> 's \<Rightarrow> error option \<times> 's"
  ob_MarkRiskEventFailed :: "go_string \<Rightarrow> go_string \<Rightarrow> time \<Rightarrow> 's \<Rightarrow> error option \<times> 's"

type_synonym 'p publisher = "risk_event \<Rightarrow> 'p \<Rightarrow> go_string option \<times> 'p"

section \<open>Publishing to the log\<close>

datatype worker_line =
    RiskPublished (published_id: go_string) go_string go_string go_string
  | CycleFailed error

definition LogPublisher_Publish :: "worker_line list publisher" where
  "LogPublisher_Publish event log =
     (None, log @ [RiskPublished (risk_ID event) (risk_Type event) (risk_Severity event) (risk_TransferID event)])"

section \<open>The worker\<close>

abbreviation second :: int where "second \<equiv> 1000000000"

record 'p worker =
  wk_publisher :: "'p publisher"
  wk_batchSize :: int
  wk_interval :: int

definition NewWorker :: "'p publisher \<Rightarrow> 'p worker" where
  "NewWorker publisher = \<lparr>wk_publisher = publisher, wk_batchSize = 32, wk_interval = second\<rparr>"

text \<open>\<^verbatim>\<open>1<<(attempts-1)\<close> is at most 128, so nothing overflows.\<close>

definition deliveryBackoff :: "int \<Rightarrow> int" where
  "deliveryBackoff attempts0 =
     (let attempts1 = (if attempts0 < 1 then 1 else attempts0);
          attempts = (if 8 < attempts1 then 8 else attempts1);
          delay = 2 ^ nat (attempts - 1) * second in
      if 5 * 60 * second < delay then 5 * 60 * second else delay)"

definition truncateError :: "go_string \<Rightarrow> go_string" where
  "truncateError text =
     (let rs = runes text in string_of_runes (if 500 < length rs then take 500 rs else rs))"

text \<open>The loop of \<^verbatim>\<open>ProcessOnce\<close> over the deliveries, from call \<open>n\<close> on: the first error ends it.\<close>

fun process_deliveries :: "'p publisher \<Rightarrow> (nat \<Rightarrow> 's outbox) \<Rightarrow> (nat \<Rightarrow> 's \<Rightarrow> 's) \<Rightarrow> time \<Rightarrow> nat \<Rightarrow>
    delivery list \<Rightarrow> 's \<times> 'p \<Rightarrow> error option \<times> 's \<times> 'p" where
  "process_deliveries publish ops others now n [] (s, p) = (None, s, p)"
| "process_deliveries publish ops others now n (dl # dls) (s, p) =
     (case publish (delivery_Event dl) p of
        (Some text, p') \<Rightarrow>
          (case ob_MarkRiskEventFailed (ops n) (delivery_id dl) (truncateError text)
              (now + deliveryBackoff (delivery_Attempts dl)) (others n s) of
             (Some e, s') \<Rightarrow> (Some e, s', p')
           | (None, s') \<Rightarrow> process_deliveries publish ops others now (Suc n) dls (s', p'))
      | (None, p') \<Rightarrow>
          (case ob_MarkRiskEventPublished (ops n) (delivery_id dl) now (others n s) of
             (Some e, s') \<Rightarrow> (Some e, s', p')
           | (None, s') \<Rightarrow> process_deliveries publish ops others now (Suc n) dls (s', p')))"

definition ProcessOnce :: "'p worker \<Rightarrow> (nat \<Rightarrow> 's outbox) \<Rightarrow> (nat \<Rightarrow> 's \<Rightarrow> 's) \<Rightarrow> time \<Rightarrow> 's \<times> 'p \<Rightarrow>
    (error + nat) \<times> 's \<times> 'p" where
  "ProcessOnce w ops others now sp =
     (case ob_ClaimRiskEvents (ops 0) (wk_batchSize w) now (others 0 (fst sp)) of
        (Inl e, s') \<Rightarrow> (Inl e, s', snd sp)
      | (Inr deliveries, s') \<Rightarrow>
          (case process_deliveries (wk_publisher w) ops others now 1 deliveries (s', snd sp) of
             (Some e, sp') \<Rightarrow> (Inl e, sp')
           | (None, sp') \<Rightarrow> (Inr (length deliveries), sp')))"

text \<open>
  \<^verbatim>\<open>Run\<close>. A cycle has its instant, its calls, what \<^verbatim>\<open>ctx.Err()\<close> returns after it, and whether the
  \<^verbatim>\<open>select\<close> then takes the branch of the ticker. The ticks that come before the context is done are
  the cycles of the list; the result is the log of the worker, the state, and whether \<^verbatim>\<open>Run\<close> has
  returned.
\<close>

record 's cycle =
  cy_now :: time
  cy_ops :: "nat \<Rightarrow> 's outbox"
  cy_others :: "nat \<Rightarrow> 's \<Rightarrow> 's"
  cy_ctx :: ctx
  cy_tick :: bool

fun Run_worker :: "'p worker \<Rightarrow> 's cycle list \<Rightarrow> worker_line list \<Rightarrow> 's \<times> 'p \<Rightarrow> worker_line list \<times> ('s \<times> 'p) \<times> bool" where
  "Run_worker w [] log sp = (log, sp, False)"
| "Run_worker w (cy # cys) log sp =
     (let (r, sp') = ProcessOnce w (cy_ops cy) (cy_others cy) (cy_now cy) sp;
          log' = (case r of Inl e \<Rightarrow> if cy_ctx cy = None then log @ [CycleFailed e] else log | Inr _ \<Rightarrow> log) in
      if cy_tick cy then Run_worker w cys log' sp' else (log', sp', True))"

section \<open>The delay before a retry\<close>

lemma deliveryBackoff_eq: "deliveryBackoff n = 2 ^ nat (min 7 (max 0 (n - 1))) * second"
proof -
  have e: "(2 :: int) ^ nat k \<le> 128" if "k \<le> 7" for k :: int
    using power_increasing [of "nat k" 7 "2 :: int"] that by simp
  have "(if 8 < (if n < 1 then 1 else n) then 8 else (if n < 1 then 1 else n)) - 1 = min 7 (max 0 (n - 1))"
    by (simp add: min_def max_def)
  then have "deliveryBackoff n = (let k = min 7 (max 0 (n - 1)) in if 300 < (2 :: int) ^ nat k then 300 * second else 2 ^ nat k * second)"
    by (simp only: deliveryBackoff_def Let_def) simp
  moreover have "\<not> 300 < (2 :: int) ^ nat (min 7 (max 0 (n - 1)))"
    using e [of "min 7 (max 0 (n - 1))"] by simp
  ultimately show ?thesis by (simp add: Let_def)
qed

lemma deliveryBackoff_bounds: "second \<le> deliveryBackoff n" "deliveryBackoff n \<le> 128 * second"
proof -
  define k where "k = nat (min 7 (max 0 (n - 1)))"
  then have "k \<le> 7" by simp
  then have "(1 :: int) \<le> 2 ^ k" "(2 :: int) ^ k \<le> 128" using power_increasing [of k 7 "2 :: int"] by simp_all
  then show "second \<le> deliveryBackoff n" "deliveryBackoff n \<le> 128 * second"
    unfolding deliveryBackoff_eq k_def [symmetric] by simp_all
qed

lemma deliveryBackoff_doubles: "1 \<le> n \<Longrightarrow> n < 8 \<Longrightarrow> deliveryBackoff (n + 1) = 2 * deliveryBackoff n"
proof -
  assume "1 \<le> n" "n < 8"
  then have "nat (min 7 (max 0 (n + 1 - 1))) = Suc (nat (min 7 (max 0 (n - 1))))" by simp
  then show ?thesis unfolding deliveryBackoff_eq by (simp only: power_Suc)
qed

lemma truncateError_runes: "runes (truncateError text) = take 500 (runes text)"
proof -
  have "truncateError text = string_of_runes (take 500 (runes text))"
    by (simp add: truncateError_def Let_def)
  moreover have "runes (string_of_runes (take 500 (runes text))) = take 500 (runes text)"
    by (rule runes_string_of_runes) (auto dest: in_set_takeD runes_are_scalar)
  ultimately show ?thesis by (simp only:)
qed

lemma truncateError_count: "RuneCountInString (truncateError text) \<le> 500"
  by (simp add: RuneCountInString_def truncateError_runes)

end
