(* ===== verification/Pg_Outbox.thy ===== *)
theory Pg_Outbox
  imports Pg_Views Outbox
begin

text \<open>
  \<^verbatim>\<open>internal/store/postgres/outbox.go\<close>: the outbox operations on the table \<^verbatim>\<open>risk_events\<close>.

  The claim runs in a READ COMMITTED transaction of one statement, and each mark is one statement,
  so each is atomic: an update re-checks its condition on a row after it has waited for the lock of
  another session. Rows that another session holds at that moment are skipped by the claim; they
  are a parameter, as is the order in which \<^verbatim>\<open>RETURNING\<close> gives the updated rows.
\<close>

definition normaliseOutboxLimit :: "int \<Rightarrow> int" where
  "normaliseOutboxLimit limit = (if limit \<le> 0 then 32 else if 100 < limit then 100 else limit)"

record claim_env =
  cl_attempt :: attempt
  cl_locked :: "go_string set"
  cl_order :: "risk_row list \<Rightarrow> risk_row list"

text \<open>\<^verbatim>\<open>UPDATE risk_events SET ... WHERE ... RETURNING *\<close>; the primary key makes the checks independent
  of the order of the rows.\<close>

definition update_risk :: "(risk_row \<Rightarrow> bool) \<Rightarrow> (risk_row \<Rightarrow> risk_row) \<Rightarrow> risk_row list stmt" where
  "update_risk sel f d =
     (let hits = map f (filter sel (db_risk d)) in
      if \<exists>r \<in> set hits. \<not> risk_check r then Inl (check_violation ''risk_events'')
      else Inr (hits, d\<lparr>db_risk := map (\<lambda>r. if sel r then f r else r) (db_risk d)\<rparr>))"

section \<open>Claiming\<close>

abbreviation lease :: int where "lease \<equiv> 60 * second"

definition claimable :: "time \<Rightarrow> risk_row \<Rightarrow> bool" where
  "claimable now r \<longleftrightarrow> rk_attempts r < 10 \<and>
     ((rk_status r \<in> {''pending'', ''failed''} \<and> rk_available_at r \<le> now) \<or>
      (rk_status r = ''processing'' \<and> (case rk_locked_at r of None \<Rightarrow> False | Some t \<Rightarrow> t < now - lease)))"

text \<open>\<^verbatim>\<open>ORDER BY available_at, created_at, id\<close>, by stable sorts from the last key to the first.\<close>

definition delivery_order :: "externals \<Rightarrow> risk_row list \<Rightarrow> risk_row list" where
  "delivery_order X rows =
     sort_key rk_available_at (sort_key rk_created_at (sort_key (\<lambda>r. x_rank X (rk_id r)) rows))"

definition candidates :: "externals \<Rightarrow> go_string set \<Rightarrow> int \<Rightarrow> time \<Rightarrow> db \<Rightarrow> risk_row list" where
  "candidates X skip limit now d =
     take (nat limit) (filter (\<lambda>r. rk_id r \<notin> skip) (delivery_order X (filter (claimable now) (db_risk d))))"

definition claim_row :: "time \<Rightarrow> risk_row \<Rightarrow> risk_row" where
  "claim_row now r =
     r\<lparr>rk_status := ''processing'', rk_attempts := rk_attempts r + 1, rk_locked_at := Some now, rk_last_error := None\<rparr>"

definition row_delivery :: "risk_row \<Rightarrow> delivery" where
  "row_delivery r = \<lparr>delivery_Event = row_event r, delivery_Attempts = rk_attempts r\<rparr>"

definition claim_tx :: "externals \<Rightarrow> claim_env \<Rightarrow> int \<Rightarrow> time \<Rightarrow> delivery list stmt" where
  "claim_tx X ce limit now =
     bind_stmt (exec (cl_attempt ce) 0 (\<lambda>d.
       let ids = map rk_id (candidates X (cl_locked ce) limit (x_time X now) d) in
       update_risk (\<lambda>r. rk_id r \<in> set ids) (claim_row (x_time X now)) d)) (\<lambda>rows.
     exec (cl_attempt ce) 1 (return_stmt (map row_delivery (cl_order ce rows))))"

definition pg_ClaimRiskEvents :: "externals \<Rightarrow> claim_env \<Rightarrow> int \<Rightarrow> time \<Rightarrow> db \<Rightarrow> (error + delivery list) \<times> db" where
  "pg_ClaimRiskEvents X ce limit now d =
     (case at_begin (cl_attempt ce) of
        Some e \<Rightarrow> (Inl e, d)
      | None \<Rightarrow> run_tx (cl_attempt ce) (claim_tx X ce (normaliseOutboxLimit limit) now) d)"

section \<open>Marking\<close>

text \<open>A statement outside a transaction commits by itself; its result is the number of rows.\<close>

definition pool_Exec :: "attempt \<Rightarrow> 'r list stmt \<Rightarrow> db \<Rightarrow> (error + nat) \<times> db" where
  "pool_Exec at st d =
     (case at_begin at of
        Some e \<Rightarrow> (Inl e, d)
      | None \<Rightarrow> run_tx at (bind_stmt (exec at 0 st) (\<lambda>rows. return_stmt (length rows))) d)"

definition not_claimed :: "go_string \<Rightarrow> error" where
  "not_claimed eid = ErrOther (''risk event '' @ eid @ '' is not claimed'')"

definition mark_reply :: "go_string \<Rightarrow> (error + nat) \<times> db \<Rightarrow> error option \<times> db" where
  "mark_reply eid res =
     (case res of (Inl e, d') \<Rightarrow> (Some e, d') | (Inr n, d') \<Rightarrow> (if n \<noteq> 1 then Some (not_claimed eid) else None, d'))"

definition in_process :: "go_string \<Rightarrow> risk_row \<Rightarrow> bool" where
  "in_process eid r \<longleftrightarrow> rk_id r = eid \<and> rk_status r = ''processing''"

definition publish_row :: "time \<Rightarrow> risk_row \<Rightarrow> risk_row" where
  "publish_row now r =
     r\<lparr>rk_status := ''published'', rk_published_at := Some now, rk_locked_at := None, rk_last_error := None\<rparr>"

definition fail_row :: "go_string \<Rightarrow> time \<Rightarrow> risk_row \<Rightarrow> risk_row" where
  "fail_row reason retryAt r =
     r\<lparr>rk_status := ''failed'', rk_available_at := retryAt, rk_locked_at := None, rk_published_at := None,
       rk_last_error := Some reason\<rparr>"

definition published_stmt :: "externals \<Rightarrow> go_string \<Rightarrow> time \<Rightarrow> risk_row list stmt" where
  "published_stmt X eid publishedAt d =
     (if \<not> valid_text eid then Inl encoding_error
      else update_risk (in_process eid) (publish_row (x_time X publishedAt)) d)"

definition pg_MarkRiskEventPublished :: "externals \<Rightarrow> attempt \<Rightarrow> go_string \<Rightarrow> time \<Rightarrow> db \<Rightarrow> error option \<times> db" where
  "pg_MarkRiskEventPublished X at eid publishedAt d = mark_reply eid (pool_Exec at (published_stmt X eid publishedAt) d)"

definition failed_stmt :: "externals \<Rightarrow> go_string \<Rightarrow> go_string \<Rightarrow> time \<Rightarrow> risk_row list stmt" where
  "failed_stmt X eid reason retryAt d =
     (if \<not> (valid_text eid \<and> valid_text reason) then Inl encoding_error
      else update_risk (in_process eid) (fail_row reason (x_time X retryAt)) d)"

definition pg_MarkRiskEventFailed ::
  "externals \<Rightarrow> attempt \<Rightarrow> go_string \<Rightarrow> go_string \<Rightarrow> time \<Rightarrow> db \<Rightarrow> error option \<times> db" where
  "pg_MarkRiskEventFailed X at eid reason retryAt d = mark_reply eid (pool_Exec at (failed_stmt X eid reason retryAt) d)"

text \<open>The store as the outbox of a worker.\<close>

definition pg_outbox :: "externals \<Rightarrow> claim_env \<Rightarrow> db outbox" where
  "pg_outbox X ce =
     \<lparr>ob_ClaimRiskEvents = pg_ClaimRiskEvents X ce,
      ob_MarkRiskEventPublished = pg_MarkRiskEventPublished X (cl_attempt ce),
      ob_MarkRiskEventFailed = pg_MarkRiskEventFailed X (cl_attempt ce)\<rparr>"

section \<open>The life of an event\<close>

text \<open>
  The moves of one row: a claim of a claimable row, and the two marks of a claimed one. An outbox
  operation moves some rows and changes nothing else.
\<close>

inductive risk_move :: "risk_row \<Rightarrow> risk_row \<Rightarrow> bool" where
  stay: "risk_move r r"
| claimed: "claimable t r \<Longrightarrow> risk_check (claim_row t r) \<Longrightarrow> risk_move r (claim_row t r)"
| published: "rk_status r = ''processing'' \<Longrightarrow> risk_check (publish_row t r) \<Longrightarrow> risk_move r (publish_row t r)"
| failed: "rk_status r = ''processing'' \<Longrightarrow> risk_check (fail_row reason t r) \<Longrightarrow> risk_move r (fail_row reason t r)"

inductive_cases risk_moveE: "risk_move r r'"

definition outbox_step :: "db \<Rightarrow> db \<Rightarrow> bool" where
  "outbox_step d d' \<longleftrightarrow> (\<exists>f. d' = d\<lparr>db_risk := map f (db_risk d)\<rparr> \<and> (\<forall>r \<in> set (db_risk d). risk_move r (f r)))"

lemma outbox_step_refl [simp]: "outbox_step d d"
  unfolding outbox_step_def by (rule exI [of _ "\<lambda>r. r"]) (simp add: risk_move.stay)

lemma row_update_sel [simp]:
  "rk_id (claim_row t r) = rk_id r" "rk_transaction_id (claim_row t r) = rk_transaction_id r"
  "rk_status (claim_row t r) = ''processing''" "rk_attempts (claim_row t r) = rk_attempts r + 1"
  "rk_locked_at (claim_row t r) = Some t" "row_event (claim_row t r) = row_event r"
  "rk_id (publish_row t r) = rk_id r" "rk_transaction_id (publish_row t r) = rk_transaction_id r"
  "rk_status (publish_row t r) = ''published''" "rk_attempts (publish_row t r) = rk_attempts r"
  "rk_published_at (publish_row t r) = Some t" "row_event (publish_row t r) = row_event r"
  "rk_id (fail_row e t r) = rk_id r" "rk_transaction_id (fail_row e t r) = rk_transaction_id r"
  "rk_status (fail_row e t r) = ''failed''" "rk_attempts (fail_row e t r) = rk_attempts r"
  "rk_available_at (fail_row e t r) = t" "rk_last_error (fail_row e t r) = Some e" "row_event (fail_row e t r) = row_event r"
  by (simp_all add: claim_row_def publish_row_def fail_row_def row_event_def)

lemma risk_move_keeps:
  "risk_move r r' \<Longrightarrow> rk_id r' = rk_id r \<and> rk_transaction_id r' = rk_transaction_id r \<and> row_event r' = row_event r \<and>
     (risk_check r \<longrightarrow> risk_check r')"
  by (induction rule: risk_move.induct) simp_all

lemma update_risk_Inr:
  "update_risk sel f d = Inr (hits, d') \<longleftrightarrow> hits = map f (filter sel (db_risk d)) \<and>
     (\<forall>r \<in> set (db_risk d). sel r \<longrightarrow> risk_check (f r)) \<and>
     d' = d\<lparr>db_risk := map (\<lambda>r. if sel r then f r else r) (db_risk d)\<rparr>"
  by (auto simp: update_risk_def Let_def)

lemma update_risk_step:
  assumes "update_risk sel f d = Inr (hits, d')"
    and "\<And>r. r \<in> set (db_risk d) \<Longrightarrow> sel r \<Longrightarrow> risk_check (f r) \<Longrightarrow> risk_move r (f r)"
  shows "outbox_step d d'"
  unfolding outbox_step_def
  by (rule exI [of _ "\<lambda>r. if sel r then f r else r"]) (use assms in \<open>auto simp: update_risk_Inr intro: risk_move.stay\<close>)

lemma set_delivery_order [simp]: "set (delivery_order X rows) = set rows"
  by (simp add: delivery_order_def)

lemma candidates_sound:
  assumes "r \<in> set (candidates X skip limit now d)"
  shows "r \<in> set (db_risk d)" "claimable now r" "rk_id r \<notin> skip"
  using assms by (auto simp: candidates_def dest!: in_set_takeD)

lemma candidate_row:
  assumes "distinct (map rk_id (db_risk d))" "r \<in> set (db_risk d)"
  shows "rk_id r \<in> set (map rk_id (candidates X skip limit now d)) \<longleftrightarrow> r \<in> set (candidates X skip limit now d)"
proof
  assume "rk_id r \<in> set (map rk_id (candidates X skip limit now d))"
  then obtain x where x: "x \<in> set (candidates X skip limit now d)" "rk_id x = rk_id r" by auto
  with assms candidates_sound(1) [OF x(1)] have "x = r"
    by (metis lookup_distinct option.inject)
  with x show "r \<in> set (candidates X skip limit now d)" by simp
qed simp

text \<open>What a claim and a mark do when they take effect, whether or not the reply arrives.\<close>

lemma claim_tx_Inr:
  assumes "distinct (map rk_id (db_risk d))" "claim_tx X ce limit now d = Inr (ds, d')"
  shows "let sel = (\<lambda>r. r \<in> set (candidates X (cl_locked ce) limit (x_time X now) d)) in
    ds = map row_delivery (cl_order ce (map (claim_row (x_time X now)) (filter sel (db_risk d)))) \<and>
    d' = d\<lparr>db_risk := map (\<lambda>r. if sel r then claim_row (x_time X now) r else r) (db_risk d)\<rparr> \<and> outbox_step d d'"
proof -
  let ?cs = "candidates X (cl_locked ce) limit (x_time X now) d"
  let ?sel = "\<lambda>r. rk_id r \<in> rk_id ` set ?cs"
  from assms(2) obtain hits where u: "update_risk ?sel (claim_row (x_time X now)) d = Inr (hits, d')"
    "ds = map row_delivery (cl_order ce hits)"
    by (auto simp: claim_tx_def bind_stmt_Inr exec_Inr Let_def)
  have eq: "?sel r \<longleftrightarrow> r \<in> set ?cs" if "r \<in> set (db_risk d)" for r
    using candidate_row [OF assms(1) that] by simp
  have "filter ?sel (db_risk d) = filter (\<lambda>r. r \<in> set ?cs) (db_risk d)"
    "map (\<lambda>r. if ?sel r then claim_row (x_time X now) r else r) (db_risk d) =
     map (\<lambda>r. if r \<in> set ?cs then claim_row (x_time X now) r else r) (db_risk d)"
    using eq by (auto intro: filter_cong)
  moreover have "outbox_step d d'"
    by (rule update_risk_step [OF u(1)]) (metis eq candidates_sound(2) risk_move.claimed)
  ultimately show ?thesis using u by (simp add: update_risk_Inr Let_def)
qed

lemma pool_Exec_cases:
  assumes "pool_Exec at st d = (r, d')"
  obtains (unchanged) e where "r = Inl e" "d' = d"
  | (effect) rows where "st d = Inr (rows, d')" "r = Inr (length rows) \<or> (\<exists>e. r = Inl e \<and> at_commit at = CommitLost e)"
proof (cases "at_begin at")
  case None
  then have "run_tx at (bind_stmt (exec at 0 st) (\<lambda>rows. return_stmt (length rows))) d = (r, d')"
    using assms by (simp add: pool_Exec_def)
  then show ?thesis
    by (cases rule: run_tx_cases) (use that in \<open>auto simp: bind_stmt_Inr exec_Inr\<close>)
next
  case (Some e)
  then show ?thesis using assms unchanged by (auto simp: pool_Exec_def)
qed

lemma mark_reply_Pair: "mark_reply eid p = (r, d') \<longleftrightarrow>
    (\<exists>m. p = (m, d') \<and> r = (case m of Inl e \<Rightarrow> Some e | Inr n \<Rightarrow> if n \<noteq> 1 then Some (not_claimed eid) else None))"
  by (cases p) (auto simp: mark_reply_def split: sum.splits)

lemma mark_reply_None: "mark_reply eid p = (None, d') \<longleftrightarrow> p = (Inr 1, d')"
  by (cases p; cases "fst p") (auto simp: mark_reply_def)

lemma snd_mark_reply [simp]: "snd (mark_reply eid p) = snd p"
  by (cases p) (simp add: mark_reply_def split: sum.splits)

lemma published_stmt_Inr:
  "published_stmt X eid now d = Inr (rows, d') \<longleftrightarrow> valid_text eid \<and>
     update_risk (in_process eid) (publish_row (x_time X now)) d = Inr (rows, d')"
  by (simp add: published_stmt_def)

lemma failed_stmt_Inr:
  "failed_stmt X eid reason now d = Inr (rows, d') \<longleftrightarrow> valid_text eid \<and> valid_text reason \<and>
     update_risk (in_process eid) (fail_row reason (x_time X now)) d = Inr (rows, d')"
  by (auto simp: failed_stmt_def)

lemma published_stmt_step: "published_stmt X eid now d = Inr (rows, d') \<Longrightarrow> outbox_step d d'"
  by (auto simp: published_stmt_Inr in_process_def elim!: update_risk_step intro: risk_move.published)

lemma failed_stmt_step: "failed_stmt X eid reason now d = Inr (rows, d') \<Longrightarrow> outbox_step d d'"
  by (auto simp: failed_stmt_Inr in_process_def elim!: update_risk_step intro: risk_move.failed)

lemma mark_published_step: "pg_MarkRiskEventPublished X at eid now d = (r, d') \<Longrightarrow> outbox_step d d'"
  by (auto simp: pg_MarkRiskEventPublished_def mark_reply_Pair elim!: pool_Exec_cases intro: published_stmt_step)

lemma mark_failed_step: "pg_MarkRiskEventFailed X at eid reason now d = (r, d') \<Longrightarrow> outbox_step d d'"
  by (auto simp: pg_MarkRiskEventFailed_def mark_reply_Pair elim!: pool_Exec_cases intro: failed_stmt_step)

lemma claim_cases:
  assumes "pg_ClaimRiskEvents X ce limit now d = (r, d')"
  obtains (unchanged) e where "r = Inl e" "d' = d"
  | (effect) ds where "claim_tx X ce (normaliseOutboxLimit limit) now d = Inr (ds, d')"
      "r = Inr ds \<or> (\<exists>e. r = Inl e \<and> at_commit (cl_attempt ce) = CommitLost e)"
proof (cases "at_begin (cl_attempt ce)")
  case None
  then have "run_tx (cl_attempt ce) (claim_tx X ce (normaliseOutboxLimit limit) now) d = (r, d')"
    using assms by (simp add: pg_ClaimRiskEvents_def)
  then show ?thesis by (cases rule: run_tx_cases) (use that in auto)
next
  case (Some e)
  then show ?thesis using assms unchanged by (auto simp: pg_ClaimRiskEvents_def)
qed

lemma claim_step: "distinct (map rk_id (db_risk d)) \<Longrightarrow> pg_ClaimRiskEvents X ce limit now d = (r, d') \<Longrightarrow> outbox_step d d'"
  by (erule claim_cases) (auto dest: claim_tx_Inr simp: Let_def)

section \<open>The ledger under the outbox\<close>

lemma pg_inv_risk_ids: "pg_inv d \<Longrightarrow> distinct (map rk_id (db_risk d))"
  by (simp add: pg_inv_def pg_logs_ok_def)

lemma outbox_step_ids: "outbox_step d d' \<Longrightarrow> map rk_id (db_risk d') = map rk_id (db_risk d)"
  by (auto simp: outbox_step_def risk_move_keeps)

lemma outbox_step_inv:
  assumes "pg_inv d" "outbox_step d d'"
  shows "pg_inv d'"
proof -
  obtain f where f: "d' = d\<lparr>db_risk := map f (db_risk d)\<rparr>" "\<forall>r \<in> set (db_risk d). risk_move r (f r)"
    using assms(2) unfolding outbox_step_def by blast
  have "pg_logs_ok d'"
    using assms f risk_move_keeps outbox_step_ids [OF assms(2)]
    by (auto simp: pg_inv_def pg_logs_ok_def simp del: map_map)
  then show ?thesis
    using assms(1) f(1)
    by (simp add: pg_inv_def pg_accounts_ok_def pg_transactions_ok_def pg_postings_ok_def pg_balances_ok_def pg_intents_ok_def
        intent_agrees_def)
qed

lemma outbox_step_views: "outbox_step d d' \<Longrightarrow> pg_bound d' = pg_bound d" "outbox_step d d' \<Longrightarrow> pg_accts d' = pg_accts d"
  by (auto simp: outbox_step_def pg_bound_def select_transfer_def pg_accts_def fun_eq_iff)

end
