(* ===== verification/Pg_Sessions.thy ===== *)
theory Pg_Sessions
  imports Pg_Outbox
begin

text \<open>
  Sessions on the database: one attempt of a transaction with its faults, histories of the
  transactions of any number of sessions, and the calls of the adapter, which repeat attempts while
  other sessions work.
\<close>

section \<open>One attempt\<close>

text \<open>What a transfer and an opening write.\<close>

definition wrote_transfer :: "externals \<Rightarrow> apply_transfer_input \<Rightarrow> db \<Rightarrow> db \<Rightarrow> bool" where
  "wrote_transfer X inp d d' \<longleftrightarrow> (\<exists>rf rt pq ar. transfer_step X inp rf rt pq ar d \<and>
     d' = transfer_written X inp (row_account rf) (row_account rt) pq ar d)"

definition wrote_account :: "externals \<Rightarrow> create_account_input \<Rightarrow> db \<Rightarrow> db \<Rightarrow> bool" where
  "wrote_account X inp d d' \<longleftrightarrow> (\<exists>pq ar. account_step X inp pq ar d \<and> d' = account_written X inp pq ar d)"

lemma wrote_transferI:
  "transfer_step X inp rf rt pq ar d \<Longrightarrow>
     wrote_transfer X inp d (transfer_written X inp (row_account rf) (row_account rt) pq ar d)"
  unfolding wrote_transfer_def by blast

lemma wrote_transfer_facts:
  assumes "pg_inv d" "wrote_transfer X inp d d'"
  shows "pg_inv d'" "pg_bound d' = (pg_bound d)(scope_of (ati_Transfer inp) \<mapsto> pg_stored X (ati_Transfer inp))"
    "pg_accts d k = Some a \<Longrightarrow> \<exists>a'. pg_accts d' k = Some a' \<and> same_identity a a' \<and>
       sint (account_BalanceMinor a') = sint (account_BalanceMinor a) + delta k (ati_Transfer inp)"
proof -
  obtain rf rt pq ar where w: "transfer_step X inp rf rt pq ar d"
    "d' = transfer_written X inp (row_account rf) (row_account rt) pq ar d"
    using assms(2) unfolding wrote_transfer_def by blast
  show "pg_inv d'" "pg_bound d' = (pg_bound d)(scope_of (ati_Transfer inp) \<mapsto> pg_stored X (ati_Transfer inp))"
    using transfer_written_inv [OF assms(1) w(1)] pg_bound_transfer [OF assms(1) w(1)] w(2) by simp_all
  show "\<exists>a'. pg_accts d' k = Some a' \<and> same_identity a a' \<and>
      sint (account_BalanceMinor a') = sint (account_BalanceMinor a) + delta k (ati_Transfer inp)" if "pg_accts d k = Some a"
    using pg_accts_transfer [OF w(1) that] w(2) by simp
qed

lemma wrote_account_facts:
  assumes "pg_inv d" "wrote_account X inp d d'"
  shows "pg_inv d'" "pg_bound d' = pg_bound d"
    "pg_accts d k = Some a \<Longrightarrow> \<exists>a'. pg_accts d' k = Some a' \<and> same_identity a a' \<and> (\<not> account_System a \<longrightarrow> a' = a)"
  using assms account_written_inv pg_bound_account pg_accts_account unfolding wrote_account_def by blast+

lemma transfer_attempt_cases:
  assumes "pg_inv d" "run_tx at (applyTransferTx X inp at) d = (r, d')"
  obtains (failed) e where "r = Inl e" "d' = d"
  | (replay) t where "r = Inr \<lparr>result_Transfer = t, result_Replayed = True\<rparr>" "d' = d"
      "pg_bound d (scope_of (ati_Transfer inp)) = Some t" "transfer_Intent t = transfer_Intent (ati_Transfer inp)"
  | (fresh) "r = Inr \<lparr>result_Transfer = ati_Transfer inp, result_Replayed = False\<rparr>"
      "pg_bound d (scope_of (ati_Transfer inp)) = None" "wrote_transfer X inp d d'"
  | (lost) e where "r = Inl e" "pg_bound d (scope_of (ati_Transfer inp)) = None" "wrote_transfer X inp d d'"
      "at_commit at = CommitLost e"
  using assms(2)
proof (cases rule: run_tx_cases)
  case failed
  then show ?thesis by (rule that(1))
next
  case (replied x)
  from assms(1) replied(1) show ?thesis
    by (cases rule: applyTransferTx_cases) (use replied that(2,3) in \<open>auto dest: wrote_transferI\<close>)
next
  case (lost x e)
  from assms(1) lost(1) show ?thesis
    by (cases rule: applyTransferTx_cases) (use lost that(1,4) in \<open>auto dest: wrote_transferI\<close>)
qed

lemma account_attempt_cases:
  assumes "run_tx at (createAccountTx X inp at) d = (r, d')"
  obtains (failed) e where "r = Inl e" "d' = d"
  | (opened) "r = Inr ()" "wrote_account X inp d d'"
  | (lost) e where "r = Inl e" "wrote_account X inp d d'" "at_commit at = CommitLost e"
  using assms
proof (cases rule: run_tx_cases)
  case failed
  then show ?thesis by (rule that(1))
next
  case (replied x)
  then show ?thesis using that(2) by (auto elim!: createAccountTx_cases simp: wrote_account_def)
next
  case (lost x e)
  then show ?thesis using that(3) by (auto elim!: createAccountTx_cases simp: wrote_account_def)
qed

lemma transfer_attempt_inv: "pg_inv d \<Longrightarrow> run_tx at (applyTransferTx X inp at) d = (r, d') \<Longrightarrow> pg_inv d'"
  by (rule transfer_attempt_cases [of d at X inp r d']) (auto dest: wrote_transfer_facts(1))

lemma account_attempt_inv: "pg_inv d \<Longrightarrow> run_tx at (createAccountTx X inp at) d = (r, d') \<Longrightarrow> pg_inv d'"
  by (erule account_attempt_cases) (auto dest: wrote_account_facts(1))

section \<open>Histories\<close>

text \<open>
  Transactions of any sessions, in the order in which the server serialises them, each with what
  happens around it: those of the ledger, and the claims and marks of outbox workers.
\<close>

datatype pg_tx =
    TxAccount create_account_input attempt
  | TxTransfer apply_transfer_input attempt
  | TxClaim claim_env int time
  | TxPublished attempt go_string time
  | TxFailed attempt go_string go_string time

fun pg_tx_step :: "externals \<Rightarrow> pg_tx \<Rightarrow> db \<Rightarrow> db" where
  "pg_tx_step X (TxAccount inp at) d = snd (run_tx at (createAccountTx X inp at) d)"
| "pg_tx_step X (TxTransfer inp at) d = snd (run_tx at (applyTransferTx X inp at) d)"
| "pg_tx_step X (TxClaim ce limit now) d = snd (pg_ClaimRiskEvents X ce limit now d)"
| "pg_tx_step X (TxPublished at eid now) d = snd (pg_MarkRiskEventPublished X at eid now d)"
| "pg_tx_step X (TxFailed at eid reason retryAt) d = snd (pg_MarkRiskEventFailed X at eid reason retryAt d)"

fun pg_history :: "externals \<Rightarrow> pg_tx list \<Rightarrow> db \<Rightarrow> db" where
  "pg_history X [] d = d"
| "pg_history X (tx # txs) d = pg_history X txs (pg_tx_step X tx d)"

lemma pg_tx_step_cases:
  assumes "pg_inv d"
  obtains (none) "pg_tx_step X tx d = d"
  | (account) inp where "wrote_account X inp d (pg_tx_step X tx d)"
  | (transfer) inp where "wrote_transfer X inp d (pg_tx_step X tx d)" "pg_bound d (scope_of (ati_Transfer inp)) = None"
  | (outbox) "outbox_step d (pg_tx_step X tx d)"
proof (cases tx)
  case (TxAccount inp at)
  obtain r d' where "run_tx at (createAccountTx X inp at) d = (r, d')" by fastforce
  then show ?thesis by (rule account_attempt_cases) (use TxAccount \<open>run_tx at _ d = _\<close> that in auto)
next
  case (TxTransfer inp at)
  obtain r d' where "run_tx at (applyTransferTx X inp at) d = (r, d')" by fastforce
  with assms show ?thesis by (rule transfer_attempt_cases) (use TxTransfer \<open>run_tx at _ d = _\<close> that in auto)
next
  case (TxClaim ce limit now)
  then show ?thesis using outbox claim_step [OF pg_inv_risk_ids [OF assms], of X ce limit now] by (simp add: prod_eq_iff)
next
  case (TxPublished at eid now)
  then show ?thesis using outbox mark_published_step [of X at eid now d] by (simp add: prod_eq_iff)
next
  case (TxFailed at eid reason retryAt)
  then show ?thesis using outbox mark_failed_step [of X at eid reason retryAt d] by (simp add: prod_eq_iff)
qed

lemma pg_tx_step_inv: "pg_inv d \<Longrightarrow> pg_inv (pg_tx_step X tx d)"
  by (rule pg_tx_step_cases [of d X tx]) (auto dest: wrote_account_facts(1) wrote_transfer_facts(1) outbox_step_inv)

lemma pg_tx_step_bound: "pg_inv d \<Longrightarrow> pg_bound d sc = Some t \<Longrightarrow> pg_bound (pg_tx_step X tx d) sc = Some t"
  by (rule pg_tx_step_cases [of d X tx]) (auto simp: wrote_account_facts(2) wrote_transfer_facts(2) outbox_step_views)

lemma pg_history_inv: "pg_inv d \<Longrightarrow> pg_inv (pg_history X txs d)"
  by (induction txs arbitrary: d) (simp_all add: pg_tx_step_inv)

lemma pg_history_bound: "pg_inv d \<Longrightarrow> pg_bound d sc = Some t \<Longrightarrow> pg_bound (pg_history X txs d) sc = Some t"
  by (induction txs arbitrary: d) (simp_all add: pg_tx_step_inv pg_tx_step_bound)

section \<open>Calls\<close>

text \<open>Between the attempts of a call other sessions run transactions, or none do.\<close>

definition other_sessions :: "externals \<Rightarrow> call_env \<Rightarrow> bool" where
  "other_sessions X env \<longleftrightarrow> (\<forall>n d. \<exists>txs. ce_others env n d = pg_history X txs d)"

definition alone :: "call_env \<Rightarrow> bool" where
  "alone env \<longleftrightarrow> (\<forall>n d. ce_others env n d = d)"

definition no_lost_commit :: "call_env \<Rightarrow> bool" where
  "no_lost_commit env \<longleftrightarrow> (\<forall>n e. at_commit (ce_attempt env n) \<noteq> CommitLost e)"

lemma other_sessions_inv: "other_sessions X env \<Longrightarrow> pg_inv d \<Longrightarrow> pg_inv (ce_others env n d)"
  by (metis other_sessions_def pg_history_inv)

lemma alone_other_sessions: "alone env \<Longrightarrow> other_sessions X env"
  by (metis alone_def other_sessions_def pg_history.simps(1))

text \<open>The loop keeps what other sessions and attempts keep, and a reply is that of its last attempt.\<close>

lemma retry_loop_keeps:
  assumes "P d" "\<And>n d. P d \<Longrightarrow> P (ce_others env n d)"
    and "\<And>n d r d'. P d \<Longrightarrow> run_tx (ce_attempt env n) (body (ce_attempt env n)) d = (r, d') \<Longrightarrow> P d'"
  shows "P (snd (retry_loop env again body n k d))"
  using assms(1)
proof (induction k arbitrary: n d)
  case (Suc k)
  obtain r d' where r: "run_tx (ce_attempt env n) (body (ce_attempt env n)) (ce_others env n d) = (r, d')" by fastforce
  have "P (ce_others env n d)" "P d'" using assms(2) assms(3) [OF _ r] Suc.prems by auto
  with Suc.IH r show ?case by (auto simp: Let_def split: option.split sum.split)
qed simp

lemma retry_loop_reply:
  assumes "retry_loop env again body n k d = (Inr x, d')" "P d" "\<And>n d. P d \<Longrightarrow> P (ce_others env n d)"
    and "\<And>n d r d'. P d \<Longrightarrow> run_tx (ce_attempt env n) (body (ce_attempt env n)) d = (r, d') \<Longrightarrow> P d'"
  obtains m d0 where "P d0" "run_tx (ce_attempt env m) (body (ce_attempt env m)) d0 = (Inr x, d')"
  using assms(1,2)
proof (induction k arbitrary: n d thesis)
  case (Suc k)
  obtain r d1 where r: "run_tx (ce_attempt env n) (body (ce_attempt env n)) (ce_others env n d) = (r, d1)" by fastforce
  have p: "P (ce_others env n d)" "P d1" using assms(3) assms(4) [OF _ r] Suc.prems(3) by auto
  show ?case
  proof (cases r)
    case (Inl e)
    then have "retry_loop env again body (Suc n) k d1 = (Inr x, d')"
      using Suc.prems(2) r by (auto simp: Let_def split: option.splits if_splits)
    then show ?thesis by (rule Suc.IH [rotated]) (use p Suc.prems(1) in blast)+
  next
    case (Inr y)
    then show ?thesis using Suc.prems(1) [OF p(1)] Suc.prems(2) r by (auto simp: Let_def split: option.splits)
  qed
qed simp

text \<open>A call of the adapter while no other session works.\<close>

lemma apply_when_bound:
  assumes "pg_inv d" "alone env" "pg_bound d (scope_of (ati_Transfer inp)) = Some t"
  shows "snd (pg_ApplyTransfer X env inp d) = d"
proof -
  have "d' = d" if "run_tx (ce_attempt env n) (applyTransferTx X inp (ce_attempt env n)) d = (r, d')" for n r d'
    using assms(1) that by (cases rule: transfer_attempt_cases) (use assms(3) in auto)
  then have "snd (retry_loop env again (applyTransferTx X inp) n k d) = d" for again n k
    using assms(2) by (intro retry_loop_keeps [where P = "\<lambda>d'. d' = d"]) (auto simp: alone_def)
  then show ?thesis by (simp add: pg_ApplyTransfer_def split: option.split)
qed

lemma apply_when_unbound:
  assumes "pg_inv d" "alone env" "pg_bound d (scope_of (ati_Transfer inp)) = None"
  shows "snd (pg_ApplyTransfer X env inp d) = d \<or> wrote_transfer X inp d (snd (pg_ApplyTransfer X env inp d))"
proof -
  let ?P = "\<lambda>d'. d' = d \<or> wrote_transfer X inp d d'"
  have step: "?P d'" if "?P d1" "run_tx (ce_attempt env n) (applyTransferTx X inp (ce_attempt env n)) d1 = (r, d')" for n r d1 d'
  proof -
    have "pg_inv d1" using that(1) assms(1) wrote_transfer_facts(1) by blast
    from this that(2) show ?thesis
    proof (cases rule: transfer_attempt_cases)
      case fresh
      with that(1) wrote_transfer_facts(2) [OF assms(1), of X inp d1] show ?thesis by auto
    next
      case lost
      with that(1) wrote_transfer_facts(2) [OF assms(1), of X inp d1] show ?thesis by auto
    qed (use that(1) in auto)
  qed
  have "?P (snd (retry_loop env again (applyTransferTx X inp) n k d))" for again n k
    by (rule retry_loop_keeps [where P = ?P]) (use step assms(2) in \<open>auto simp: alone_def\<close>)
  then show ?thesis by (simp add: pg_ApplyTransfer_def split: option.split)
qed

text \<open>A reply of the adapter, whatever other sessions do, names the transfer that the database binds.\<close>

definition reply_bound :: "externals \<Rightarrow> apply_transfer_input \<Rightarrow> transfer_result \<Rightarrow> db \<Rightarrow> bool" where
  "reply_bound X inp res d \<longleftrightarrow>
     (\<exists>t. pg_bound d (scope_of (ati_Transfer inp)) = Some t \<and> transfer_Intent t = transfer_Intent (ati_Transfer inp) \<and>
        (if result_Replayed res then result_Transfer res = t
         else result_Transfer res = ati_Transfer inp \<and> t = pg_stored X (ati_Transfer inp)))"

lemma apply_reply:
  assumes "pg_inv d" "other_sessions X env" "pg_ApplyTransfer X env inp d = (Inr res, d')"
  shows "pg_inv d'" "reply_bound X inp res d'"
proof -
  have loop: "retry_loop env (\<lambda>e. isRetryable e \<or> isIdempotencyRace e) (applyTransferTx X inp) 0 maxRetries d = (Inr res, d')"
    using assms(3) by (auto simp: pg_ApplyTransfer_def split: option.splits)
  obtain m d0 where m: "pg_inv d0" "run_tx (ce_attempt env m) (applyTransferTx X inp (ce_attempt env m)) d0 = (Inr res, d')"
    by (rule retry_loop_reply [OF loop, of pg_inv]) (use assms(1,2) other_sessions_inv transfer_attempt_inv in auto)
  show "pg_inv d'" using transfer_attempt_inv [OF m] .
  from m show "reply_bound X inp res d'"
    by (cases rule: transfer_attempt_cases)
      (use m(1) in \<open>auto simp: reply_bound_def wrote_transfer_facts(2) pg_stored_def\<close>)
qed

lemma apply_inv:
  assumes "pg_inv d" "other_sessions X env"
  shows "pg_inv (snd (pg_ApplyTransfer X env inp d))"
proof -
  have "pg_inv (snd (retry_loop env again (applyTransferTx X inp) n k d))" for again n k
    by (rule retry_loop_keeps [where P = pg_inv]) (use assms other_sessions_inv transfer_attempt_inv in auto)
  then show ?thesis using assms(1) by (simp add: pg_ApplyTransfer_def split: option.split)
qed

lemma create_inv:
  assumes "pg_inv d" "other_sessions X env"
  shows "pg_inv (snd (pg_CreateAccount X env inp d))"
proof -
  have "pg_inv (snd (retry_loop env again (createAccountTx X inp) n k d))" for again n k
    by (rule retry_loop_keeps [where P = pg_inv]) (use assms other_sessions_inv account_attempt_inv in auto)
  then show ?thesis using assms(1) by (auto simp: pg_CreateAccount_def split: option.split prod.split sum.split) (metis snd_conv)+
qed

text \<open>A call that fails without a lost commit has changed nothing.\<close>

lemma retry_loop_error:
  assumes "alone env" "no_lost_commit env" "retry_loop env again body n k d = (Inl e, d')"
  shows "d' = d"
  using assms(3)
proof (induction k arbitrary: n)
  case (Suc k)
  obtain r d1 where r: "run_tx (ce_attempt env n) (body (ce_attempt env n)) d = (r, d1)" by fastforce
  have o: "ce_others env n d = d" using assms(1) by (simp add: alone_def)
  show ?case
  proof (cases r)
    case (Inl e1)
    from r have "d1 = d" by (rule run_tx_cases) (use assms(2) Inl in \<open>auto simp: no_lost_commit_def\<close>)
    with Suc r o Inl show ?thesis by (auto simp: Let_def split: option.splits if_splits)
  next
    case (Inr x)
    with Suc.prems r o show ?thesis by (auto simp: Let_def split: option.splits)
  qed
qed simp

end
