(* ===== verification/Pg_Ledger.thy ===== *)
theory Pg_Ledger
  imports Pg_Sessions Service_Inputs
begin

text \<open>
  The PostgreSQL adapter fulfils the contract of a repository (\<open>pg\<close>) and of a repository of the
  service (\<open>pgsvc\<close>), for every server, driver and assignment of sequence numbers.
\<close>

section \<open>Calls with a working server\<close>

lemma calm_sel [simp]:
  "alone (calm sq c)" "no_lost_commit (calm sq c)" "other_sessions X (calm sq c)"
  "at_commit (ce_attempt (calm sq c) n) = CommitOK" "at_begin (ce_attempt (calm sq c) n) = c"
  "at_fault (ce_attempt (calm sq c) n) k = None" "ce_others (calm sq c) n d = d" "at_seq (ce_attempt (calm sq c) n) = sq"
  using alone_other_sessions [of "calm sq c" X] by (simp_all add: calm_def alone_def no_lost_commit_def)

lemma pg_repository_sel [simp]:
  "repo_CreateAccount (pg_repository X sq) = (\<lambda>c inp d. pg_CreateAccount X (calm sq c) inp d)"
  "repo_GetAccount (pg_repository X sq) = (\<lambda>c aid d. (pg_GetAccount c aid d, d))"
  "repo_ApplyTransfer (pg_repository X sq) = (\<lambda>c inp d. pg_ApplyTransfer X (calm sq c) inp d)"
  by (simp_all add: pg_repository_def)

lemma calm_first:
  assumes "run_tx (ce_attempt (calm sq None) 0) (body (ce_attempt (calm sq None) 0)) d = (r, d')"
    and "\<And>e. r = Inl e \<Longrightarrow> \<not> again e"
  shows "retry_loop (calm sq None) again body 0 maxRetries d = (case r of Inl e \<Rightarrow> Inl (mapDatabaseError e) | Inr x \<Rightarrow> Inr x, d')"
proof -
  have "maxRetries = Suc 3" by (simp add: maxRetries_def)
  with assms show ?thesis unfolding \<open>maxRetries = Suc 3\<close> retry_loop.simps by (simp add: Let_def split: sum.split)
qed

text \<open>The reply of a call is that of one attempt on the database that the call found.\<close>

lemma calm_reply:
  assumes "retry_loop (calm sq c) again body n k d = (Inr x, d')"
  obtains m where "run_tx (ce_attempt (calm sq c) m) (body (ce_attempt (calm sq c) m)) d = (Inr x, d')"
  using assms
proof (induction k arbitrary: n thesis)
  case (Suc k)
  obtain r d1 where r: "run_tx (ce_attempt (calm sq c) n) (body (ce_attempt (calm sq c) n)) d = (r, d1)" by fastforce
  show ?case
  proof (cases r)
    case (Inl e)
    from r have "d1 = d" by (rule run_tx_cases) (use Inl in auto)
    then show ?thesis
      using Suc r Inl by (auto simp: Let_def split: option.splits if_splits)
  next
    case (Inr y)
    then show ?thesis using Suc.prems r by (auto simp: Let_def split: option.splits)
  qed
qed simp

lemma calm_apply_reply:
  assumes "pg_inv d" "pg_ApplyTransfer X (calm sq c) inp d = (Inr res, d')"
  obtains (replay) t where "res = \<lparr>result_Transfer = t, result_Replayed = True\<rparr>" "d' = d"
      "pg_bound d (scope_of (ati_Transfer inp)) = Some t" "transfer_Intent t = transfer_Intent (ati_Transfer inp)"
  | (fresh) "res = \<lparr>result_Transfer = ati_Transfer inp, result_Replayed = False\<rparr>"
      "pg_bound d (scope_of (ati_Transfer inp)) = None" "wrote_transfer X inp d d'"
proof -
  have "retry_loop (calm sq c) (\<lambda>e. isRetryable e \<or> isIdempotencyRace e) (applyTransferTx X inp) 0 maxRetries d = (Inr res, d')"
    using assms(2) by (auto simp: pg_ApplyTransfer_def split: option.splits)
  then obtain m where m: "run_tx (ce_attempt (calm sq c) m) (applyTransferTx X inp (ce_attempt (calm sq c) m)) d = (Inr res, d')"
    by (rule calm_reply)
  with assms(1) show ?thesis by (cases rule: transfer_attempt_cases) (use that in auto)
qed

lemma calm_create_cases:
  assumes "pg_CreateAccount X (calm sq c) inp d = (r, d')"
  obtains (failed) e where "r = Some e" "d' = d"
  | (opened) "r = None" "wrote_account X inp d d'"
proof (cases r)
  case (Some e)
  then have "d' = d"
    using assms retry_loop_error [of "calm sq c" _ "createAccountTx X inp" 0 maxRetries d]
    by (auto simp: pg_CreateAccount_def split: option.splits prod.splits sum.splits)
  with Some show ?thesis by (rule failed)
next
  case None
  then have "retry_loop (calm sq c) isRetryable (createAccountTx X inp) 0 maxRetries d = (Inr (), d')"
    using assms by (auto simp: pg_CreateAccount_def split: option.splits prod.splits sum.splits)
  then obtain m where m: "run_tx (ce_attempt (calm sq c) m) (createAccountTx X inp (ce_attempt (calm sq c) m)) d = (Inr (), d')"
    by (rule calm_reply)
  then show ?thesis by (cases rule: account_attempt_cases) (use None opened in auto)
qed

lemma pg_bound_texts:
  assumes "pg_inv d" "pg_bound d (actor, key) = Some t"
  shows "valid_text actor" "valid_text key" "scope_of t = (actor, key)"
proof -
  from assms(2) obtain jt ti where j: "joined d actor key jt ti" "t = stored_transfer key jt ti"
    unfolding pg_bound_iff [OF assms(1)] by blast
  then have "transaction_texts jt" using assms(1) by (auto simp: joined_def pg_inv_def pg_transactions_ok_def)
  with j show "valid_text actor" "valid_text key" "scope_of t = (actor, key)"
    by (auto simp: joined_def transaction_texts_def scope_of_def stored_transfer_def)
qed

lemma pg_apply_bound:
  assumes "pg_inv d" "validateTransfer inp = None" "pg_bound d (scope_of (ati_Transfer inp)) = Some t"
  shows "pg_ApplyTransfer X (calm sq None) inp d =
    (if transfer_Intent t = transfer_Intent (ati_Transfer inp)
     then Inr \<lparr>result_Transfer = t, result_Replayed = True\<rparr> else Inl ErrIdempotencyConflict, d)"
proof -
  let ?t = "ati_Transfer inp" and ?at = "ce_attempt (calm sq None) 0"
  note b = assms(3) [unfolded scope_of_def]
  obtain fp where sel: "select_transfer (transfer_ActorID ?t) (transfer_IdempotencyKey ?t) d = Some (t, fp)"
    using b by (auto simp: pg_bound_def)
  have find: "findIdempotentTransfer ?at (transfer_ActorID ?t) (transfer_IdempotencyKey ?t) d = Inr (Some t, d)"
    using sel select_transfer_digest [OF assms(1) sel] pg_bound_texts(1,2) [OF assms(1) b]
    by (simp add: findIdempotentTransfer_def exec_def)
  have body: "applyTransferTx X inp ?at d = (if transfer_Intent t = transfer_Intent ?t
      then Inr (\<lparr>result_Transfer = t, result_Replayed = True\<rparr>, d) else Inl ErrIdempotencyConflict)"
    using find by (auto simp: applyTransferTx_def bind_stmt_def return_stmt_def throw_def TransferIntent_Equal_def Let_def)
  have "run_tx ?at (applyTransferTx X inp ?at) d = (if transfer_Intent t = transfer_Intent ?t
      then Inr \<lparr>result_Transfer = t, result_Replayed = True\<rparr> else Inl ErrIdempotencyConflict, d)"
    using deferred_triggers_None [OF assms(1)] by (simp add: run_tx_def body)
  from calm_first [where body = "applyTransferTx X inp", OF this, of "\<lambda>e. isRetryable e \<or> isIdempotencyRace e"] show ?thesis
    unfolding pg_ApplyTransfer_def assms(2)
    by (auto simp: isRetryable_def isIdempotencyRace_def mapDatabaseError_def split: if_splits)
qed

section \<open>The contract\<close>

definition pg_input_ok :: "apply_transfer_input \<Rightarrow> bool" where
  "pg_input_ok inp \<longleftrightarrow> validateTransfer inp = None"

lemma pg_step_inv: "pg_inv d \<Longrightarrow> pg_inv (repo_step (pg_repository X sq) op d)"
  by (cases op) (simp_all add: create_inv apply_inv)

lemma currency_check_iff: "currency_check c \<longleftrightarrow> ValidateCurrency c = None"
  by (simp add: currency_check_def ValidateCurrency_iff)

lemma pg_GetAccount_eq:
  assumes "pg_inv d"
  shows "pg_GetAccount None k d = (if valid_text k then (case locked d k of None \<Rightarrow> Inl ErrNotFound | Some r \<Rightarrow> Inr (row_account r))
    else Inl encoding_error)"
proof -
  have "find (\<lambda>r. acc_id r = k \<and> \<not> acc_system r) rows = (case lookup acc_id k rows of None \<Rightarrow> None | Some r \<Rightarrow> if acc_system r then None else Some r)"
    if "distinct (map acc_id rows)" for rows :: "account_row list"
    using that
  proof (induction rows)
    case (Cons r rows)
    have "lookup acc_id (acc_id r) rows = None" using Cons.prems by (auto simp: lookup_None)
    with Cons show ?case by (auto simp: lookup_def)
  qed simp
  then have "find (\<lambda>r. acc_id r = k \<and> \<not> acc_system r) (db_accounts d) = locked d k"
    using assms by (simp add: locked_def pg_inv_def pg_accounts_ok_def)
  then show ?thesis by (simp add: pg_GetAccount_def)
qed

lemma locked_accts: "locked d k = Some r \<Longrightarrow> pg_accts d k = Some (row_account r) \<and> \<not> account_System (row_account r)"
  by (simp add: locked_Some pg_accts_def)

interpretation pg: ledger_repository "pg_repository X sq" pg_inv pg_accts pg_bound "pg_stored X" pg_input_ok for X sq
proof
  fix d op
  assume "pg_inv d"
  then show "pg_inv (repo_step (pg_repository X sq) op d)" by (rule pg_step_inv)
next
  fix d c cinp r d' k a
  assume inv: "pg_inv d" and cr: "repo_CreateAccount (pg_repository X sq) c cinp d = (r, d')" and a: "pg_accts d k = Some a"
  from cr have "pg_CreateAccount X (calm sq c) cinp d = (r, d')" by simp
  then show "\<exists>a'. pg_accts d' k = Some a' \<and> same_identity a a' \<and> (\<not> account_System a \<longrightarrow> a' = a)"
    by (rule calm_create_cases) (use a wrote_account_facts(3) [OF inv] in auto)
next
  fix d c cinp r d'
  assume inv: "pg_inv d" and cr: "repo_CreateAccount (pg_repository X sq) c cinp d = (r, d')"
  from cr have "pg_CreateAccount X (calm sq c) cinp d = (r, d')" by simp
  then show "pg_bound d' = pg_bound d"
    by (rule calm_create_cases) (use wrote_account_facts(2) [OF inv] in auto)
next
  fix d c inp e d'
  assume "pg_inv d" "repo_ApplyTransfer (pg_repository X sq) c inp d = (Inl e, d')"
  then show "d' = d"
    using retry_loop_error [of "calm sq c" _ "applyTransferTx X inp" 0 maxRetries d]
    by (auto simp: pg_ApplyTransfer_def split: option.splits)
next
  fix d c inp res d'
  assume inv: "pg_inv d" and ap: "repo_ApplyTransfer (pg_repository X sq) c inp d = (Inr res, d')" and re: "result_Replayed res"
  show "d' = d \<and> pg_bound d (scope_of (ati_Transfer inp)) = Some (result_Transfer res) \<and>
      transfer_Intent (result_Transfer res) = transfer_Intent (ati_Transfer inp)"
    using inv ap [simplified] by (cases rule: calm_apply_reply) (use re in auto)
next
  fix d inp t
  assume "pg_inv d" "pg_input_ok inp" "pg_bound d (scope_of (ati_Transfer inp)) = Some t"
  then show "repo_ApplyTransfer (pg_repository X sq) None inp d =
    (if transfer_Intent t = transfer_Intent (ati_Transfer inp)
     then Inr \<lparr>result_Transfer = t, result_Replayed = True\<rparr> else Inl ErrIdempotencyConflict, d)"
    by (simp add: pg_apply_bound pg_input_ok_def)
next
  fix d c inp res d'
  assume inv: "pg_inv d" and ap: "repo_ApplyTransfer (pg_repository X sq) c inp d = (Inr res, d')"
    and new: "\<not> result_Replayed res"
  show "result_Transfer res = ati_Transfer inp \<and> pg_bound d (scope_of (ati_Transfer inp)) = None \<and>
      pg_bound d' = (pg_bound d)(scope_of (ati_Transfer inp) \<mapsto> pg_stored X (ati_Transfer inp)) \<and>
      (\<forall>k a. pg_accts d k = Some a \<longrightarrow> (\<exists>a'. pg_accts d' k = Some a' \<and> same_identity a a' \<and>
        sint (account_BalanceMinor a') = sint (account_BalanceMinor a) + delta k (ati_Transfer inp)))"
    using inv ap [simplified]
    by (cases rule: calm_apply_reply) (use new wrote_transfer_facts(2,3) [OF inv] in auto)
next
  fix d k a
  assume "pg_inv d" "pg_accts d k = Some a" "\<not> account_System a"
  then show "0 \<le> sint (account_BalanceMinor a)" by (rule pg_accts_funded)
next
  fix d k a
  assume "pg_inv d" "pg_accts d k = Some a"
  from pg_accts_row [OF this] show "ValidateCurrency (account_Currency a) = None"
    by (auto simp: account_check_def currency_check_iff)
next
  fix t show "transfer_Intent (pg_stored X t) = transfer_Intent t" by (simp add: pg_stored_def)
next
  fix d and sc :: "go_string \<times> go_string" and t
  assume "pg_inv d" "pg_bound d sc = Some t"
  then show "scope_of t = sc" using pg_bound_texts(3) [of d "fst sc" "snd sc" t] by simp
next
  fix d c k g d'
  assume inv: "pg_inv d" and get: "repo_GetAccount (pg_repository X sq) c k d = (g, d')"
  have "pg_accts d k = Some a \<and> \<not> account_System a" if "g = Inr a" for a
    using get that locked_accts [of d k]
    by (cases c) (auto simp: pg_GetAccount_eq [OF inv] pg_GetAccount_def [of "Some _"] split: if_splits option.splits)
  with get show "d' = d \<and> (\<forall>a. g = Inr a \<longrightarrow> pg_accts d k = Some a \<and> \<not> account_System a)" by simp
next
  fix d k a
  assume inv: "pg_inv d" and a: "pg_accts d k = Some a" "\<not> account_System a"
  from pg_accts_row [OF inv a(1)] have "valid_text k" by (auto simp: account_texts_def)
  with a show "repo_GetAccount (pg_repository X sq) None k d = (Inr a, d)"
    by (auto simp: pg_GetAccount_eq [OF inv] pg_accts_def locked_def)
qed

text \<open>The two adapters accept the same inputs, but for the amount and the currency.\<close>

lemma validateTransfer_iff:
  "validateTransfer inp = None \<longleftrightarrow> transfer_input_error inp = None \<and>
     0 < sint (intent_AmountMinor (transfer_Intent (ati_Transfer inp))) \<and> ValidateCurrency (transfer_Currency (ati_Transfer inp)) = None"
  by (auto simp: validateTransfer_def transfer_input_error_def int64_simps not_le Let_def split: option.split)

interpretation pgsvc: ledger_service "pg_repository X sq" pg_inv pg_accts pg_bound "pg_stored X" pg_input_ok for X sq
proof
  fix actor cfg c now tid risk p0 p1 currency aud
  assume a: "Principal_Valid actor" "transfer_command_error cfg c = None" "\<not> IsZero now"
    "risk_for cfg now c (drawn_id ''txn'' tid) risk" "drawn_id ''post'' p0 \<noteq> drawn_id ''post'' p1"
    and cur: "ValidateCurrency currency = None"
  have "0 < sint (tc_AmountMinor c)"
    using a(2) by (auto simp: transfer_command_error_def int64_simps not_le split: if_splits)
  with drawn_input_ok [OF a(1-4), of p0 p1 currency aud] a(5) cur show "pg_input_ok (drawn_input actor now c currency tid risk p0 p1 aud)"
    by (simp add: pg_input_ok_def validateTransfer_iff drawn_input_def transfer_input_def new_transfer_def command_intent_def)
qed

end
