(* ===== verification/Pg_Success.thy ===== *)
theory Pg_Success
  imports Pg_Ledger
begin

text \<open>
  The converse of \<open>Pg_Commit\<close>: a transfer whose values the columns can hold, between existing
  accounts with enough funds, is written. This gives the progress of the adapter and, in
  \<open>Pg_Refinement\<close>, its agreement with the in-memory adapter.
\<close>

text \<open>The values of an input that the columns of the tables can hold.\<close>

definition transfer_storable :: "externals \<Rightarrow> apply_transfer_input \<Rightarrow> bool" where
  "transfer_storable X inp \<longleftrightarrow>
     (let t = ati_Transfer inp; jt = transfer_row X t (transfer_Currency t) in
      transaction_texts jt \<and> transaction_check jt \<and>
      (\<forall>p \<in> {fst (ati_PostingIDs inp), snd (ati_PostingIDs inp)}. valid_text p \<and> chars_between 1 128 p) \<and>
      (\<exists>m. x_metadata X (case audit_Metadata (ati_Audit inp) of None \<Rightarrow> [] | Some m \<Rightarrow> m) = Inr m) \<and>
      (\<forall>sq m. audit_texts (audit_row_of X sq m (ati_Audit inp)) \<and> audit_check (audit_row_of X sq m (ati_Audit inp))) \<and>
      (\<forall>ev \<in> set_option (ati_Risk inp). risk_texts (risk_row_of X (transfer_ID t) ev) \<and> risk_check (risk_row_of X (transfer_ID t) ev)))"

text \<open>The identifiers of an input that no row has yet.\<close>

definition transfer_ids_free :: "apply_transfer_input \<Rightarrow> db \<Rightarrow> bool" where
  "transfer_ids_free inp d \<longleftrightarrow>
     transfer_ID (ati_Transfer inp) \<notin> jt_id ` set (db_transactions d) \<and>
     fst (ati_PostingIDs inp) \<notin> po_id ` set (db_postings d) \<and> snd (ati_PostingIDs inp) \<notin> po_id ` set (db_postings d) \<and>
     audit_ID (ati_Audit inp) \<notin> au_id ` set (db_audit d) \<and>
     (\<forall>ev \<in> set_option (ati_Risk inp). risk_ID ev \<notin> rk_id ` set (db_risk d))"

text \<open>An identity column numbers its rows without repetition.\<close>

definition fresh_numbers :: "(db \<Rightarrow> nat \<Rightarrow> int64) \<Rightarrow> db \<Rightarrow> bool" where
  "fresh_numbers sq d \<longleftrightarrow>
     (\<forall>d'. (db_postings d' = db_postings d \<longrightarrow> sq d' 0 \<notin> po_sequence_no ` set (db_postings d) \<and>
              sq d' 1 \<notin> po_sequence_no ` set (db_postings d) \<and> sq d' 0 \<noteq> sq d' 1) \<and>
           (db_audit d' = db_audit d \<longrightarrow> sq d' 2 \<notin> au_sequence_no ` set (db_audit d)))"

text \<open>The version counter of an account is not exhausted.\<close>

definition version_left :: "account_row \<Rightarrow> bool" where
  "version_left r \<longleftrightarrow> sint (acc_version r) < 2 ^ 63 - 1"

section \<open>The statements succeed\<close>

lemma write_transfer_ok:
  assumes look: "lookup acc_id (acc_id rf) (db_accounts d) = Some rf" "lookup acc_id (acc_id rt) (db_accounts d) = Some rt"
      "acc_id rf \<noteq> acc_id rt"
    and calm: "\<And>k. at_fault at k = None"
    and m: "x_metadata X (case audit_Metadata (ati_Audit inp) of None \<Rightarrow> [] | Some m \<Rightarrow> m) = Inr m"
    and w: "\<And>sq0 sq1 sq2. sq0 \<notin> po_sequence_no ` set (db_postings d) \<Longrightarrow> sq1 \<notin> po_sequence_no ` set (db_postings d) \<Longrightarrow> sq0 \<noteq> sq1 \<Longrightarrow>
        sq2 \<notin> au_sequence_no ` set (db_audit d) \<Longrightarrow>
        transfer_writable X inp (row_account rf) (row_account rt) rf rt
          (transfer_pair X inp (row_account rf) (row_account rt) sq0 sq1) (audit_row_of X sq2 m (ati_Audit inp)) d"
    and sq: "fresh_numbers (at_seq at) d"
  shows "\<exists>pq ar. write_transfer X at inp (row_account rf) (row_account rt) d =
    Inr (\<lparr>result_Transfer = ati_Transfer inp, result_Replayed = False\<rparr>,
         transfer_written X inp (row_account rf) (row_account rt) pq ar d)"
proof -
  let ?t = "ati_Transfer inp" and ?amt = "intent_AmountMinor (transfer_Intent (ati_Transfer inp))"
  let ?now = "x_time X (transfer_CreatedAt (ati_Transfer inp))"
  define d2 where "d2 = d\<lparr>db_transactions := db_transactions d @ [transfer_row X ?t (acc_currency rf)],
      db_intents := db_intents d @ [intent_row_of ?t (acc_id rf) (acc_id rt)]\<rparr>"
  define d4 where "d4 = d2\<lparr>db_accounts := write_balance (acc_id rt) (acc_balance_minor rt + ?amt) ?now
      (write_balance (acc_id rf) (acc_balance_minor rf - ?amt) ?now (db_accounts d))\<rparr>"
  define pq where "pq = transfer_pair X inp (row_account rf) (row_account rt) (at_seq at d4 0) (at_seq at d4 1)"
  define d5 where "d5 = d4\<lparr>db_postings := db_postings d @ [fst pq, snd pq]\<rparr>"
  define ar where "ar = audit_row_of X (at_seq at d5 2) m (ati_Audit inp)"
  define d6 where "d6 = d5\<lparr>db_audit := db_audit d @ [ar]\<rparr>"
  have "db_postings d4 = db_postings d" "db_audit d5 = db_audit d" by (simp_all add: d4_def d2_def d5_def)
  then have wr: "transfer_writable X inp (row_account rf) (row_account rt) rf rt pq ar d"
    using sq unfolding pq_def ar_def by (intro w) (auto simp: fresh_numbers_def)
  note wr' = wr [unfolded transfer_writable_def Let_def, simplified]
  have s1: "insert_transaction (transfer_row X ?t (acc_currency rf)) d =
      Inr ((), d\<lparr>db_transactions := db_transactions d @ [transfer_row X ?t (acc_currency rf)]\<rparr>)"
    using wr' by (simp add: insert_transaction_Inr)
  have s2: "insert_intent (intent_row_of ?t (acc_id rf) (acc_id rt))
      (d\<lparr>db_transactions := db_transactions d @ [transfer_row X ?t (acc_currency rf)]\<rparr>) = Inr ((), d2)"
    using wr' look by (simp add: insert_intent_Inr d2_def transaction_texts_def split: option.split)
  have s3: "update_account (acc_id rf) (acc_balance_minor rf - ?amt) ?now d2 =
      Inr ((), d2\<lparr>db_accounts := write_balance (acc_id rf) (acc_balance_minor rf - ?amt) ?now (db_accounts d)\<rparr>)"
    using wr' look by (simp add: update_account_Inr d2_def)
  have s4: "update_account (acc_id rt) (acc_balance_minor rt + ?amt) ?now
      (d2\<lparr>db_accounts := write_balance (acc_id rf) (acc_balance_minor rf - ?amt) ?now (db_accounts d)\<rparr>) = Inr ((), d4)"
    using wr' look by (simp add: update_account_Inr d4_def lookup_write_balance)
  have acc: "po_transaction_id (fst pq) = transfer_ID ?t" "po_transaction_id (snd pq) = transfer_ID ?t"
    "po_account_id (fst pq) = acc_id rf" "po_account_id (snd pq) = acc_id rt"
    by (simp_all add: pq_def transfer_pair_def Let_def)
  have fk: "posting_fkeys d4 (fst pq) = None" "posting_fkeys d4 (snd pq) = None"
    using look by (simp_all add: posting_fkeys_None acc d4_def d2_def lookup_write_balance split: option.split)
  have "insert_postings (fst pq) (snd pq) d4 = Inr ((), d5)"
    using wr' fk by (simp add: insert_postings_Inr d5_def d4_def d2_def)
  then have s5: "post_pair X at (ati_PostingIDs inp) (transfer_ID ?t) (acc_id rf, - ?amt) (acc_id rt, ?amt) (transfer_CreatedAt ?t) d4 =
      Inr ((), d5)"
    by (simp add: post_pair_def pq_def transfer_pair_def Let_def)
  have s6: "insertAudit X at 7 (ati_Audit inp) d5 = Inr ((), d6)"
    using wr' calm m by (simp add: insertAudit_Inr ar_def d6_def d5_def d4_def d2_def)
  have s7: "(case ati_Risk inp of None \<Rightarrow> return_stmt ()
      | Some ev \<Rightarrow> exec at 8 (insert_risk (risk_row_of X (transfer_ID ?t) ev))) d6 =
      Inr ((), transfer_written X inp (row_account rf) (row_account rt) pq ar d)"
    using wr' calm
    by (auto simp: exec_Inr insert_risk_Inr transfer_written_def return_stmt_def d6_def d5_def d4_def d2_def Let_def
        split: option.split)
  have "write_transfer X at inp (row_account rf) (row_account rt) d =
      Inr (\<lparr>result_Transfer = ?t, result_Replayed = False\<rparr>, transfer_written X inp (row_account rf) (row_account rt) pq ar d)"
    by (simp add: write_transfer_def bind_stmt_def exec_def calm s1 s2 s3 s4 s5 s6 return_stmt_def Let_def)
      (use s7 calm in \<open>auto simp: exec_def return_stmt_def split: option.splits\<close>)
  then show ?thesis by blast
qed

lemma unbound_key_free:
  assumes "pg_inv d" "pg_bound d (jt_actor_id r, key) = None" "jt_idempotency_key r = Some key"
  shows "key_free r (db_transactions d)"
proof -
  have False if x: "x \<in> set (db_transactions d)" "jt_actor_id x = jt_actor_id r" "jt_idempotency_key x = Some key" for x
  proof -
    have kind: "jt_kind x = ''transfer''"
      using assms(1) x by (auto simp: pg_inv_def pg_transactions_ok_def transaction_check_def)
    then obtain ti where "lookup ti_transaction_id (jt_id x) (db_intents d) = Some ti"
      using assms(1) x(1) by (auto simp: pg_inv_def pg_intents_ok_def)
    then have "joined d (jt_actor_id r) key x ti" using x kind by (auto simp: joined_def dest: lookup_Some)
    then show False using assms(2) select_transfer_ex [of d "jt_actor_id r" key x ti] by (simp add: pg_bound_def)
  qed
  then show ?thesis using assms(3) by (auto simp: key_free_def)
qed

lemma version_left_fits: "account_check r \<Longrightarrow> version_left r \<Longrightarrow> fits64 (sint (acc_version r) + 1)"
  by (simp add: fits64_def version_left_def account_check_def)

lemma set_balance_check:
  assumes "account_check r" "version_left r" "acc_system r \<or> 0 \<le> sint b"
  shows "account_check (set_balance b now r)"
proof -
  have "sint (acc_version r + 1) = sint (acc_version r) + 1"
    using version_left_fits [OF assms(1,2)] by (intro sint_add64 [of _ 1, simplified]) simp
  then show ?thesis using assms by (auto simp: account_check_def set_balance_def)
qed

text \<open>A request that the adapter commits: what it needs of the input and of the two accounts.\<close>

definition transfer_funded :: "apply_transfer_input \<Rightarrow> account_row \<Rightarrow> account_row \<Rightarrow> db \<Rightarrow> bool" where
  "transfer_funded inp rf rt d \<longleftrightarrow>
     (let t = ati_Transfer inp; i = transfer_Intent t in
      validateTransfer inp = None \<and> pg_bound d (scope_of t) = None \<and> intent_FromAccountID i \<noteq> intent_ToAccountID i \<and>
      locked d (intent_FromAccountID i) = Some rf \<and> locked d (intent_ToAccountID i) = Some rt \<and>
      acc_currency rf = acc_currency rt \<and> acc_currency rf = transfer_Currency t \<and>
      sint (intent_AmountMinor i) \<le> sint (acc_balance_minor rf) \<and>
      sint (acc_balance_minor rt) + sint (intent_AmountMinor i) < 2 ^ 63)"

lemma transfer_funded_facts:
  assumes "transfer_funded inp rf rt d"
  shows "validateTransfer inp = None" "pg_bound d (scope_of (ati_Transfer inp)) = None"
    "acc_id rf = intent_FromAccountID (transfer_Intent (ati_Transfer inp))"
    "acc_id rt = intent_ToAccountID (transfer_Intent (ati_Transfer inp))"
    "lookup acc_id (acc_id rf) (db_accounts d) = Some rf" "lookup acc_id (acc_id rt) (db_accounts d) = Some rt"
    "acc_id rf \<noteq> acc_id rt" "\<not> acc_system rf" "\<not> acc_system rt" "rf \<in> set (db_accounts d)" "rt \<in> set (db_accounts d)"
    "0 < sint (intent_AmountMinor (transfer_Intent (ati_Transfer inp)))"
    "fst (ati_PostingIDs inp) \<noteq> snd (ati_PostingIDs inp)"
proof -
  have l: "locked d (intent_FromAccountID (transfer_Intent (ati_Transfer inp))) = Some rf"
      "locked d (intent_ToAccountID (transfer_Intent (ati_Transfer inp))) = Some rt"
    and v: "validateTransfer inp = None"
    using assms by (simp_all add: transfer_funded_def Let_def)
  from l show "acc_id rf = intent_FromAccountID (transfer_Intent (ati_Transfer inp))"
    "acc_id rt = intent_ToAccountID (transfer_Intent (ati_Transfer inp))" "\<not> acc_system rf" "\<not> acc_system rt"
    "rf \<in> set (db_accounts d)" "rt \<in> set (db_accounts d)"
    by (auto simp: locked_Some dest: lookup_Some)
  with l show "lookup acc_id (acc_id rf) (db_accounts d) = Some rf" "lookup acc_id (acc_id rt) (db_accounts d) = Some rt"
    by (simp_all add: locked_Some)
  from \<open>acc_id rf = _\<close> \<open>acc_id rt = _\<close> show "acc_id rf \<noteq> acc_id rt" using assms by (simp add: transfer_funded_def Let_def)
  show "validateTransfer inp = None" "pg_bound d (scope_of (ati_Transfer inp)) = None"
    "0 < sint (intent_AmountMinor (transfer_Intent (ati_Transfer inp)))"
    using assms v by (simp_all add: transfer_funded_def validateTransfer_iff Let_def)
  show "fst (ati_PostingIDs inp) \<noteq> snd (ati_PostingIDs inp)"
    using v by (auto simp: validateTransfer_def Let_def split: if_splits option.splits)
qed

lemma transfer_writableI:
  assumes inv: "pg_inv d" and f: "transfer_funded inp rf rt d" and st: "transfer_storable X inp" and ids: "transfer_ids_free inp d"
    and vs: "version_left rf" "version_left rt"
    and sq: "sq0 \<notin> po_sequence_no ` set (db_postings d)" "sq1 \<notin> po_sequence_no ` set (db_postings d)" "sq0 \<noteq> sq1"
      "sq2 \<notin> au_sequence_no ` set (db_audit d)"
  shows "transfer_writable X inp (row_account rf) (row_account rt) rf rt
    (transfer_pair X inp (row_account rf) (row_account rt) sq0 sq1) (audit_row_of X sq2 m (ati_Audit inp)) d"
proof -
  let ?t = "ati_Transfer inp"
  note g = transfer_funded_facts [OF f]
  note fd = f [unfolded transfer_funded_def Let_def]
  note stor = st [unfolded transfer_storable_def Let_def]
  have rows: "account_check rf" "account_check rt" "account_texts rf" "account_texts rt"
    using inv g(10,11) by (auto simp: pg_inv_def pg_accounts_ok_def)
  have jt: "lookup jt_id (transfer_ID ?t) (db_transactions d) = None" using ids by (simp add: transfer_ids_free_def lookup_None)
  have post: "po_transaction_id p \<noteq> transfer_ID ?t" if "p \<in> set (db_postings d)" for p
    using inv that jt by (auto simp: pg_inv_def pg_postings_ok_def)
  have cur: "acc_currency rf = transfer_Currency ?t" using fd by blast
  have key: "key_free (transfer_row X ?t (acc_currency rf)) (db_transactions d)"
    using inv g(2) by (intro unbound_key_free [where key = "transfer_IdempotencyKey ?t"]) (simp_all add: scope_of_def)
  have intents: "lookup ti_transaction_id (transfer_ID ?t) (db_intents d) = None"
    using inv jt by (auto simp: pg_inv_def pg_intents_ok_def lookup_None) (metis lookup_None option.distinct(1) jt)
  note versions = version_left_fits [OF rows(1) vs(1)] version_left_fits [OF rows(2) vs(2)]
  have debit: "account_check (set_balance (acc_balance_minor rf - intent_AmountMinor (transfer_Intent ?t)) now rf)" for now
    using g(12) fd by (intro set_balance_check rows vs disjI2) (simp add: sint_debit)
  have credit: "account_check (set_balance (acc_balance_minor rt + intent_AmountMinor (transfer_Intent ?t)) now rt)" for now
    using g(9,12) fd rows(2) by (intro set_balance_check rows vs disjI2) (simp add: sint_credit account_check_def)
  have new: "\<forall>x \<in> set (db_postings d). po_id x \<noteq> fst (ati_PostingIDs inp) \<and> po_id x \<noteq> snd (ati_PostingIDs inp) \<and>
      po_sequence_no x \<noteq> sq0 \<and> po_sequence_no x \<noteq> sq1 \<and> po_transaction_id x \<noteq> transfer_ID ?t"
    using ids sq(1,2) post by (auto simp: transfer_ids_free_def image_iff)
  have pair: "posting_texts (fst (transfer_pair X inp (row_account rf) (row_account rt) sq0 sq1))"
      "posting_texts (snd (transfer_pair X inp (row_account rf) (row_account rt) sq0 sq1))"
      "posting_free (fst (transfer_pair X inp (row_account rf) (row_account rt) sq0 sq1)) (db_postings d)"
      "posting_free (snd (transfer_pair X inp (row_account rf) (row_account rt) sq0 sq1))
        (db_postings d @ [fst (transfer_pair X inp (row_account rf) (row_account rt) sq0 sq1)])"
    using stor rows(3,4) sq(3) new g(7,12,13)
    by (auto simp: transfer_pair_def posting_texts_def posting_free_def posting_check_def account_texts_def transaction_texts_def Let_def)
  have "audit_free (audit_row_of X sq2 m (ati_Audit inp)) (db_audit d)"
    using stor ids sq(4) by (auto simp: audit_free_def transfer_ids_free_def image_iff)
  then show ?thesis
    unfolding transfer_writable_def Let_def
    using stor rows(3,4) jt key intents debit credit versions pair g(7,12) ids
    by (simp add: cur account_texts_def intent_check_def transferFingerprint_def transfer_ids_free_def lookup_None)
qed

section \<open>A call that commits\<close>

lemma applyTransferTx_unbound:
  assumes "at_fault at 0 = None" "valid_text (transfer_ActorID (ati_Transfer inp))" "valid_text (transfer_IdempotencyKey (ati_Transfer inp))"
    and "pg_bound d (scope_of (ati_Transfer inp)) = None"
  shows "applyTransferTx X inp at d = fresh_transfer_tx X inp at d"
  using assms by (auto simp: applyTransferTx_def findIdempotentTransfer_def bind_stmt_def exec_def pg_bound_def scope_of_def Let_def
      split: option.splits)

text \<open>The body of a fresh transfer, after the locks, as the list of its checks.\<close>

lemma fresh_transfer_tx_eq:
  fixes inp :: apply_transfer_input
  assumes "pg_inv d" "\<And>k. at_fault at k = None"
  defines "i \<equiv> transfer_Intent (ati_Transfer inp)"
  assumes ids: "intent_FromAccountID i \<noteq> intent_ToAccountID i" "valid_text (intent_FromAccountID i)" "valid_text (intent_ToAccountID i)"
  shows "fresh_transfer_tx X inp at d =
    (case (locked d (intent_FromAccountID i), locked d (intent_ToAccountID i)) of
       (Some rf, Some rt) \<Rightarrow>
         if acc_currency rf \<noteq> acc_currency rt \<or> acc_currency rf \<noteq> transfer_Currency (ati_Transfer inp) then Inl ErrCurrencyMismatch
         else if acc_balance_minor rf <s intent_AmountMinor i then Inl ErrInsufficientFunds
         else if MaxInt64 - intent_AmountMinor i <s acc_balance_minor rt then Inl ErrInvalidInput
         else write_transfer X at inp (row_account rf) (row_account rt) d
     | _ \<Rightarrow> Inl ErrNotFound)"
proof -
  have "lockAccounts at (intent_FromAccountID i) (intent_ToAccountID i) d =
      Inr (\<lambda>k. if k \<in> {intent_FromAccountID i, intent_ToAccountID i} then map_option row_account (locked d k) else None, d)"
    using assms(2) ids by (simp add: lockAccounts_Inr [OF assms(1)])
  then show ?thesis
    using ids by (simp add: fresh_transfer_tx_def bind_stmt_def throw_def i_def [symmetric] Let_def split: option.split)
qed

lemma pg_transfer_commits:
  assumes inv: "pg_inv d" and f: "transfer_funded inp rf rt d" and st: "transfer_storable X inp" and ids: "transfer_ids_free inp d"
    and vs: "version_left rf" "version_left rt" and sq: "fresh_numbers sq d"
  shows "\<exists>d'. pg_ApplyTransfer X (calm sq None) inp d =
      (Inr \<lparr>result_Transfer = ati_Transfer inp, result_Replayed = False\<rparr>, d') \<and> wrote_transfer X inp d d'"
proof -
  let ?at = "ce_attempt (calm sq None) 0" and ?t = "ati_Transfer inp"
  note g = transfer_funded_facts [OF f]
  have texts: "valid_text (acc_id rf)" "valid_text (acc_id rt)"
    using inv g(10,11) by (auto simp: pg_inv_def pg_accounts_ok_def account_texts_def)
  have key: "valid_text (transfer_ActorID ?t)" "valid_text (transfer_IdempotencyKey ?t)"
    using st by (simp_all add: transfer_storable_def transaction_texts_def Let_def)
  obtain m where m: "x_metadata X (case audit_Metadata (ati_Audit inp) of None \<Rightarrow> [] | Some m \<Rightarrow> m) = Inr m"
    using st by (auto simp: transfer_storable_def Let_def)
  have sq': "fresh_numbers (at_seq ?at) d" using sq by simp
  obtain pq ar where w: "write_transfer X ?at inp (row_account rf) (row_account rt) d =
      Inr (\<lparr>result_Transfer = ?t, result_Replayed = False\<rparr>, transfer_written X inp (row_account rf) (row_account rt) pq ar d)"
    using write_transfer_ok [OF g(5,6,7) _ m transfer_writableI [OF inv f st ids vs] sq'] by auto
  have body: "applyTransferTx X inp ?at d =
      Inr (\<lparr>result_Transfer = ?t, result_Replayed = False\<rparr>, transfer_written X inp (row_account rf) (row_account rt) pq ar d)"
    using f [unfolded transfer_funded_def Let_def] g(12) texts [unfolded g(3,4)]
    by (auto simp: applyTransferTx_unbound key fresh_transfer_tx_eq [OF inv] w int64_simps not_less)
  then obtain d' where d'0: "applyTransferTx X inp ?at d = Inr (\<lparr>result_Transfer = ?t, result_Replayed = False\<rparr>, d')" by blast
  from inv d'0 have "wrote_transfer X inp d d'"
    by (cases rule: applyTransferTx_cases) (auto intro: wrote_transferI)
  note d' = d'0 this
  have "run_tx ?at (applyTransferTx X inp ?at) d = (Inr \<lparr>result_Transfer = ?t, result_Replayed = False\<rparr>, d')"
    using deferred_triggers_None [OF wrote_transfer_facts(1) [OF inv d'(2)], of d] by (simp add: run_tx_def d'(1))
  from calm_first [where body = "applyTransferTx X inp", OF this] d'(2) g(1) show ?thesis
    by (auto simp: pg_ApplyTransfer_def)
qed

end
