(* ===== verification/Pg_Scenario.thy ===== *)
theory Pg_Scenario
  imports Pg_Success Memory_Scenario
begin

text \<open>
  A concrete database of the adapter: alice's account \<^verbatim>\<open>a\<close> was opened with 1000 and bob's account
  \<^verbatim>\<open>b\<close> with nothing. The columns keep times and metadata as they are, and the identity columns count
  the rows. The theorems with hypotheses are applied to it.
\<close>

definition demo_X :: externals where
  "demo_X = \<lparr>x_time = (\<lambda>t. t), x_metadata = Inr, x_rank = (\<lambda>_. 0)\<rparr>"

definition demo_sq :: "db \<Rightarrow> nat \<Rightarrow> int64" where
  "demo_sq d k = (if k = 2 then of_nat (length (db_audit d)) else of_nat (length (db_postings d) + k))"

definition demo_row :: "go_string \<Rightarrow> go_string \<Rightarrow> int64 \<Rightarrow> bool \<Rightarrow> account_row" where
  "demo_row k owner bal sys =
     \<lparr>acc_id = k, acc_owner_id = owner, acc_currency = ''GBP'', acc_balance_minor = bal, acc_system = sys, acc_version = 0,
      acc_created_at = 1, acc_updated_at = 1\<rparr>"

definition demo_posting :: "go_string \<Rightarrow> go_string \<Rightarrow> int64 \<Rightarrow> int64 \<Rightarrow> posting_row" where
  "demo_posting pid k amt sq =
     \<lparr>po_id = pid, po_transaction_id = ''open-a'', po_account_id = k, po_amount_minor = amt, po_sequence_no = sq, po_created_at = 1\<rparr>"

definition demo_db :: db where
  "demo_db =
     \<lparr>db_schema_migrations = [1],
      db_accounts = [demo_row ''system:equity:GBP'' ''system'' (- 1000) True, demo_row ''a'' ''alice'' 1000 False, demo_row ''b'' ''bob'' 0 False],
      db_transactions = [\<lparr>jt_id = ''open-a'', jt_kind = ''opening'', jt_idempotency_key = None, jt_actor_id = ''operator'',
        jt_currency = ''GBP'', jt_description = ''Opening balance'', jt_expected_postings = 2, jt_created_at = 1\<rparr>],
      db_postings = [demo_posting ''p1-a'' ''a'' 1000 0, demo_posting ''p2-a'' ''system:equity:GBP'' (- 1000) 1],
      db_intents = [], db_audit = [], db_risk = []\<rparr>"

text \<open>Text of single-byte characters other than the null byte is valid, and has as many characters as bytes.\<close>

definition ascii :: "go_string \<Rightarrow> bool" where
  "ascii s \<longleftrightarrow> (\<forall>c \<in> set s. 0 < bv c \<and> bv c < 128)"

lemma ascii_runes: "ascii s \<Longrightarrow> runes s = map bv s"
proof (induction s)
  case (Cons c s)
  then have "DecodeRune (c # s) = (bv c, 1)" by (simp add: ascii_def DecodeRune_def)
  with Cons show ?case by (subst runes.simps) (simp add: ascii_def)
qed (simp add: runes.simps)

lemma ascii_text:
  assumes "ascii s"
  shows "valid_text s" "RuneCountInString s = length s"
proof -
  have "EncodeRune (bv c) = [c]" if "c \<in> set s" for c
    using assms that by (auto simp: ascii_def EncodeRune_def is_scalar_def bv_def Let_def)
  then have "map EncodeRune (map bv s) = map (\<lambda>c. [c]) s" by simp
  then have "concat (map EncodeRune (map bv s)) = s" by (simp only: concat_map_singleton) simp
  then show "valid_text s" using assms by (auto simp: valid_text_def ascii_runes string_of_runes_def ascii_def)
  show "RuneCountInString s = length s" using assms by (simp add: RuneCountInString_def ascii_runes)
qed

lemma ascii_simps [simp]: "ascii []" "ascii (c # s) \<longleftrightarrow> 0 < bv c \<and> bv c < 128 \<and> ascii s"
  by (simp_all add: ascii_def)

lemma ascii_chars: "ascii s \<Longrightarrow> chars_between lo hi s \<longleftrightarrow> lo \<le> length s \<and> length s \<le> hi"
  by (simp add: chars_between_def ascii_text)

lemmas demo_pg_evals = demo_db_def demo_row_def demo_posting_def

lemma demo_db_inv: "pg_inv demo_db"
proof -
  have a: "ascii ''system:equity:GBP''" "ascii ''system''" "ascii ''a''" "ascii ''b''" "ascii ''alice''" "ascii ''bob''" "ascii ''GBP''"
    "ascii ''open-a''" "ascii ''operator''" "ascii ''Opening balance''" by (simp_all add: bv_def)
  note ev = ascii_text ascii_chars
  have "pg_accounts_ok demo_db"
    by (simp add: pg_accounts_ok_def demo_pg_evals account_check_def account_texts_def currency_check_def HasPrefix_def
        ev a del: ascii_simps) (simp add: bv_def)
  moreover have "pg_transactions_ok demo_db"
    by (simp add: pg_transactions_ok_def pg_keys_unique_def demo_pg_evals transaction_check_def transaction_texts_def currency_check_def
        ev a del: ascii_simps) (simp add: bv_def)
  moreover have "pg_postings_ok demo_db" by (simp add: pg_postings_ok_def demo_pg_evals lookup_def)
  moreover have "pg_balances_ok demo_db" by (simp add: pg_balances_ok_def demo_pg_evals)
  moreover have "pg_intents_ok demo_db" "pg_logs_ok demo_db" by (simp_all add: pg_intents_ok_def pg_logs_ok_def demo_pg_evals)
  ultimately show ?thesis by (simp add: pg_inv_def)
qed

lemma demo_funded: "transfer_funded demo_tx1 (demo_row ''a'' ''alice'' 1000 False) (demo_row ''b'' ''bob'' 0 False) demo_db"
proof -
  have "transfer_input_error demo_tx1 = None"
    using demo_ready by (simp add: transfer_ready_def Let_def)
  then have "validateTransfer demo_tx1 = None"
    by (simp add: validateTransfer_iff check_evals string_evals demo_tx1_def demo_transfer_def)
  moreover have "pg_bound demo_db sc = None" for sc
    by (simp add: pg_bound_def select_transfer_def demo_db_def)
  ultimately show ?thesis
    by (simp add: transfer_funded_def locked_def lookup_def demo_pg_evals demo_tx1_def demo_transfer_def)
qed

lemma demo_storable: "transfer_storable demo_X demo_tx1"
proof -
  have a: "ascii ''alice''" "ascii ''tx1''" "ascii ''key-12345678''" "ascii ''GBP''" "ascii ''p1-tx1''" "ascii ''p2-tx1''"
    "ascii ''audit-tx1''" "ascii ''transfer.create''" "ascii ''success''" by (simp_all add: bv_def)
  show ?thesis
    by (simp add: transfer_storable_def demo_tx1_def demo_transfer_def demo_X_def transaction_texts_def transaction_check_def
        currency_check_def audit_texts_def audit_check_def audit_row_of_def ascii_text ascii_chars a ascii_simps(1) Let_def del: ascii_simps(2))
      (simp add: bv_def)
qed

lemma demo_free: "transfer_ids_free demo_tx1 demo_db"
  by (simp add: transfer_ids_free_def demo_tx1_def demo_transfer_def demo_pg_evals)

lemma demo_numbers: "fresh_numbers demo_sq demo_db"
  by (simp add: fresh_numbers_def demo_sq_def demo_pg_evals)

lemma demo_versions: "version_left (demo_row k owner bal sys)"
  by (simp add: version_left_def demo_row_def)

lemma demo_pg_send:
  "\<exists>d'. pg_ApplyTransfer demo_X (calm demo_sq None) demo_tx1 demo_db =
     (Inr \<lparr>result_Transfer = ati_Transfer demo_tx1, result_Replayed = False\<rparr>, d') \<and> wrote_transfer demo_X demo_tx1 demo_db d'"
  by (rule pg_transfer_commits [OF demo_db_inv demo_funded demo_storable demo_free demo_versions demo_versions demo_numbers])

end
