(* ===== verification/Pg_Properties.thy ===== *)
theory Pg_Properties
  imports Pg_Scenario
begin

text \<open>
  Properties of the PostgreSQL adapter: the invariant of every database that its transactions
  reach, what a reply and an error of a call mean under faults and other sessions, retries, and the
  effect of a client that repeats a request.
\<close>

section \<open>Every reachable database is a ledger\<close>

lemma pg_inv_facts:
  assumes "pg_inv d"
  shows "(\<forall>a \<in> set (db_accounts d). sint (acc_balance_minor a) = po_sum (account_postings (db_postings d) (acc_id a)) \<and>
      (acc_system a \<or> 0 \<le> sint (acc_balance_minor a))) \<and>
    (\<forall>t \<in> set (db_transactions d). length (txn_rows (db_postings d) (jt_id t)) = 2 \<and> po_sum (txn_rows (db_postings d) (jt_id t)) = 0) \<and>
    pg_keys_unique (db_transactions d)"
  using assms by (auto simp: pg_inv_def pg_accounts_ok_def pg_balances_ok_def pg_transactions_ok_def account_check_def)

lemmas demo_pg_tx = run_tx_def createAccountTx_def opening_tx_def bind_stmt_def return_stmt_def throw_def exec_def insertAudit_def
  post_pair_def deferred_triggers_def assert_balanced_def txn_postings_def

lemmas demo_pg_stmts = insert_account_def update_account_def insert_transaction_def insert_postings_def insert_posting_row_def
  posting_fkeys_def insert_audit_row_def select_account_def account_check_def transaction_check_def posting_check_def audit_check_def
  currency_check_def HasPrefix_def lookup_def db_init_def

lemmas demo_pg_rows = new_account_row_def system_account_row_def set_balance_def pg_systemAccountID_def opening_row_def
  new_posting_def audit_row_of_def

definition demo_attempt :: attempt where
  "demo_attempt = ce_attempt (calm demo_sq None) 0"

lemma demo_pg_open:
  "db_accounts (pg_history demo_X [TxAccount (demo_account ''a'' ''alice'' 1000) demo_attempt] db_init) =
     [demo_row ''a'' ''alice'' 1000 False, (demo_row ''system:equity:GBP'' ''system'' (- 1000) True)\<lparr>acc_version := 1\<rparr>]"
proof -
  have c: "at_begin demo_attempt = None" "at_fault demo_attempt k = None" "at_commit demo_attempt = CommitOK" "at_seq demo_attempt = demo_sq" for k
    by (simp_all add: demo_attempt_def)
  have s: "(0 :: int64) <s 1000" "\<not> (0 :: int64) <s MinInt64 + 1000" by (simp_all add: word_sless_alt)
  have a: "ascii ''system:equity:GBP''" "ascii ''system''" "ascii ''a''" "ascii ''alice''" "ascii ''GBP''" "ascii ''open-a''"
    "ascii ''operator''" "ascii ''Opening balance''" "ascii ''p1-a''" "ascii ''p2-a''" "ascii ''audit-a''" "ascii ''account.create''"
    "ascii ''success''" by (simp_all add: bv_def)
  show ?thesis
    by (simp add: demo_pg_tx demo_pg_stmts demo_pg_rows demo_account_def demo_X_def demo_sq_def demo_row_def c s
        ascii_text ascii_chars a Let_def del: ascii_simps) (simp add: bv_def fits64_def word_sless_alt)
qed

text \<open>C4. The invariant of the ledger in the database: after any history of transactions of any sessions,
  each with arbitrary faults, lost commits and sequence numbers, the balance of every account is the
  sum of its postings, no customer account is negative, every transaction has two postings whose sum
  is zero, and no two transactions have the same actor and idempotency key.\<close>

theorem pg_history_sound:
  "let d = pg_history X txs db_init in
   (\<forall>a \<in> set (db_accounts d). sint (acc_balance_minor a) = po_sum (account_postings (db_postings d) (acc_id a)) \<and>
      (acc_system a \<or> 0 \<le> sint (acc_balance_minor a))) \<and>
   (\<forall>t \<in> set (db_transactions d). length (txn_rows (db_postings d) (jt_id t)) = 2 \<and> po_sum (txn_rows (db_postings d) (jt_id t)) = 0) \<and>
   pg_keys_unique (db_transactions d)"
  unfolding Let_def by (rule pg_inv_facts [OF pg_history_inv [OF pg_inv_init]])

theorem pg_history_sound_witness:
  "po_sum (account_postings (db_postings (pg_history demo_X [TxAccount (demo_account ''a'' ''alice'' 1000) demo_attempt] db_init)) ''a'') = 1000"
  using pg_history_sound [of demo_X "[TxAccount (demo_account ''a'' ''alice'' 1000) demo_attempt]"]
  by (simp only: demo_pg_open Let_def) (simp add: demo_row_def)

section \<open>Replies and errors of a call\<close>

text \<open>C12. A reply is durable: when \<^verbatim>\<open>ApplyTransfer\<close> answers with a transfer, whatever attempts failed before
  and whatever other sessions did meanwhile, the database binds the actor and key of the request to
  a transfer with the intent of the request, which is the one answered (with the instant as the
  column keeps it), and it stays bound through every later history.\<close>

theorem pg_reply_durable:
  assumes "pg_inv d" "other_sessions X env" "pg_ApplyTransfer X env inp d = (Inr res, d')"
  shows "\<exists>t. (\<forall>later. pg_bound (pg_history X later d') (scope_of (ati_Transfer inp)) = Some t) \<and>
    transfer_Intent t = transfer_Intent (ati_Transfer inp) \<and>
    (if result_Replayed res then result_Transfer res = t
     else result_Transfer res = ati_Transfer inp \<and> t = pg_stored X (ati_Transfer inp))"
proof -
  from apply_reply(2) [OF assms] obtain t where t: "pg_bound d' (scope_of (ati_Transfer inp)) = Some t"
    "transfer_Intent t = transfer_Intent (ati_Transfer inp)"
    "if result_Replayed res then result_Transfer res = t
     else result_Transfer res = ati_Transfer inp \<and> t = pg_stored X (ati_Transfer inp)"
    unfolding reply_bound_def by blast
  with pg_history_bound [OF apply_reply(1) [OF assms] t(1)] show ?thesis by blast
qed

theorem pg_reply_durable_witness:
  "\<exists>res d'. pg_ApplyTransfer demo_X (calm demo_sq None) demo_tx1 demo_db = (Inr res, d') \<and> \<not> result_Replayed res \<and>
     pg_bound d' (''alice'', ''key-12345678'') = Some (pg_stored demo_X (ati_Transfer demo_tx1))"
proof -
  from demo_pg_send obtain d' where d': "pg_ApplyTransfer demo_X (calm demo_sq None) demo_tx1 demo_db =
     (Inr \<lparr>result_Transfer = ati_Transfer demo_tx1, result_Replayed = False\<rparr>, d')" by blast
  from pg_reply_durable [OF demo_db_inv calm_sel(3) d'] have
    "pg_bound (pg_history demo_X [] d') (scope_of (ati_Transfer demo_tx1)) = Some (pg_stored demo_X (ati_Transfer demo_tx1))"
    by (metis transfer_result.select_convs(2))
  with d' show ?thesis by (simp add: scope_of_def demo_tx1_def demo_transfer_def)
qed



section \<open>A client that repeats its request\<close>

text \<open>The calls of a client, one after the other, each with what happens around its attempts.\<close>

fun pg_calls :: "externals \<Rightarrow> (call_env \<times> apply_transfer_input) list \<Rightarrow> db \<Rightarrow> (error + transfer_result) list \<times> db" where
  "pg_calls X [] d = ([], d)"
| "pg_calls X ((env, inp) # calls) d =
     (let (r, d1) = pg_ApplyTransfer X env inp d; (rs, d2) = pg_calls X calls d1 in (r # rs, d2))"

definition same_request :: "transfer \<Rightarrow> call_env \<times> apply_transfer_input \<Rightarrow> bool" where
  "same_request t c \<longleftrightarrow> alone (fst c) \<and> scope_of (ati_Transfer (snd c)) = scope_of t \<and>
     transfer_Intent (ati_Transfer (snd c)) = transfer_Intent t"

lemma calls_when_bound:
  assumes "pg_inv d" "list_all (same_request t) calls" "pg_bound d (scope_of t) = Some u"
  shows "snd (pg_calls X calls d) = d"
  using assms(2)
proof (induction calls)
  case (Cons c calls)
  obtain env inp where c: "c = (env, inp)" by (cases c)
  have "snd (pg_ApplyTransfer X env inp d) = d"
    using apply_when_bound [OF assms(1)] Cons.prems assms(3) by (auto simp: c same_request_def)
  with Cons show ?case by (simp add: c case_prod_beta Let_def)
qed simp

lemma calls_effect:
  assumes "pg_inv d" "list_all (same_request t) calls" "pg_bound d (scope_of t) = None" "pg_calls X calls d = (rs, d')"
  shows "(d' = d \<and> list_all isl rs) \<or> (\<exists>inp. transfer_Intent (ati_Transfer inp) = transfer_Intent t \<and> wrote_transfer X inp d d')"
  using assms(2,4)
proof (induction calls arbitrary: rs)
  case (Cons c calls)
  obtain env inp where c: "c = (env, inp)" by (cases c)
  have rq: "alone env" "scope_of (ati_Transfer inp) = scope_of t" "transfer_Intent (ati_Transfer inp) = transfer_Intent t"
    using Cons.prems(1) by (simp_all add: c same_request_def)
  obtain r d1 where r: "pg_ApplyTransfer X env inp d = (r, d1)" by fastforce
  obtain rs' where rs': "pg_calls X calls d1 = (rs', d')" "rs = r # rs'"
    using Cons.prems(2) r by (auto simp: c split: prod.splits)
  from apply_when_unbound [OF assms(1) rq(1), of inp X] assms(3) rq(2) r consider "d1 = d" | "wrote_transfer X inp d d1" by auto
  then show ?case
  proof cases
    case 1
    have "isl r"
    proof (cases r)
      case (Inr res)
      with apply_reply(2) [OF assms(1) alone_other_sessions [OF rq(1)], of X inp] r 1 assms(3) rq(2) show ?thesis
        by (auto simp: reply_bound_def)
    qed simp
    with 1 Cons.IH [of rs'] Cons.prems(1) rs' show ?thesis by auto
  next
    case 2
    have "snd (pg_calls X calls d1) = d1"
      by (rule calls_when_bound [of d1 t calls "pg_stored X (ati_Transfer inp)"])
        (use wrote_transfer_facts(1,2) [OF assms(1) 2] Cons.prems(1) rq(2) in simp_all)
    with rs'(1) 2 rq(3) show ?thesis by auto
  qed
qed simp

lemma wrote_transfer_grows:
  assumes "wrote_transfer X inp d d'"
  shows "length (db_transactions d') = length (db_transactions d) + 1" "length (db_postings d') = length (db_postings d) + 2"
  using assms by (auto simp: wrote_transfer_def transfer_written_sel)

lemma delta_intent: "transfer_Intent t = transfer_Intent u \<Longrightarrow> delta k t = delta k u"
  by (simp add: delta_def)

text \<open>C5. Exactly once under faults: a client that repeats one request any number of times, while every
  call may fail at any point and commit replies may be lost, moves the money at most once: at the
  end either the ledger is unchanged, and no call was answered with success, or there is exactly one
  more transaction with its two postings and every balance has changed by exactly this transfer.\<close>

theorem pg_exactly_once:
  assumes "pg_inv d" "list_all (same_request t) calls" "pg_bound d (scope_of t) = None" "pg_calls X calls d = (replies, d')"
  shows "(d' = d \<and> list_all isl replies) \<or>
    (length (db_transactions d') = length (db_transactions d) + 1 \<and> length (db_postings d') = length (db_postings d) + 2 \<and>
     (\<forall>k a. pg_accts d k = Some a \<longrightarrow> (\<exists>a'. pg_accts d' k = Some a' \<and> same_identity a a' \<and>
        sint (account_BalanceMinor a') = sint (account_BalanceMinor a) + delta k t)))"
  using calls_effect [OF assms]
proof
  assume "\<exists>inp. transfer_Intent (ati_Transfer inp) = transfer_Intent t \<and> wrote_transfer X inp d d'"
  then obtain inp where inp: "transfer_Intent (ati_Transfer inp) = transfer_Intent t" "wrote_transfer X inp d d'" by blast
  show ?thesis
    using wrote_transfer_grows [OF inp(2)] wrote_transfer_facts(3) [OF assms(1) inp(2)] delta_intent [OF inp(1)] by simp
qed simp

text \<open>Alice's request loses its first commit reply and is sent again.\<close>

definition demo_lossy :: call_env where
  "demo_lossy = \<lparr>ce_attempt = (\<lambda>_. demo_attempt\<lparr>at_commit := CommitLost (ErrOther ''connection reset'')\<rparr>), ce_others = (\<lambda>_ d. d)\<rparr>"

lemma demo_second_reply:
  "\<not> isl (fst (pg_ApplyTransfer demo_X (calm demo_sq None) demo_tx1 (snd (pg_ApplyTransfer demo_X demo_lossy demo_tx1 demo_db))))"
proof -
  have lossy: "alone demo_lossy" by (simp add: alone_def demo_lossy_def)
  from apply_when_unbound [OF demo_db_inv lossy transfer_funded_facts(2) [OF demo_funded], of demo_X]
  show ?thesis
  proof
    assume "snd (pg_ApplyTransfer demo_X demo_lossy demo_tx1 demo_db) = demo_db"
    then show ?thesis using demo_pg_send by auto
  next
    assume w: "wrote_transfer demo_X demo_tx1 demo_db (snd (pg_ApplyTransfer demo_X demo_lossy demo_tx1 demo_db))"
    show ?thesis
      by (simp add: pg_apply_bound [where t = "pg_stored demo_X (ati_Transfer demo_tx1)"] wrote_transfer_facts(1,2) [OF demo_db_inv w]
          transfer_funded_facts(1) [OF demo_funded] pg_stored_def)
  qed
qed

theorem pg_exactly_once_witness:
  "let d' = snd (pg_calls demo_X [(demo_lossy, demo_tx1), (calm demo_sq None, demo_tx1)] demo_db) in
   length (db_transactions d') = 2 \<and> (\<exists>a'. pg_accts d' ''b'' = Some a' \<and> sint (account_BalanceMinor a') = 250)"
proof -
  let ?calls = "[(demo_lossy, demo_tx1), (calm demo_sq None, demo_tx1)]"
  obtain rs d' where c: "pg_calls demo_X ?calls demo_db = (rs, d')" by fastforce
  have "\<not> list_all isl rs" using c demo_second_reply by (auto split: prod.splits)
  moreover have "list_all (same_request (ati_Transfer demo_tx1)) ?calls"
    by (simp add: same_request_def alone_def demo_lossy_def calm_def)
  moreover have "pg_bound demo_db (scope_of (ati_Transfer demo_tx1)) = None" using demo_funded by (rule transfer_funded_facts)
  moreover have "pg_accts demo_db ''b'' = Some (row_account (demo_row ''b'' ''bob'' 0 False))"
    by (simp add: pg_accts_def lookup_def demo_pg_evals)
  moreover have "delta ''b'' (ati_Transfer demo_tx1) = 250" by (simp add: delta_def demo_tx1_def demo_transfer_def)
  ultimately show ?thesis
    using pg_exactly_once [OF demo_db_inv _ _ c, of "ati_Transfer demo_tx1"] unfolding c by (force simp: demo_row_def demo_db_def)
qed

section \<open>Retries\<close>







end
