(* ===== verification/Pg_Retries.thy ===== *)
theory Pg_Retries
  imports Pg_Scenario
begin








section \<open>Properties\<close>




end
