(* ===== verification/Ledger_Spec.thy ===== *)
theory Ledger_Spec
  imports Store "HOL-Library.Sublist"
begin

text \<open>
  The abstract ledger: what the two stores promise, without their tables, logs and identifiers.

  A ledger is the accounts with their balances, as integers, and the intent bound to each pair of an
  actor and an idempotency key. A request is an account to open or a transfer to make. The locale
  \<open>ledger_refinement\<close> is the simulation between a store and the ledger: each step of the store is
  either no step of the ledger or the step of the request it was asked for.
\<close>

record holder =
  h_owner :: go_string
  h_currency :: go_string
  h_balance :: int
  h_system :: bool

record ledger =
  lg_accounts :: "go_string \<Rightarrow> holder option"
  lg_intents :: "go_string \<times> go_string \<Rightarrow> transfer_intent option"

datatype ledger_request = Open account | Move transfer

definition ledger_empty :: ledger where
  "ledger_empty = \<lparr>lg_accounts = Map.empty, lg_intents = Map.empty\<rparr>"

text \<open>The account against which the money of a currency enters.\<close>

definition equity :: "go_string \<Rightarrow> go_string" where
  "equity c = ''system:equity:'' @ c"

definition equity_balance :: "go_string \<Rightarrow> ledger \<Rightarrow> int" where
  "equity_balance c L = (case lg_accounts L (equity c) of None \<Rightarrow> 0 | Some h \<Rightarrow> h_balance h)"

definition equity_usable :: "go_string \<Rightarrow> ledger \<Rightarrow> bool" where
  "equity_usable c L \<longleftrightarrow> (case lg_accounts L (equity c) of None \<Rightarrow> True | Some h \<Rightarrow> h_system h \<and> h_owner h = ''system'' \<and> h_currency h = c)"

definition spec_open :: "account \<Rightarrow> ledger \<Rightarrow> ledger option" where
  "spec_open a L =
     (let k = account_ID a; c = account_Currency a; amt = sint (account_BalanceMinor a);
          accounts = (lg_accounts L)(k \<mapsto> \<lparr>h_owner = account_OwnerID a, h_currency = c, h_balance = amt, h_system = False\<rparr>) in
      if lg_accounts L k \<noteq> None \<or> k = equity c \<or> amt < 0 then None
      else if amt = 0 then Some (L\<lparr>lg_accounts := accounts\<rparr>)
      else if \<not> equity_usable c L then None
      else Some (L\<lparr>lg_accounts := accounts(equity c \<mapsto>
        \<lparr>h_owner = ''system'', h_currency = c, h_balance = equity_balance c L - amt, h_system = True\<rparr>)\<rparr>))"

definition spec_move :: "transfer \<Rightarrow> ledger \<Rightarrow> ledger option" where
  "spec_move t L =
     (let i = transfer_Intent t; amt = sint (intent_AmountMinor i) in
      case (lg_accounts L (intent_FromAccountID i), lg_accounts L (intent_ToAccountID i)) of
        (Some f, Some g) \<Rightarrow>
          if lg_intents L (scope_of t) \<noteq> None \<or> intent_FromAccountID i = intent_ToAccountID i \<or> h_system f \<or> h_system g \<or>
             h_currency f \<noteq> h_currency g \<or> h_currency f \<noteq> transfer_Currency t \<or> amt \<le> 0 \<or> h_balance f < amt then None
          else Some (L\<lparr>
            lg_accounts := (lg_accounts L)(intent_FromAccountID i \<mapsto> f\<lparr>h_balance := h_balance f - amt\<rparr>,
              intent_ToAccountID i \<mapsto> g\<lparr>h_balance := h_balance g + amt\<rparr>),
            lg_intents := (lg_intents L)(scope_of t \<mapsto> i)\<rparr>)
      | _ \<Rightarrow> None)"

definition spec_step :: "ledger_request \<Rightarrow> ledger \<Rightarrow> ledger option" where
  "spec_step r L = (case r of Open a \<Rightarrow> spec_open a L | Move t \<Rightarrow> spec_move t L)"

fun spec_run :: "ledger_request list \<Rightarrow> ledger \<Rightarrow> ledger option" where
  "spec_run [] L = Some L"
| "spec_run (r # rs) L = (case spec_step r L of None \<Rightarrow> None | Some L' \<Rightarrow> spec_run rs L')"

section \<open>What the ledger guarantees\<close>

definition held :: "go_string \<Rightarrow> holder option \<Rightarrow> int" where
  "held c h = (case h of None \<Rightarrow> 0 | Some h \<Rightarrow> if h_currency h = c then h_balance h else 0)"

definition sum_held :: "go_string \<Rightarrow> (go_string \<Rightarrow> holder option) \<Rightarrow> int" where
  "sum_held c m = (\<Sum>k \<in> dom m. held c (m k))"

abbreviation total :: "go_string \<Rightarrow> ledger \<Rightarrow> int" where
  "total c L \<equiv> sum_held c (lg_accounts L)"

definition ledger_ok :: "ledger \<Rightarrow> bool" where
  "ledger_ok L \<longleftrightarrow> finite (dom (lg_accounts L)) \<and> (\<forall>c. total c L = 0) \<and>
     (\<forall>k h. lg_accounts L k = Some h \<and> \<not> h_system h \<longrightarrow> 0 \<le> h_balance h)"

lemma held_Some [simp]: "held c (Some h) = (if h_currency h = c then h_balance h else 0)"
  by (simp add: held_def)

lemma held_None [simp]: "held c None = 0"
  by (simp add: held_def)

lemma sum_held_upd:
  assumes "finite (dom m)"
  shows "sum_held c (m(a \<mapsto> h)) = sum_held c m - held c (m a) + held c (Some h)"
proof -
  have "(\<Sum>k \<in> dom m. held c (m k)) = (\<Sum>k \<in> dom m - {a}. held c (m k)) + held c (m a)"
    using assms by (cases "a \<in> dom m") (simp_all add: sum.remove [of _ a] domIff)
  moreover have "(\<Sum>k \<in> dom m - {a}. held c ((m(a \<mapsto> h)) k)) = (\<Sum>k \<in> dom m - {a}. held c (m k))"
    by (rule sum.cong) auto
  ultimately show ?thesis
    using assms by (simp add: sum_held_def dom_fun_upd sum.insert_remove del: held_Some)
qed

lemma ledger_ok_empty: "ledger_ok ledger_empty"
  by (simp add: ledger_ok_def ledger_empty_def sum_held_def)

lemma spec_open_ok:
  assumes "ledger_ok L" "spec_open a L = Some L'"
  shows "ledger_ok L'"
proof -
  let ?k = "account_ID a" and ?c = "account_Currency a" and ?amt = "sint (account_BalanceMinor a)"
  have fin: "finite (dom (lg_accounts L))" and tot: "total c L = 0" for c
    using assms(1) by (simp_all add: ledger_ok_def)
  have g: "lg_accounts L ?k = None" "?k \<noteq> equity ?c" "0 \<le> ?amt" "?amt \<noteq> 0 \<longrightarrow> equity_usable ?c L"
    using assms(2) by (auto simp: spec_open_def Let_def split: if_splits)
  have eq: "held c (lg_accounts L (equity ?c)) = (if c = ?c then equity_balance ?c L else 0)" if "equity_usable ?c L" for c
    using that by (auto simp: equity_usable_def equity_balance_def split: option.splits)
  show ?thesis
  proof (cases "?amt = 0")
    case True
    with assms(2) g have L': "L' = L\<lparr>lg_accounts := (lg_accounts L)(?k \<mapsto> \<lparr>h_owner = account_OwnerID a, h_currency = ?c, h_balance = 0, h_system = False\<rparr>)\<rparr>"
      by (simp add: spec_open_def Let_def)
    have "total c L' = 0" for c using g fin tot [of c] by (simp add: L' sum_held_upd)
    moreover have "0 \<le> h_balance h" if "lg_accounts L' k = Some h" "\<not> h_system h" for k h
      using assms(1) that by (auto simp: ledger_ok_def L' split: if_splits)
    moreover have "finite (dom (lg_accounts L'))" using fin by (simp add: L')
    ultimately show ?thesis unfolding ledger_ok_def by blast
  next
    case False
    with g(4) have us: "equity_usable ?c L" by blast
    from False assms(2) g us have L': "L' = L\<lparr>lg_accounts := (lg_accounts L)
        (?k \<mapsto> \<lparr>h_owner = account_OwnerID a, h_currency = ?c, h_balance = ?amt, h_system = False\<rparr>,
         equity ?c \<mapsto> \<lparr>h_owner = ''system'', h_currency = ?c, h_balance = equity_balance ?c L - ?amt, h_system = True\<rparr>)\<rparr>"
      by (simp add: spec_open_def Let_def)
    have "total c L' = 0" for c
      using g fin tot [of c] eq [OF us, of c] by (simp add: L' sum_held_upd)
    moreover have "finite (dom (lg_accounts L'))" using fin by (simp add: L')
    moreover have "0 \<le> h_balance h" if "lg_accounts L' k = Some h" "\<not> h_system h" for k h
      using assms(1) g that by (auto simp: ledger_ok_def L' split: if_splits)
    ultimately show ?thesis unfolding ledger_ok_def by blast
  qed
qed

lemma spec_move_Some:
  assumes "spec_move t L = Some L'"
  obtains f g where "lg_accounts L (intent_FromAccountID (transfer_Intent t)) = Some f"
    "lg_accounts L (intent_ToAccountID (transfer_Intent t)) = Some g"
    "intent_FromAccountID (transfer_Intent t) \<noteq> intent_ToAccountID (transfer_Intent t)" "\<not> h_system f" "\<not> h_system g"
    "h_currency f = h_currency g" "0 < sint (intent_AmountMinor (transfer_Intent t))"
    "sint (intent_AmountMinor (transfer_Intent t)) \<le> h_balance f" "lg_intents L (scope_of t) = None"
    "L' = L\<lparr>lg_accounts := (lg_accounts L)
        (intent_FromAccountID (transfer_Intent t) \<mapsto> f\<lparr>h_balance := h_balance f - sint (intent_AmountMinor (transfer_Intent t))\<rparr>,
         intent_ToAccountID (transfer_Intent t) \<mapsto> g\<lparr>h_balance := h_balance g + sint (intent_AmountMinor (transfer_Intent t))\<rparr>),
      lg_intents := (lg_intents L)(scope_of t \<mapsto> transfer_Intent t)\<rparr>"
  using assms by (auto simp: spec_move_def Let_def split: option.splits if_splits)

lemma spec_move_ok:
  assumes "ledger_ok L" "spec_move t L = Some L'"
  shows "ledger_ok L'"
  using assms(2)
proof (rule spec_move_Some)
  let ?i = "transfer_Intent t" and ?amt = "sint (intent_AmountMinor (transfer_Intent t))"
  fix f g
  assume g: "lg_accounts L (intent_FromAccountID ?i) = Some f" "lg_accounts L (intent_ToAccountID ?i) = Some g"
    "intent_FromAccountID ?i \<noteq> intent_ToAccountID ?i" "\<not> h_system f" "\<not> h_system g" "h_currency f = h_currency g"
    "0 < ?amt" "?amt \<le> h_balance f"
    and L': "L' = L\<lparr>lg_accounts := (lg_accounts L)(intent_FromAccountID ?i \<mapsto> f\<lparr>h_balance := h_balance f - ?amt\<rparr>,
      intent_ToAccountID ?i \<mapsto> g\<lparr>h_balance := h_balance g + ?amt\<rparr>), lg_intents := (lg_intents L)(scope_of t \<mapsto> ?i)\<rparr>"
  have fin: "finite (dom (lg_accounts L))" and tot: "total c L = 0" for c
    using assms(1) by (simp_all add: ledger_ok_def)
  have "total c L' = 0" for c
    using g fin tot [of c] by (simp add: L' sum_held_upd)
  moreover have "finite (dom (lg_accounts L'))" using fin by (simp add: L')
  moreover have "0 \<le> h_balance h" if "lg_accounts L' k = Some h" "\<not> h_system h" for k h
  proof -
    have "0 \<le> h_balance g" using assms(1) g(2,5) by (auto simp: ledger_ok_def)
    then show ?thesis using assms(1) g that by (auto simp: ledger_ok_def L' split: if_splits)
  qed
  ultimately show ?thesis unfolding ledger_ok_def by blast
qed

lemma spec_step_ok: "ledger_ok L \<Longrightarrow> spec_step r L = Some L' \<Longrightarrow> ledger_ok L'"
  using spec_open_ok [of L _ L'] spec_move_ok [of L _ L'] by (cases r) (auto simp: spec_step_def)

lemma spec_run_ok: "ledger_ok L \<Longrightarrow> spec_run rs L = Some L' \<Longrightarrow> ledger_ok L'"
proof (induction rs arbitrary: L)
  case (Cons r rs)
  then show ?case using spec_step_ok [OF Cons.prems(1), of r] by (cases "spec_step r L") simp_all
qed simp

section \<open>Stores that refine the ledger\<close>

text \<open>The ledger that the accounts and the bound transfers of a store make.\<close>

definition holder_of :: "account \<Rightarrow> holder" where
  "holder_of a = \<lparr>h_owner = account_OwnerID a, h_currency = account_Currency a, h_balance = sint (account_BalanceMinor a), h_system = account_System a\<rparr>"

definition ledger_of :: "(go_string \<Rightarrow> account option) \<Rightarrow> (go_string \<times> go_string \<Rightarrow> transfer option) \<Rightarrow> ledger" where
  "ledger_of accts bound = \<lparr>lg_accounts = (\<lambda>k. map_option holder_of (accts k)), lg_intents = (\<lambda>sc. map_option transfer_Intent (bound sc))\<rparr>"

lemma holder_of_sel [simp]:
  "h_owner (holder_of a) = account_OwnerID a" "h_currency (holder_of a) = account_Currency a"
  "h_balance (holder_of a) = sint (account_BalanceMinor a)" "h_system (holder_of a) = account_System a"
  by (simp_all add: holder_of_def)

lemma holder_same: "same_identity a b \<Longrightarrow> holder_of b = (holder_of a)\<lparr>h_balance := sint (account_BalanceMinor b)\<rparr>"
  unfolding same_identity_def by (drule sym, erule ssubst) (simp add: holder_of_def)

text \<open>A transfer that a store has written is the move of the ledger.\<close>

lemma spec_move_written:
  assumes "accts (intent_FromAccountID (transfer_Intent t)) = Some fa" "accts (intent_ToAccountID (transfer_Intent t)) = Some ta"
    and "intent_FromAccountID (transfer_Intent t) \<noteq> intent_ToAccountID (transfer_Intent t)" "\<not> account_System fa" "\<not> account_System ta"
    and "account_Currency fa = account_Currency ta" "account_Currency fa = transfer_Currency t"
    and "0 < sint (intent_AmountMinor (transfer_Intent t))" "sint (intent_AmountMinor (transfer_Intent t)) \<le> sint (account_BalanceMinor fa)"
    and "bound (scope_of t) = None" "bound' = bound(scope_of t \<mapsto> u)" "transfer_Intent u = transfer_Intent t"
    and old: "\<And>k a. accts k = Some a \<Longrightarrow> \<exists>a'. accts' k = Some a' \<and> same_identity a a' \<and>
        sint (account_BalanceMinor a') = sint (account_BalanceMinor a) + delta k t"
    and new: "\<And>k. accts k = None \<Longrightarrow> accts' k = None"
  shows "spec_move t (ledger_of accts bound) = Some (ledger_of accts' bound')"
proof -
  let ?i = "transfer_Intent t" and ?amt = "sint (intent_AmountMinor (transfer_Intent t))"
  have "map_option holder_of (accts' k) = ((\<lambda>k. map_option holder_of (accts k))
      (intent_FromAccountID ?i \<mapsto> (holder_of fa)\<lparr>h_balance := sint (account_BalanceMinor fa) - ?amt\<rparr>,
       intent_ToAccountID ?i \<mapsto> (holder_of ta)\<lparr>h_balance := sint (account_BalanceMinor ta) + ?amt\<rparr>)) k" for k
  proof (cases "accts k")
    case None
    with new [OF None] assms(1,2) show ?thesis by auto
  next
    case (Some a)
    from old [OF Some] obtain a' where a': "accts' k = Some a'" "same_identity a a'"
      "sint (account_BalanceMinor a') = sint (account_BalanceMinor a) + delta k t" by blast
    then have "map_option holder_of (accts' k) = Some ((holder_of a)\<lparr>h_balance := sint (account_BalanceMinor a) + delta k t\<rparr>)"
      by (simp add: holder_same)
    with Some assms(1-3) show ?thesis by (auto simp: delta_def Let_def holder_of_def)
  qed
  then show ?thesis using assms(1-12) by (auto simp: spec_move_def ledger_of_def Let_def fun_eq_iff)
qed

text \<open>An account that a store has written is the opening of the ledger.\<close>

lemma spec_open_written:
  assumes "accts (account_ID a) = None" "account_ID a \<noteq> equity (account_Currency a)" "0 \<le> sint (account_BalanceMinor a)"
    and "holder_of b = (holder_of a)\<lparr>h_system := False\<rparr>"
    and zero: "sint (account_BalanceMinor a) = 0 \<Longrightarrow> accts' = accts(account_ID a \<mapsto> b)"
    and funded: "0 < sint (account_BalanceMinor a) \<Longrightarrow> accts' = accts(account_ID a \<mapsto> b, equity (account_Currency a) \<mapsto> sys') \<and>
        equity_usable (account_Currency a) (ledger_of accts bound) \<and>
        holder_of sys' = \<lparr>h_owner = ''system'', h_currency = account_Currency a,
          h_balance = equity_balance (account_Currency a) (ledger_of accts bound) - sint (account_BalanceMinor a), h_system = True\<rparr>"
  shows "spec_open a (ledger_of accts bound) = Some (ledger_of accts' bound)"
proof (cases "sint (account_BalanceMinor a) = 0")
  case True
  with zero assms(1-4) show ?thesis by (auto simp: spec_open_def ledger_of_def holder_of_def Let_def fun_eq_iff)
next
  case False
  with assms(3) funded have o: "accts' = accts(account_ID a \<mapsto> b, equity (account_Currency a) \<mapsto> sys')"
    "equity_usable (account_Currency a) (ledger_of accts bound)"
    "holder_of sys' = \<lparr>h_owner = ''system'', h_currency = account_Currency a,
      h_balance = equity_balance (account_Currency a) (ledger_of accts bound) - sint (account_BalanceMinor a), h_system = True\<rparr>"
    by (metis order_le_less)+
  have "lg_accounts (ledger_of accts' bound) = (lg_accounts (ledger_of accts bound))
      (account_ID a \<mapsto> (holder_of a)\<lparr>h_system := False\<rparr>, equity (account_Currency a) \<mapsto> holder_of sys')"
    using assms(2,4) by (auto simp: o(1) ledger_of_def fun_eq_iff)
  moreover have "lg_accounts (ledger_of accts bound) (account_ID a) = None" using assms(1) by (simp add: ledger_of_def)
  moreover have "ledger_of accts' bound = (ledger_of accts bound)\<lparr>lg_accounts := lg_accounts (ledger_of accts' bound)\<rparr>"
    by (simp add: ledger_of_def)
  ultimately show ?thesis
    using False assms(2,3) o(2,3) unfolding spec_open_def Let_def by (simp add: holder_of_def)
qed

locale ledger_refinement =
  fixes step :: "'op \<Rightarrow> 's \<Rightarrow> 's"
    and invar :: "'s \<Rightarrow> bool"
    and abs :: "'s \<Rightarrow> ledger"
    and request :: "'op \<Rightarrow> ledger_request option"
  assumes step_invar: "invar s \<Longrightarrow> invar (step op s)"
    and step_refines: "invar s \<Longrightarrow> abs (step op s) = abs s \<or> (\<exists>r. request op = Some r \<and> spec_step r (abs s) = Some (abs (step op s)))"
begin

lemma run_invar: "invar s \<Longrightarrow> invar (fold step ops s)"
  by (induction ops arbitrary: s) (simp_all add: step_invar)

text \<open>A history is a run of the ledger on some of the requests, in their order.\<close>

lemma run_refines: "invar s \<Longrightarrow> \<exists>rs. subseq rs (List.map_filter request ops) \<and> spec_run rs (abs s) = Some (abs (fold step ops s))"
proof (induction ops arbitrary: s)
  case (Cons op ops)
  from Cons.IH [OF step_invar [OF Cons.prems], of op] obtain rs where
    rs: "subseq rs (List.map_filter request ops)" "spec_run rs (abs (step op s)) = Some (abs (fold step (op # ops) s))" by auto
  from step_refines [OF Cons.prems, of op] show ?case
  proof
    assume "abs (step op s) = abs s"
    with rs show ?case by (auto simp: map_filter_simps split: option.split intro!: exI [of _ rs])
  next
    assume "\<exists>r. request op = Some r \<and> spec_step r (abs s) = Some (abs (step op s))"
    then obtain r where "request op = Some r" "spec_step r (abs s) = Some (abs (step op s))" by blast
    with rs show ?case by (intro exI [of _ "r # rs"]) (simp add: map_filter_simps)
  qed
qed (auto simp: map_filter_simps intro!: exI [of _ "[]"])

lemma run_ok: "invar s \<Longrightarrow> ledger_ok (abs s) \<Longrightarrow> ledger_ok (abs (fold step ops s))"
  using run_refines spec_run_ok by blast

end

end
