(* ===== verification/Memory_Refinement.thy ===== *)
theory Memory_Refinement
  imports Memory_Ledger Ledger_Spec
begin

text \<open>The in-memory store refines the abstract ledger.\<close>

definition mem_ledger :: "mem_store \<Rightarrow> ledger" where
  "mem_ledger s = ledger_of (mem_accounts s) (mem_bound s)"

text \<open>What a call of a repository asks the ledger for.\<close>

fun op_request :: "repo_op \<Rightarrow> ledger_request" where
  "op_request (OpCreate c inp) = Open (cai_Account inp)"
| "op_request (OpTransfer c inp) = Move (ati_Transfer inp)"

lemma repo_run_fold: "repo_run R ops s = fold (repo_step R) ops s"
  by (induction ops arbitrary: s) simp_all

lemma mem_ledger_new: "mem_ledger mem_New = ledger_empty"
  by (simp add: mem_ledger_def ledger_of_def ledger_empty_def mem_bound_def mem_New_def fun_eq_iff)

lemma equity_system [simp]: "systemAccountID c = equity c"
  by (simp add: systemAccountID_def equity_def)

lemma create_refines:
  assumes "mem_inv s" "create_ready inp s" "0 < sint (account_BalanceMinor (cai_Account inp)) \<Longrightarrow> opening_ready inp s"
  shows "spec_open (cai_Account inp) (mem_ledger s) = Some (mem_ledger (create_commit inp s))"
proof -
  let ?a = "cai_Account inp"
  let ?sys = "system_account_or_new inp s"
  note f = create_ready_facts(1-6) [OF assms(2)] create_ready_facts(7,8) [OF assms(2), of "account_Currency ?a", unfolded equity_system]
  have "mem_bound (create_commit inp s) = mem_bound s"
    by (auto simp: mem_bound_def create_commit_def add_account_def opening_commit_def Let_def)
  moreover have "spec_open ?a (ledger_of (mem_accounts s) (mem_bound s)) = Some (ledger_of (mem_accounts (create_commit inp s)) (mem_bound s))"
  proof (rule spec_open_written [where b = ?a and sys' = "?sys\<lparr>account_BalanceMinor := account_BalanceMinor ?sys - account_BalanceMinor ?a\<rparr>"])
    assume pos: "0 < sint (account_BalanceMinor ?a)"
    note o = assms(3) [OF pos]
    have sys: "account_System ?sys" "account_OwnerID ?sys = ''system''" "account_Currency ?sys = account_Currency ?a"
      using o by (auto simp: opening_ready_def system_account_or_new_def Let_def split: option.splits)
    have "equity_balance (account_Currency ?a) (ledger_of (mem_accounts s) (mem_bound s)) = sint (account_BalanceMinor ?sys)"
      by (auto simp: equity_balance_def ledger_of_def system_account_or_new_def Let_def split: option.splits)
    moreover have "equity_usable (account_Currency ?a) (ledger_of (mem_accounts s) (mem_bound s))"
      using sys by (auto simp: equity_usable_def ledger_of_def system_account_or_new_def Let_def split: option.splits)
    moreover have "mem_accounts (create_commit inp s) = (mem_accounts s)(account_ID ?a \<mapsto> ?a,
        equity (account_Currency ?a) \<mapsto> ?sys\<lparr>account_BalanceMinor := account_BalanceMinor ?sys - account_BalanceMinor ?a\<rparr>)"
      using pos f(7) by (auto simp: create_commit_def add_account_def opening_commit_def Let_def fun_eq_iff)
    ultimately show "mem_accounts (create_commit inp s) = (mem_accounts s)(account_ID ?a \<mapsto> ?a,
        equity (account_Currency ?a) \<mapsto> ?sys\<lparr>account_BalanceMinor := account_BalanceMinor ?sys - account_BalanceMinor ?a\<rparr>) \<and>
      equity_usable (account_Currency ?a) (ledger_of (mem_accounts s) (mem_bound s)) \<and>
      holder_of (?sys\<lparr>account_BalanceMinor := account_BalanceMinor ?sys - account_BalanceMinor ?a\<rparr>) =
        \<lparr>h_owner = ''system'', h_currency = account_Currency ?a,
         h_balance = equity_balance (account_Currency ?a) (ledger_of (mem_accounts s) (mem_bound s)) - sint (account_BalanceMinor ?a), h_system = True\<rparr>"
      using sys sint_system_debit [OF o pos] by (simp add: holder_of_def)
  qed (use f in \<open>simp_all add: holder_of_def create_commit_def add_account_def\<close>)
  ultimately show ?thesis by (simp add: mem_ledger_def)
qed

lemma transfer_refines:
  assumes "mem_inv s" "transfer_ready inp fa ta s"
  shows "spec_move (ati_Transfer inp) (mem_ledger s) = Some (mem_ledger (transfer_commit inp fa ta s))"
proof -
  have st: "repo_step mem_repository (OpTransfer None inp) s = transfer_commit inp fa ta s"
    "mem_ApplyTransfer None inp s = (Inr \<lparr>result_Transfer = ati_Transfer inp, result_Replayed = False\<rparr>, transfer_commit inp fa ta s)"
    using mem_ApplyTransfer_commitI [OF assms(2)] by simp_all
  note fr = mem.apply_fresh [OF assms(1), of None inp, unfolded mem_repository_sel, OF st(2)]
  note f = transfer_ready_facts [OF assms(2)] and ids = transfer_accounts [OF _ assms(2)]
  have inv: "inv_accounts s" using assms(1) by (simp add: mem_inv_def)
  show ?thesis
    unfolding mem_ledger_def
  proof (rule spec_move_written [OF f(1,2) _ f(4-9), where u = "ati_Transfer inp"])
    show "intent_FromAccountID (transfer_Intent (ati_Transfer inp)) \<noteq> intent_ToAccountID (transfer_Intent (ati_Transfer inp))"
      using f(3) ids [OF inv] by metis
    show "mem_bound s (scope_of (ati_Transfer inp)) = None"
      "mem_bound (transfer_commit inp fa ta s) = (mem_bound s)(scope_of (ati_Transfer inp) \<mapsto> ati_Transfer inp)"
      using fr by simp_all
    show "\<exists>a'. mem_accounts (transfer_commit inp fa ta s) k = Some a' \<and> same_identity a a' \<and>
        sint (account_BalanceMinor a') = sint (account_BalanceMinor a) + delta k (ati_Transfer inp)" if "mem_accounts s k = Some a" for k a
      using fr that by simp
    show "mem_accounts (transfer_commit inp fa ta s) k = None" if "mem_accounts s k = None" for k
      using that f(1,2) ids [OF inv] by (auto simp: transfer_commit_def Let_def)
  qed simp
qed

lemma mem_step_refines:
  assumes "mem_inv s"
  shows "mem_ledger (repo_step mem_repository op s) = mem_ledger s \<or>
    spec_step (op_request op) (mem_ledger s) = Some (mem_ledger (repo_step mem_repository op s))"
proof (cases op)
  case (OpCreate c inp)
  obtain r s' where r: "mem_CreateAccount c inp s = (r, s')" by fastforce
  then show ?thesis
    by (rule mem_CreateAccount_cases) (use OpCreate r create_refines [OF assms] in \<open>auto simp: spec_step_def\<close>)
next
  case (OpTransfer c inp)
  obtain r s' where r: "mem_ApplyTransfer c inp s = (r, s')" by fastforce
  then show ?thesis
    by (rule mem_ApplyTransfer_cases) (use OpTransfer r transfer_refines [OF assms] in \<open>auto simp: spec_step_def\<close>)
qed

interpretation memref: ledger_refinement "repo_step mem_repository" mem_inv mem_ledger "\<lambda>op. Some (op_request op)"
  by unfold_locales (use mem_step_inv mem_step_refines in auto)

end
