(* ===== verification/Pg_Refinement.thy ===== *)
theory Pg_Refinement
  imports Pg_Sessions Ledger_Spec
begin

text \<open>The PostgreSQL store refines the abstract ledger, with every fault and every session.\<close>

definition pg_ledger :: "db \<Rightarrow> ledger" where
  "pg_ledger d = ledger_of (pg_accts d) (pg_bound d)"

text \<open>What a transaction asks the ledger for; the outbox asks for nothing.\<close>

fun tx_request :: "pg_tx \<Rightarrow> ledger_request option" where
  "tx_request (TxAccount inp at) = Some (Open (cai_Account inp))"
| "tx_request (TxTransfer inp at) = Some (Move (ati_Transfer inp))"
| "tx_request _ = None"

lemma pg_history_fold: "pg_history X txs d = fold (pg_tx_step X) txs d"
  by (induction txs arbitrary: d) simp_all

lemma pg_ledger_init: "pg_ledger db_init = ledger_empty"
  by (simp add: pg_ledger_def ledger_of_def ledger_empty_def pg_accts_def pg_bound_def select_transfer_def db_init_def fun_eq_iff)

lemma equity_pg [simp]: "pg_systemAccountID c = equity c"
  by (simp add: pg_systemAccountID_def equity_def)

lemma account_refines:
  assumes "pg_inv d" "account_step X inp pq ar d"
  shows "spec_open (cai_Account inp) (pg_ledger d) = Some (pg_ledger (account_written X inp pq ar d))"
proof -
  let ?a = "cai_Account inp" and ?d = "account_written X inp pq ar d"
  let ?sys = "system_row X (cai_Account inp) (db_accounts d)"
  let ?sys' = "set_balance (acc_balance_minor ?sys - account_BalanceMinor ?a) (x_time X (account_CreatedAt ?a)) ?sys"
  note id = account_step_id(2,5) [OF assms(2)] account_step_id(1) [OF assms(2), of "account_Currency ?a", unfolded equity_pg]
  have look: "pg_accts ?d k = (if k = account_ID ?a then Some (row_account (new_account_row X ?a))
      else if 0 < sint (account_BalanceMinor ?a) \<and> k = equity (account_Currency ?a) then Some (row_account ?sys') else pg_accts d k)" for k
    by (simp add: pg_accts_def account_written_sel opened_lookup [OF assms(2)])
  have "spec_open ?a (ledger_of (pg_accts d) (pg_bound d)) = Some (ledger_of (pg_accts ?d) (pg_bound d))"
  proof (rule spec_open_written [where b = "row_account (new_account_row X ?a)" and sys' = "row_account ?sys'"])
    assume pos: "0 < sint (account_BalanceMinor ?a)"
    note o = account_step_opening(2-4) [OF assms(2) pos]
    have own: "acc_owner_id ?sys = ''system''"
      using assms(2) pos id by (simp add: account_step_def account_writable_def opening_writable_def system_row_append Let_def)
    have sys: "account_System (row_account ?sys)" "account_OwnerID (row_account ?sys) = ''system''"
      "account_Currency (row_account ?sys) = account_Currency ?a" using o own by (simp_all add: row_account_def)
    have acc: "pg_accts d (equity (account_Currency ?a)) = Some a \<Longrightarrow> a = row_account ?sys" for a
      by (auto simp: pg_accts_def system_row_def)
    have none: "pg_accts d (equity (account_Currency ?a)) = None \<Longrightarrow> sint (acc_balance_minor ?sys) = 0"
      by (simp add: pg_accts_def system_row_def system_account_row_def)
    have "equity_balance (account_Currency ?a) (ledger_of (pg_accts d) (pg_bound d)) = sint (acc_balance_minor ?sys)"
      using acc none by (cases "pg_accts d (equity (account_Currency ?a))") (auto simp: equity_balance_def ledger_of_def row_account_def)
    moreover have "equity_usable (account_Currency ?a) (ledger_of (pg_accts d) (pg_bound d))"
      using acc sys by (cases "pg_accts d (equity (account_Currency ?a))") (auto simp: equity_usable_def ledger_of_def)
    moreover have "sint (acc_balance_minor ?sys - account_BalanceMinor ?a) = sint (acc_balance_minor ?sys) - sint (account_BalanceMinor ?a)"
      using o(3) pos sint_bounds64 [of "acc_balance_minor ?sys"] by (intro sint_sub64) (simp add: fits64_def)
    ultimately show "pg_accts ?d = (pg_accts d)(account_ID ?a \<mapsto> row_account (new_account_row X ?a), equity (account_Currency ?a) \<mapsto> row_account ?sys') \<and>
      equity_usable (account_Currency ?a) (ledger_of (pg_accts d) (pg_bound d)) \<and>
      holder_of (row_account ?sys') = \<lparr>h_owner = ''system'', h_currency = account_Currency ?a,
        h_balance = equity_balance (account_Currency ?a) (ledger_of (pg_accts d) (pg_bound d)) - sint (account_BalanceMinor ?a), h_system = True\<rparr>"
      using sys pos id(3) look by (auto simp: fun_eq_iff holder_of_def row_account_def)
  qed (use id look in \<open>auto simp: pg_accts_def fun_eq_iff holder_of_def row_account_def new_account_row_def\<close>)
  then show ?thesis using pg_bound_account [OF assms] by (simp add: pg_ledger_def)
qed

lemma written_refines:
  assumes "pg_inv d" "transfer_step X inp rf rt pq ar d" "pg_bound d (scope_of (ati_Transfer inp)) = None"
  shows "spec_move (ati_Transfer inp) (pg_ledger d) = Some (pg_ledger (transfer_written X inp (row_account rf) (row_account rt) pq ar d))"
proof -
  let ?d = "transfer_written X inp (row_account rf) (row_account rt) pq ar d" and ?i = "transfer_Intent (ati_Transfer inp)"
  have s: "lookup acc_id (intent_FromAccountID ?i) (db_accounts d) = Some rf" "lookup acc_id (intent_ToAccountID ?i) (db_accounts d) = Some rt"
    "\<not> acc_system rf" "\<not> acc_system rt" "acc_id rf \<noteq> acc_id rt" "acc_currency rf = acc_currency rt"
    "acc_currency rf = transfer_Currency (ati_Transfer inp)" "0 < sint (intent_AmountMinor ?i)"
    "sint (intent_AmountMinor ?i) \<le> sint (acc_balance_minor rf)"
    using assms(2) unfolding transfer_step_def Let_def by blast+
  note ids = transfer_step_facts(3,4) [OF assms(2)]
  show ?thesis
    unfolding pg_ledger_def
  proof (rule spec_move_written [where fa = "row_account rf" and ta = "row_account rt" and u = "pg_stored X (ati_Transfer inp)"])
    show "\<exists>a'. pg_accts ?d k = Some a' \<and> same_identity a a' \<and>
        sint (account_BalanceMinor a') = sint (account_BalanceMinor a) + delta k (ati_Transfer inp)" if "pg_accts d k = Some a" for k a
      by (rule pg_accts_transfer [OF assms(2) that])
    show "pg_accts ?d k = None" if "pg_accts d k = None" for k
      using that s(1,2) ids by (auto simp: pg_accts_def transfer_written_sel step_lookup [OF assms(2)] Let_def)
  qed (use s ids assms(3) pg_bound_transfer [OF assms(1,2)] in \<open>simp_all add: pg_accts_def row_account_def pg_stored_def\<close>)
qed

lemma outbox_ledger: "outbox_step d d' \<Longrightarrow> pg_ledger d' = pg_ledger d"
  using outbox_step_views [of d d'] by (simp add: pg_ledger_def)

lemma pg_step_refines:
  assumes "pg_inv d"
  shows "pg_ledger (pg_tx_step X tx d) = pg_ledger d \<or>
    (\<exists>r. tx_request tx = Some r \<and> spec_step r (pg_ledger d) = Some (pg_ledger (pg_tx_step X tx d)))"
proof (cases tx)
  case (TxAccount inp at)
  obtain r d' where r: "run_tx at (createAccountTx X inp at) d = (r, d')" by fastforce
  have "d' = d \<or> wrote_account X inp d d'" using r by (rule account_attempt_cases) auto
  with TxAccount r account_refines [OF assms] show ?thesis by (auto simp: spec_step_def wrote_account_def)
next
  case (TxTransfer inp at)
  obtain r d' where r: "run_tx at (applyTransferTx X inp at) d = (r, d')" by fastforce
  from assms r have "d' = d \<or> wrote_transfer X inp d d' \<and> pg_bound d (scope_of (ati_Transfer inp)) = None"
    by (rule transfer_attempt_cases) auto
  with TxTransfer r written_refines [OF assms] show ?thesis by (auto simp: spec_step_def wrote_transfer_def)
qed (simp_all add: outbox_ledger [OF claim_step [OF pg_inv_risk_ids [OF assms] surjective_pairing]]
    outbox_ledger [OF mark_published_step [OF surjective_pairing]] outbox_ledger [OF mark_failed_step [OF surjective_pairing]])

interpretation pgref: ledger_refinement "pg_tx_step X" pg_inv pg_ledger tx_request for X
  by unfold_locales (use pg_tx_step_inv pg_step_refines in auto)

end
