(* ===== verification/Refinement_Properties.thy ===== *)
theory Refinement_Properties
  imports Memory_Refinement Pg_Refinement
begin

text \<open>Properties of both stores through the abstract ledger that they refine.\<close>

section \<open>Balances of the database by currency\<close>

lemma ledger_accounts_dom: "dom (lg_accounts (pg_ledger d)) = acc_id ` set (db_accounts d)"
  by (auto simp: pg_ledger_def ledger_of_def pg_accts_def lookup_None dom_def)

lemma ledger_accounts_row:
  assumes "pg_inv d" "r \<in> set (db_accounts d)"
  shows "lg_accounts (pg_ledger d) (acc_id r) = Some (holder_of (row_account r))"
  using assms by (simp add: pg_ledger_def ledger_of_def pg_accts_def lookup_distinct pg_inv_def pg_accounts_ok_def)

definition currency_sum :: "go_string \<Rightarrow> db \<Rightarrow> int" where
  "currency_sum c d = sum_list (map (\<lambda>r. sint (acc_balance_minor r)) (filter (\<lambda>r. acc_currency r = c) (db_accounts d)))"

lemma currency_sum_total:
  assumes "pg_inv d"
  shows "currency_sum c d = total c (pg_ledger d)"
proof -
  have dist: "distinct (map acc_id (db_accounts d))" using assms by (simp add: pg_inv_def pg_accounts_ok_def)
  have "total c (pg_ledger d) = (\<Sum>k \<in> acc_id ` set (db_accounts d). held c (lg_accounts (pg_ledger d) k))"
    by (simp add: sum_held_def ledger_accounts_dom)
  also have "\<dots> = (\<Sum>r \<in> set (db_accounts d). if acc_currency r = c then sint (acc_balance_minor r) else 0)"
    using dist ledger_accounts_row [OF assms] by (subst sum.reindex) (auto simp: distinct_map row_account_def intro!: sum.cong)
  also have "\<dots> = sum_list (map (\<lambda>r. if acc_currency r = c then sint (acc_balance_minor r) else 0) (db_accounts d))"
    using dist by (simp add: sum_list_distinct_conv_sum_set distinct_map)
  also have "\<dots> = currency_sum c d"
    unfolding currency_sum_def by (simp add: sum_list_map_filter')
  finally show ?thesis by simp
qed

section \<open>Properties\<close>

text \<open>C6. Both stores refine one abstract ledger: every history of calls of the in-memory store, and every
  history of transactions of the PostgreSQL store with any faults, lost replies and outbox work in between,
  leads to the ledger that some of the requests make, one after the other in their order, each
  accepted by the abstract ledger; all other calls leave the ledger as it is.\<close>

theorem stores_refine_ledger:
  "(\<exists>rs. subseq rs (map op_request ops) \<and> spec_run rs ledger_empty = Some (mem_ledger (repo_run mem_repository ops mem_New))) \<and>
   (\<exists>rs. subseq rs (List.map_filter tx_request txs) \<and> spec_run rs ledger_empty = Some (pg_ledger (pg_history X txs db_init)))"
proof
  have "List.map_filter (\<lambda>op. Some (op_request op)) ops = map op_request ops" by (simp add: List.map_filter_def)
  then show "\<exists>rs. subseq rs (map op_request ops) \<and> spec_run rs ledger_empty = Some (mem_ledger (repo_run mem_repository ops mem_New))"
    using memref.run_refines [OF mem_reachable_inv [OF mem_reachable.new], of ops] by (simp add: mem_ledger_new repo_run_fold)
  show "\<exists>rs. subseq rs (List.map_filter tx_request txs) \<and> spec_run rs ledger_empty = Some (pg_ledger (pg_history X txs db_init))"
    using pgref.run_refines [OF pg_inv_init, of txs X] by (simp add: pg_ledger_init pg_history_fold)
qed

text \<open>C7. Money is conserved in the database: after any history of transactions of any sessions, with any
  faults, the balances of all accounts of a currency, the equity account of that currency included, add
  up to zero.\<close>

theorem pg_currency_conserved: "currency_sum c (pg_history X txs db_init) = 0"
proof -
  have "ledger_ok (pg_ledger (pg_history X txs db_init))"
    using pgref.run_ok [OF pg_inv_init, of X txs] by (simp add: pg_ledger_init ledger_ok_empty pg_history_fold)
  then show ?thesis
    using currency_sum_total [OF pg_history_inv [OF pg_inv_init]] by (simp add: ledger_ok_def)
qed

end
