(* ===== verification/Pg_Events.thy ===== *)
theory Pg_Events
  imports Pg_Sessions "HOL-Library.Multiset"
begin

text \<open>
  The life of a risk event in the database: the invariant of its row, its moves under the
  transactions of all sessions, what a claim returns and in which order, and the lease of a claim.
\<close>

section \<open>The invariant of the event rows\<close>

text \<open>What the status of an event says about its other columns.\<close>

definition status_agrees :: "risk_row \<Rightarrow> bool" where
  "status_agrees r \<longleftrightarrow>
     (rk_status r = ''pending'' \<longrightarrow> rk_attempts r = 0 \<and> rk_locked_at r = None) \<and>
     (rk_status r = ''processing'' \<longrightarrow> 1 \<le> rk_attempts r \<and> rk_locked_at r \<noteq> None) \<and>
     (rk_status r = ''published'' \<longrightarrow> 1 \<le> rk_attempts r \<and> rk_published_at r \<noteq> None \<and> rk_locked_at r = None) \<and>
     (rk_status r = ''failed'' \<longrightarrow> 1 \<le> rk_attempts r \<and> rk_last_error r \<noteq> None \<and> rk_published_at r = None \<and> rk_locked_at r = None)"

definition event_ok :: "risk_row \<Rightarrow> bool" where
  "event_ok r \<longleftrightarrow> risk_texts r \<and> 0 \<le> rk_attempts r \<and> rk_attempts r \<le> 10 \<and> status_agrees r"

definition outbox_ok :: "db \<Rightarrow> bool" where
  "outbox_ok d \<longleftrightarrow> (\<forall>r \<in> set (db_risk d). event_ok r)"

lemma risk_move_texts: "risk_move r r' \<Longrightarrow> risk_texts r' = risk_texts r"
  by (induction rule: risk_move.induct) (simp_all add: risk_texts_def claim_row_def publish_row_def fail_row_def)

lemma risk_move_event_ok:
  assumes "risk_move r r'" "event_ok r"
  shows "event_ok r'"
  using assms risk_move_texts [OF assms(1)]
proof (induction rule: risk_move.induct)
  case (claimed t r)
  then show ?case
    by (simp add: event_ok_def status_agrees_def claimable_def claim_row_def)
qed (auto simp: event_ok_def status_agrees_def publish_row_def fail_row_def)

lemma new_event_ok: "risk_texts (risk_row_of X t ev) \<Longrightarrow> event_ok (risk_row_of X t ev)"
  by (simp add: event_ok_def status_agrees_def risk_row_of_def)

text \<open>What a transaction of any session does to the events: it moves the old ones and adds pending ones.\<close>

lemma tx_step_events:
  assumes "pg_inv d"
  obtains f new where "db_risk (pg_tx_step X tx d) = map f (db_risk d) @ new"
    "\<And>r. r \<in> set (db_risk d) \<Longrightarrow> risk_move r (f r)" "\<And>r. r \<in> set new \<Longrightarrow> event_ok r"
  using assms
proof (cases rule: pg_tx_step_cases [of d X tx])
  case none
  show ?thesis by (rule that [of "\<lambda>r. r" "[]"]) (auto simp: none intro: risk_move.stay)
next
  case (account inp)
  show ?thesis
    by (rule that [of "\<lambda>r. r" "[]"]) (use account in \<open>auto simp: wrote_account_def account_written_sel intro: risk_move.stay\<close>)
next
  case (transfer inp)
  then obtain rf rt pq ar where w: "transfer_step X inp rf rt pq ar d"
    "pg_tx_step X tx d = transfer_written X inp (row_account rf) (row_account rt) pq ar d"
    unfolding wrote_transfer_def by blast
  let ?new = "case ati_Risk inp of None \<Rightarrow> [] | Some ev \<Rightarrow> [risk_row_of X (transfer_ID (ati_Transfer inp)) ev]"
  show ?thesis
    by (rule that [of "\<lambda>r. r" ?new])
      (use w transfer_step_facts(18) [OF w(1)] in \<open>auto simp: transfer_written_sel transfer_writable_def Let_def
        intro: risk_move.stay new_event_ok split: option.splits\<close>)
next
  case outbox
  then obtain f where "pg_tx_step X tx d = d\<lparr>db_risk := map f (db_risk d)\<rparr>" "\<forall>r \<in> set (db_risk d). risk_move r (f r)"
    unfolding outbox_step_def by blast
  then show ?thesis by (intro that [of f "[]"]) auto
qed

lemma tx_step_outbox_ok: "pg_inv d \<Longrightarrow> outbox_ok d \<Longrightarrow> outbox_ok (pg_tx_step X tx d)"
  by (rule tx_step_events [of d X tx]) (auto simp: outbox_ok_def intro: risk_move_event_ok)

lemma history_outbox_ok: "pg_inv d \<Longrightarrow> outbox_ok d \<Longrightarrow> outbox_ok (pg_history X txs d)"
  by (induction txs arbitrary: d) (simp_all add: pg_tx_step_inv tx_step_outbox_ok)

lemma lookup_moved:
  "(\<And>r. r \<in> set rows \<Longrightarrow> risk_move r (f r)) \<Longrightarrow> lookup rk_id k (map f rows) = map_option f (lookup rk_id k rows)"
proof (induction rows)
  case (Cons r rows)
  have "rk_id (f r) = rk_id r" using Cons.prems [of r] risk_move_keeps by simp
  with Cons show ?case by (simp add: lookup_def)
qed simp

lemma tx_step_event:
  assumes "pg_inv d" "lookup rk_id k (db_risk d) = Some r"
  shows "\<exists>r'. lookup rk_id k (db_risk (pg_tx_step X tx d)) = Some r' \<and> risk_move r r'"
  using assms(1)
proof (rule tx_step_events [of d X tx])
  fix f new
  assume f: "db_risk (pg_tx_step X tx d) = map f (db_risk d) @ new" "\<And>r. r \<in> set (db_risk d) \<Longrightarrow> risk_move r (f r)"
  with assms(2) lookup_moved [where k = k, OF f(2)] lookup_Some [OF assms(2)] show ?thesis by auto
qed

lemma published_move: "risk_move r r' \<Longrightarrow> rk_status r = ''published'' \<Longrightarrow> r' = r"
  by (erule risk_moveE) (simp_all add: claimable_def)

lemma exhausted_move:
  "risk_move r r' \<Longrightarrow> 10 \<le> rk_attempts r \<Longrightarrow> rk_attempts r' = rk_attempts r"
  by (erule risk_moveE) (simp_all add: claimable_def)

lemma published_final:
  "pg_inv d \<Longrightarrow> lookup rk_id k (db_risk d) = Some r \<Longrightarrow> rk_status r = ''published'' \<Longrightarrow>
     lookup rk_id k (db_risk (pg_history X txs d)) = Some r"
proof (induction txs arbitrary: d)
  case (Cons tx txs)
  then obtain r' where "lookup rk_id k (db_risk (pg_tx_step X tx d)) = Some r'" "risk_move r r'"
    using tx_step_event by blast
  with Cons show ?case using published_move pg_tx_step_inv by simp
qed simp

section \<open>The order of a claim\<close>

text \<open>A stable sort keeps the order of the elements with the same key.\<close>

definition by_key :: "('a \<Rightarrow> 'k :: linorder) \<Rightarrow> ('a \<Rightarrow> 'a \<Rightarrow> bool) \<Rightarrow> 'a \<Rightarrow> 'a \<Rightarrow> bool" where
  "by_key f R a b \<longleftrightarrow> f a < f b \<or> (f a = f b \<and> R a b)"

lemma insort_key_stable:
  "sorted_wrt (by_key f R) ys \<Longrightarrow> (\<And>y. y \<in> set ys \<Longrightarrow> R x y) \<Longrightarrow> sorted_wrt (by_key f R) (insort_key f x ys)"
proof (induction ys)
  case (Cons y ys)
  have ys: "sorted_wrt (by_key f R) (insort_key f x ys)" using Cons by simp
  show ?case
  proof (cases "f x \<le> f y")
    case True
    have "by_key f R x z" if "z \<in> set (y # ys)" for z
      using that True Cons.prems by (fastforce simp: by_key_def)
    with True Cons.prems show ?thesis by simp
  next
    case False
    have "by_key f R y z" if "z \<in> set (insort_key f x ys)" for z
      using that False Cons.prems(1) by (auto simp: by_key_def set_insort_key)
    with False ys show ?thesis by simp
  qed
qed simp

lemma sort_key_stable_order: "sorted_wrt R xs \<Longrightarrow> sorted_wrt (by_key f R) (sort_key f xs)"
  by (induction xs) (auto intro: insort_key_stable)

text \<open>The order of delivery: by availability, then creation, then identifier.\<close>

definition earlier :: "externals \<Rightarrow> risk_row \<Rightarrow> risk_row \<Rightarrow> bool" where
  "earlier X = by_key rk_available_at (by_key rk_created_at (\<lambda>a b. x_rank X (rk_id a) \<le> x_rank X (rk_id b)))"

lemma delivery_order_sorted: "sorted_wrt (earlier X) (delivery_order X rows)"
proof -
  have "sorted_wrt (\<lambda>a b. x_rank X (rk_id a) \<le> x_rank X (rk_id b)) (sort_key (\<lambda>r. x_rank X (rk_id r)) rows)"
    using sorted_sort_key [of "\<lambda>r. x_rank X (rk_id r)" rows] by (simp only: sorted_map)
  then show ?thesis unfolding earlier_def delivery_order_def by (intro sort_key_stable_order)
qed

lemma sorted_wrt_take:
  assumes "sorted_wrt R xs" "x \<in> set (take n xs)" "y \<in> set xs" "y \<notin> set (take n xs)"
  shows "R x y \<and> length (take n xs) = n"
proof -
  have "xs = take n xs @ drop n xs" by simp
  with assms(1) have s: "\<forall>a \<in> set (take n xs). \<forall>b \<in> set (drop n xs). R a b" by (metis sorted_wrt_append)
  have y: "y \<in> set (drop n xs)" using assms(3,4) \<open>xs = _\<close> by (metis Un_iff set_append)
  then have "n < length xs" by (cases "n < length xs") simp_all
  with s y assms(2) show ?thesis by simp
qed

lemma candidates_complete:
  assumes "r \<in> set (db_risk d)" "claimable now r" "rk_id r \<notin> skip" "r \<notin> set (candidates X skip limit now d)"
  shows "length (candidates X skip limit now d) = nat limit"
    "c \<in> set (candidates X skip limit now d) \<Longrightarrow> earlier X c r"
proof -
  let ?L = "filter (\<lambda>r. rk_id r \<notin> skip) (delivery_order X (filter (claimable now) (db_risk d)))"
  have s: "sorted_wrt (earlier X) ?L" by (rule sorted_wrt_filter [OF delivery_order_sorted])
  have r: "r \<in> set ?L" using assms(1-3) by simp
  show "length (candidates X skip limit now d) = nat limit"
    using r assms(4) unfolding candidates_def by (metis length_take linorder_not_le min.absorb2 min_absorb1 nle_le take_all)
  show "earlier X c r" if "c \<in> set (candidates X skip limit now d)"
    using sorted_wrt_take [OF s _ r] that assms(4) unfolding candidates_def by blast
qed

lemma length_candidates: "length (candidates X skip limit now d) \<le> nat limit"
  by (simp add: candidates_def)

section \<open>What a claim returns\<close>

text \<open>\<^verbatim>\<open>RETURNING\<close> gives every updated row once.\<close>

definition returns_rows :: "claim_env \<Rightarrow> bool" where
  "returns_rows ce \<longleftrightarrow> (\<forall>rows. mset (cl_order ce rows) = mset rows)"

definition claims :: "externals \<Rightarrow> claim_env \<Rightarrow> int \<Rightarrow> time \<Rightarrow> db \<Rightarrow> risk_row list" where
  "claims X ce limit now d = candidates X (cl_locked ce) (normaliseOutboxLimit limit) (x_time X now) d"

lemma distinct_candidates:
  assumes "distinct (map rk_id (db_risk d))"
  shows "distinct (map rk_id (candidates X skip limit now d))" "distinct (candidates X skip limit now d)"
proof -
  have "distinct (map rk_id (filter (claimable now) (db_risk d)))" using assms by (rule distinct_map_filter)
  then have "distinct (map rk_id (delivery_order X (filter (claimable now) (db_risk d))))"
    unfolding delivery_order_def by (simp add: distinct_map)
  then have "distinct (map rk_id (filter (\<lambda>r. rk_id r \<notin> skip) (delivery_order X (filter (claimable now) (db_risk d)))))"
    by (rule distinct_map_filter)
  then show "distinct (map rk_id (candidates X skip limit now d))"
    unfolding candidates_def take_map [symmetric] by simp
  then show "distinct (candidates X skip limit now d)" by (simp add: distinct_map)
qed

lemma claim_reply:
  assumes "distinct (map rk_id (db_risk d))" "returns_rows ce" "pg_ClaimRiskEvents X ce limit now d = (Inr ds, d')"
  shows "mset ds = mset (map (row_delivery \<circ> claim_row (x_time X now)) (claims X ce limit now d))"
    "db_risk d' = map (\<lambda>r. if r \<in> set (claims X ce limit now d) then claim_row (x_time X now) r else r) (db_risk d)"
proof -
  let ?cs = "claims X ce limit now d"
  have "claim_tx X ce (normaliseOutboxLimit limit) now d = Inr (ds, d')"
    using assms(3) by (cases rule: claim_cases) auto
  from claim_tx_Inr [OF assms(1) this, unfolded Let_def, folded claims_def]
  have ds: "ds = map row_delivery (cl_order ce (map (claim_row (x_time X now)) (filter (\<lambda>r. r \<in> set ?cs) (db_risk d))))"
    and d': "d' = d\<lparr>db_risk := map (\<lambda>r. if r \<in> set ?cs then claim_row (x_time X now) r else r) (db_risk d)\<rparr>" by simp_all
  have "mset (filter (\<lambda>r. r \<in> set ?cs) (db_risk d)) = mset ?cs"
  proof (rule set_eq_iff_mset_eq_distinct [THEN iffD1])
    show "distinct (filter (\<lambda>r. r \<in> set ?cs) (db_risk d))" using assms(1) by (simp add: distinct_map)
    show "distinct ?cs" unfolding claims_def by (rule distinct_candidates(2) [OF assms(1)])
    show "set (filter (\<lambda>r. r \<in> set ?cs) (db_risk d)) = set ?cs" unfolding claims_def by (auto dest: candidates_sound(1))
  qed
  then show "mset ds = mset (map (row_delivery \<circ> claim_row (x_time X now)) ?cs)"
    using assms(2) by (simp add: ds returns_rows_def multiset.map_comp)
  show "db_risk d' = map (\<lambda>r. if r \<in> set ?cs then claim_row (x_time X now) r else r) (db_risk d)"
    by (simp add: d')
qed

section \<open>The lease of a claim\<close>

text \<open>
  The transactions of other sessions while a claim made at \<open>t\<close> of event \<open>k\<close> is in force: anything but
  a mark of that event and a claim after the lease has expired.
\<close>

fun keeps_lease :: "externals \<Rightarrow> time \<Rightarrow> go_string \<Rightarrow> pg_tx \<Rightarrow> bool" where
  "keeps_lease X t k (TxClaim ce limit now) \<longleftrightarrow> x_time X now \<le> t + lease"
| "keeps_lease X t k (TxPublished at eid now) \<longleftrightarrow> eid \<noteq> k"
| "keeps_lease X t k (TxFailed at eid reason retryAt) \<longleftrightarrow> eid \<noteq> k"
| "keeps_lease X t k _ \<longleftrightarrow> True"

lemma lookup_update:
  assumes "distinct (map rk_id rows)" "lookup rk_id k rows = Some r" "\<And>x. rk_id (f x) = rk_id x"
  shows "lookup rk_id k (map (\<lambda>x. if sel x then f x else x) rows) = Some (if sel r then f r else r)"
  using assms lookup_map [of rk_id "\<lambda>x. if sel x then f x else x" k rows] by simp

lemma claim_row_lookup:
  assumes "distinct (map rk_id (db_risk d))" "lookup rk_id k (db_risk d) = Some r"
    "claim_tx X ce limit now d = Inr (ds, d')"
  shows "lookup rk_id k (db_risk d') =
    Some (if r \<in> set (candidates X (cl_locked ce) limit (x_time X now) d) then claim_row (x_time X now) r else r)"
  using claim_tx_Inr [OF assms(1,3)] lookup_update [OF assms(1,2)] by (simp add: Let_def)

lemma mark_row_lookup:
  assumes "distinct (map rk_id (db_risk d))" "lookup rk_id k (db_risk d) = Some r"
    "update_risk (in_process eid) f d = Inr (rows, d')" "\<And>x. rk_id (f x) = rk_id x"
  shows "lookup rk_id k (db_risk d') = Some (if k = eid \<and> rk_status r = ''processing'' then f r else r)"
  using assms(3) lookup_update [OF assms(1,2,4), of "in_process eid"] lookup_Some [OF assms(2)]
  by (auto simp: update_risk_Inr in_process_def)

lemma not_claimable_in_lease:
  "rk_status r = ''processing'' \<Longrightarrow> rk_locked_at r = Some t \<Longrightarrow> now \<le> t + lease \<Longrightarrow> \<not> claimable now r"
  by (simp add: claimable_def)

lemma ledger_keeps_events:
  assumes "lookup rk_id k (db_risk d) = Some r"
  shows "wrote_account X inp d d' \<Longrightarrow> lookup rk_id k (db_risk d') = Some r"
    "wrote_transfer X tinp d d' \<Longrightarrow> lookup rk_id k (db_risk d') = Some r"
  using assms by (auto simp: wrote_account_def wrote_transfer_def account_written_sel transfer_written_sel)

lemma lease_step:
  assumes "pg_inv d" "lookup rk_id k (db_risk d) = Some r" "rk_status r = ''processing''" "rk_locked_at r = Some t"
    "keeps_lease X t k tx"
  shows "lookup rk_id k (db_risk (pg_tx_step X tx d)) = Some r"
proof (cases tx)
  case (TxAccount inp at)
  obtain m d' where e: "run_tx at (createAccountTx X inp at) d = (m, d')" by fastforce
  then have s: "pg_tx_step X tx d = d'" by (simp add: TxAccount)
  from e show ?thesis unfolding s
    by (cases rule: account_attempt_cases) (auto intro: assms(2) ledger_keeps_events(1) [OF assms(2)])
next
  case (TxTransfer inp at)
  obtain m d' where e: "run_tx at (applyTransferTx X inp at) d = (m, d')" by fastforce
  then have s: "pg_tx_step X tx d = d'" by (simp add: TxTransfer)
  from assms(1) e show ?thesis unfolding s
    by (cases rule: transfer_attempt_cases) (auto intro: assms(2) ledger_keeps_events(2) [OF assms(2)])
next
  case (TxClaim ce limit now)
  obtain m d' where e: "pg_ClaimRiskEvents X ce limit now d = (m, d')" by fastforce
  have "\<not> claimable (x_time X now) r" using not_claimable_in_lease assms(3-5) TxClaim by simp
  then have "r \<notin> set (candidates X skip n (x_time X now) d)" for skip n using candidates_sound(2) by blast
  note out = this
  have s: "pg_tx_step X tx d = d'" by (simp add: TxClaim e)
  from e show ?thesis
  proof (cases rule: claim_cases)
    case (effect ds)
    from claim_row_lookup [OF pg_inv_risk_ids [OF assms(1)] assms(2) this(1)] s out show ?thesis by simp
  qed (simp add: s assms(2))
next
  case (TxPublished at eid now)
  obtain m d' where e: "pool_Exec at (published_stmt X eid now) d = (m, d')" by fastforce
  have s: "pg_tx_step X tx d = d'" by (simp add: TxPublished pg_MarkRiskEventPublished_def e)
  from e show ?thesis
  proof (cases rule: pool_Exec_cases)
    case (effect rows)
    then have "update_risk (in_process eid) (publish_row (x_time X now)) d = Inr (rows, d')" by (simp add: published_stmt_Inr)
    from mark_row_lookup [OF pg_inv_risk_ids [OF assms(1)] assms(2) this] s TxPublished assms(5) show ?thesis by simp
  qed (simp add: s assms(2))
next
  case (TxFailed at eid reason retryAt)
  obtain m d' where e: "pool_Exec at (failed_stmt X eid reason retryAt) d = (m, d')" by fastforce
  have s: "pg_tx_step X tx d = d'" by (simp add: TxFailed pg_MarkRiskEventFailed_def e)
  from e show ?thesis
  proof (cases rule: pool_Exec_cases)
    case (effect rows)
    then have "update_risk (in_process eid) (fail_row reason (x_time X retryAt)) d = Inr (rows, d')" by (simp add: failed_stmt_Inr)
    from mark_row_lookup [OF pg_inv_risk_ids [OF assms(1)] assms(2) this] s TxFailed assms(5) show ?thesis by simp
  qed (simp add: s assms(2))
qed

lemma lease_history:
  "pg_inv d \<Longrightarrow> lookup rk_id k (db_risk d) = Some r \<Longrightarrow> rk_status r = ''processing'' \<Longrightarrow> rk_locked_at r = Some t \<Longrightarrow>
     list_all (keeps_lease X t k) txs \<Longrightarrow> lookup rk_id k (db_risk (pg_history X txs d)) = Some r"
  by (induction txs arbitrary: d) (simp_all add: lease_step pg_tx_step_inv)

end
