(* ===== verification/Outbox_Worker.thy ===== *)
theory Outbox_Worker
  imports Outbox
begin

text \<open>
  The contract that the worker relies on, as a locale over the outbox, and what a cycle of the
  worker does over any outbox that keeps it. \<open>ops e\<close> is the outbox under circumstances \<open>e\<close>, which
  are \<open>legal\<close> when the outbox is itself, and \<open>sound\<close> when moreover no call fails.
\<close>

text \<open>The outcomes of handing deliveries to the publisher, in order.\<close>

fun publish_all :: "'p publisher \<Rightarrow> delivery list \<Rightarrow> 'p \<Rightarrow> go_string option list \<times> 'p" where
  "publish_all publish [] p = ([], p)"
| "publish_all publish (dl # dls) p =
     (let (r, p1) = publish (delivery_Event dl) p; (rs, p2) = publish_all publish dls p1 in (r # rs, p2))"

lemma length_publish_all [simp]: "length (fst (publish_all publish dls p)) = length dls"
  by (induction dls arbitrary: p) (simp_all add: split_def Let_def)

lemma publish_all_fst [simp]:
  "fst (publish_all publish (dl # dls) p) =
     fst (publish (delivery_Event dl) p) # fst (publish_all publish dls (snd (publish (delivery_Event dl) p)))"
  "snd (publish_all publish (dl # dls) p) = snd (publish_all publish dls (snd (publish (delivery_Event dl) p)))"
  by (simp_all add: publish_all.simps split_def Let_def)

declare publish_all.simps(2) [simp del]

text \<open>The status that a mark writes.\<close>

definition mark_status :: "go_string option \<Rightarrow> go_string" where
  "mark_status r = (case r of None \<Rightarrow> ''published'' | Some _ \<Rightarrow> ''failed'')"

locale risk_outbox =
  fixes ops :: "'e \<Rightarrow> 's outbox"
    and invar :: "'s \<Rightarrow> bool"
    and status :: "'s \<Rightarrow> go_string \<Rightarrow> go_string option"
    and legal :: "'e \<Rightarrow> bool"
    and sound :: "'e \<Rightarrow> bool"
    and storable :: "go_string \<Rightarrow> bool"
  assumes sound_legal: "sound e \<Longrightarrow> legal e"
    and claim_inv: "invar s \<Longrightarrow> ob_ClaimRiskEvents (ops e) limit now s = (r, s') \<Longrightarrow> invar s'"
    and claim_final: "invar s \<Longrightarrow> ob_ClaimRiskEvents (ops e) limit now s = (r, s') \<Longrightarrow>
      status s k = Some ''published'' \<Longrightarrow> status s' k = Some ''published''"
    and claim_deliveries: "invar s \<Longrightarrow> legal e \<Longrightarrow> ob_ClaimRiskEvents (ops e) limit now s = (Inr ds, s') \<Longrightarrow>
      distinct (map delivery_id ds) \<and> (\<forall>dl \<in> set ds. status s' (delivery_id dl) = Some ''processing'') \<and>
      (\<forall>k. k \<notin> delivery_id ` set ds \<longrightarrow> status s' k = status s k)"
    and claim_total: "invar s \<Longrightarrow> sound e \<Longrightarrow> \<exists>ds s'. ob_ClaimRiskEvents (ops e) limit now s = (Inr ds, s')"
    and published_inv: "invar s \<Longrightarrow> ob_MarkRiskEventPublished (ops e) eid now s = (m, s') \<Longrightarrow> invar s'"
    and published_final: "invar s \<Longrightarrow> ob_MarkRiskEventPublished (ops e) eid now s = (m, s') \<Longrightarrow>
      status s k = Some ''published'' \<Longrightarrow> status s' k = Some ''published''"
    and published_done: "invar s \<Longrightarrow> ob_MarkRiskEventPublished (ops e) eid now s = (None, s') \<Longrightarrow>
      status s' = (status s)(eid \<mapsto> ''published'')"
    and published_total: "invar s \<Longrightarrow> sound e \<Longrightarrow> status s eid = Some ''processing'' \<Longrightarrow>
      \<exists>s'. ob_MarkRiskEventPublished (ops e) eid now s = (None, s')"
    and failed_inv: "invar s \<Longrightarrow> ob_MarkRiskEventFailed (ops e) eid reason now s = (m, s') \<Longrightarrow> invar s'"
    and failed_final: "invar s \<Longrightarrow> ob_MarkRiskEventFailed (ops e) eid reason now s = (m, s') \<Longrightarrow>
      status s k = Some ''published'' \<Longrightarrow> status s' k = Some ''published''"
    and failed_done: "invar s \<Longrightarrow> ob_MarkRiskEventFailed (ops e) eid reason now s = (None, s') \<Longrightarrow>
      status s' = (status s)(eid \<mapsto> ''failed'')"
    and failed_total: "invar s \<Longrightarrow> sound e \<Longrightarrow> storable reason \<Longrightarrow> status s eid = Some ''processing'' \<Longrightarrow>
      \<exists>s'. ob_MarkRiskEventFailed (ops e) eid reason now s = (None, s')"
begin

text \<open>Other sessions keep the invariant, and an event that is published stays so.\<close>

definition peaceful :: "(nat \<Rightarrow> 's \<Rightarrow> 's) \<Rightarrow> bool" where
  "peaceful others \<longleftrightarrow> (\<forall>n s. invar s \<longrightarrow> invar (others n s) \<and>
     (\<forall>k. status s k = Some ''published'' \<longrightarrow> status (others n s) k = Some ''published''))"

lemma peacefulD:
  assumes "peaceful others" "invar s"
  shows "invar (others n s)" "status s k = Some ''published'' \<Longrightarrow> status (others n s) k = Some ''published''"
  using assms unfolding peaceful_def by blast+

text \<open>One turn of the loop: the call that marks a delivery, as the outcome of the publisher has it.\<close>

definition mark :: "'e \<Rightarrow> time \<Rightarrow> delivery \<Rightarrow> go_string option \<Rightarrow> 's \<Rightarrow> error option \<times> 's" where
  "mark e now dl r s =
     (case r of
        None \<Rightarrow> ob_MarkRiskEventPublished (ops e) (delivery_id dl) now s
      | Some msg \<Rightarrow> ob_MarkRiskEventFailed (ops e) (delivery_id dl) (truncateError msg)
          (now + deliveryBackoff (delivery_Attempts dl)) s)"

lemma process_Cons:
  "process_deliveries publish (\<lambda>n. ops (env n)) others now n (dl # dls) (s, p) =
     (let (r, p') = publish (delivery_Event dl) p in
      case mark (env n) now dl r (others n s) of
        (Some e, s') \<Rightarrow> (Some e, s', p')
      | (None, s') \<Rightarrow> process_deliveries publish (\<lambda>n. ops (env n)) others now (Suc n) dls (s', p'))"
  by (simp add: mark_def Let_def split: prod.splits option.splits)

lemma mark_facts:
  assumes "invar s" "mark e now dl r s = (m, s')"
  shows "invar s'" "status s k = Some ''published'' \<Longrightarrow> status s' k = Some ''published''"
    "m = None \<Longrightarrow> status s' = (status s)(delivery_id dl \<mapsto> mark_status r)"
proof -
  have r: "ob_MarkRiskEventPublished (ops e) (delivery_id dl) now s = (m, s')" if "r = None"
    using assms(2) that by (simp add: mark_def)
  have f: "ob_MarkRiskEventFailed (ops e) (delivery_id dl) (truncateError msg) (now + deliveryBackoff (delivery_Attempts dl)) s = (m, s')"
    if "r = Some msg" for msg
    using assms(2) that by (simp add: mark_def)
  show "invar s'" "status s k = Some ''published'' \<Longrightarrow> status s' k = Some ''published''"
    using published_inv [OF assms(1) r] published_final [OF assms(1) r] failed_inv [OF assms(1) f] failed_final [OF assms(1) f]
    by ((cases r; blast)+)
  show "status s' = (status s)(delivery_id dl \<mapsto> mark_status r)" if "m = None"
    using published_done [OF assms(1)] failed_done [OF assms(1)] r f that by (cases r) (auto simp: mark_status_def)
qed

lemma process_keeps:
  assumes "peaceful others" "invar s" "process_deliveries publish (\<lambda>n. ops (env n)) others now n dls (s, p) = (m, s', p')"
  shows "invar s' \<and> (status s k = Some ''published'' \<longrightarrow> status s' k = Some ''published'')"
  using assms(2,3)
proof (induction dls arbitrary: n s p)
  case (Cons dl dls)
  obtain r p1 where r: "publish (delivery_Event dl) p = (r, p1)" by fastforce
  obtain m1 s1 where m1: "mark (env n) now dl r (others n s) = (m1, s1)" by fastforce
  note o = peacefulD [OF assms(1) Cons.prems(1)] and f = mark_facts [OF peacefulD(1) [OF assms(1) Cons.prems(1)] m1]
  show ?case
  proof (cases m1)
    case None
    then have "process_deliveries publish (\<lambda>n. ops (env n)) others now (Suc n) dls (s1, p1) = (m, s', p')"
      using Cons.prems(2) unfolding process_Cons by (simp add: r m1 Let_def)
    from Cons.IH [OF f(1) this] o f show ?thesis by blast
  next
    case (Some e)
    then have "s' = s1" using Cons.prems(2) unfolding process_Cons by (simp add: r m1 Let_def)
    then show ?thesis using o f by blast
  qed
qed simp

text \<open>When the loop ends without an error, every event that the publisher took is published.\<close>

lemma process_published:
  assumes "peaceful others" "invar s" "process_deliveries publish (\<lambda>n. ops (env n)) others now n dls (s, p) = (None, s', p')"
  shows "p' = snd (publish_all publish dls p) \<and>
    (\<forall>i < length dls. fst (publish_all publish dls p) ! i = None \<longrightarrow> status s' (delivery_id (dls ! i)) = Some ''published'')"
  using assms(2,3)
proof (induction dls arbitrary: n s p)
  case (Cons dl dls)
  obtain r p1 where r: "publish (delivery_Event dl) p = (r, p1)" by fastforce
  obtain m1 s1 where m1: "mark (env n) now dl r (others n s) = (m1, s1)" by fastforce
  note f = mark_facts [OF peacefulD(1) [OF assms(1) Cons.prems(1)] m1]
  have m: "m1 = None" and rest: "process_deliveries publish (\<lambda>n. ops (env n)) others now (Suc n) dls (s1, p1) = (None, s', p')"
    using Cons.prems(2) unfolding process_Cons by (auto simp: r m1 Let_def split: option.splits)
  have "status s' (delivery_id dl) = Some ''published''" if "r = None"
    using process_keeps [OF assms(1) f(1) rest] f(3) [OF m] that by (simp add: mark_status_def)
  with Cons.IH [OF f(1) rest] show ?case by (auto simp: r nth_Cons split: nat.splits)
qed simp

text \<open>Alone and without faults, the loop ends without an error and marks every delivery.\<close>

lemma process_alone:
  assumes "\<And>n. sound (env n)" "invar s" "distinct (map delivery_id dls)"
    "\<And>dl. dl \<in> set dls \<Longrightarrow> status s (delivery_id dl) = Some ''processing''"
    "\<And>msg. Some msg \<in> set (fst (publish_all publish dls p)) \<Longrightarrow> storable (truncateError msg)"
  shows "\<exists>s'. process_deliveries publish (\<lambda>n. ops (env n)) (\<lambda>_ s. s) now n dls (s, p) = (None, s', snd (publish_all publish dls p)) \<and>
    invar s' \<and> (\<forall>i < length dls. status s' (delivery_id (dls ! i)) = Some (mark_status (fst (publish_all publish dls p) ! i))) \<and>
    (\<forall>k. k \<notin> delivery_id ` set dls \<longrightarrow> status s' k = status s k)"
  using assms(2-)
proof (induction dls arbitrary: n s p)
  case (Cons dl dls)
  obtain r p1 where r: "publish (delivery_Event dl) p = (r, p1)" by fastforce
  have st: "status s (delivery_id dl) = Some ''processing''" by (rule Cons.prems(3)) simp
  have "\<exists>s1. mark (env n) now dl r s = (None, s1)"
  proof (cases r)
    case None
    then show ?thesis using published_total [OF Cons.prems(1) assms(1) st] by (simp add: mark_def)
  next
    case (Some msg)
    then have "storable (truncateError msg)" by (intro Cons.prems(4)) (simp add: r)
    from failed_total [OF Cons.prems(1) assms(1) this st] Some show ?thesis by (simp add: mark_def)
  qed
  then obtain s1 where m1: "mark (env n) now dl r s = (None, s1)" by blast
  note f = mark_facts [OF Cons.prems(1) m1]
  have keep: "status s1 k = status s k" if "k \<noteq> delivery_id dl" for k using f(3) that by simp
  have "\<exists>s'. process_deliveries publish (\<lambda>n. ops (env n)) (\<lambda>_ s. s) now (Suc n) dls (s1, p1) = (None, s', snd (publish_all publish dls p1)) \<and>
    invar s' \<and> (\<forall>i < length dls. status s' (delivery_id (dls ! i)) = Some (mark_status (fst (publish_all publish dls p1) ! i))) \<and>
    (\<forall>k. k \<notin> delivery_id ` set dls \<longrightarrow> status s' k = status s1 k)"
  proof (rule Cons.IH [OF f(1)])
    show "distinct (map delivery_id dls)" using Cons.prems(2) by simp
    show "status s1 (delivery_id dl') = Some ''processing''" if "dl' \<in> set dls" for dl'
    proof -
      have "delivery_id dl' \<noteq> delivery_id dl" using Cons.prems(2) that by (auto simp: image_iff)
      with keep Cons.prems(3) [of dl'] that show ?thesis by simp
    qed
    show "storable (truncateError msg)" if "Some msg \<in> set (fst (publish_all publish dls p1))" for msg
      using Cons.prems(4) that by (simp add: r)
  qed
  then obtain s' where s': "process_deliveries publish (\<lambda>n. ops (env n)) (\<lambda>_ s. s) now (Suc n) dls (s1, p1) = (None, s', snd (publish_all publish dls p1))"
    "invar s'" "\<forall>i < length dls. status s' (delivery_id (dls ! i)) = Some (mark_status (fst (publish_all publish dls p1) ! i))"
    "\<forall>k. k \<notin> delivery_id ` set dls \<longrightarrow> status s' k = status s1 k" by blast
  have "status s' (delivery_id dl) = Some (mark_status r)"
    using s'(4) f(3) Cons.prems(2) by simp
  moreover have "status s' k = status s k" if "k \<notin> delivery_id ` set (dl # dls)" for k
    using s'(4) keep that by simp
  moreover have "process_deliveries publish (\<lambda>n. ops (env n)) (\<lambda>_ s. s) now n (dl # dls) (s, p) =
      (None, s', snd (publish_all publish (dl # dls) p))"
    using s'(1) unfolding process_Cons by (simp add: r m1)
  ultimately show ?case
    using s'(2,3) by (intro exI [of _ s']) (simp add: r All_less_Suc2)
qed simp

lemma ProcessOnce_published:
  assumes "peaceful others" "invar s" "\<And>n. legal (env n)" "ProcessOnce w (\<lambda>n. ops (env n)) others now (s, p) = (Inr n, s', p')"
  shows "\<exists>ds s1. ob_ClaimRiskEvents (ops (env 0)) (wk_batchSize w) now (others 0 s) = (Inr ds, s1) \<and> n = length ds \<and>
    p' = snd (publish_all (wk_publisher w) ds p) \<and>
    (\<forall>i < n. fst (publish_all (wk_publisher w) ds p) ! i = None \<longrightarrow> status s' (delivery_id (ds ! i)) = Some ''published'')"
proof -
  from assms(4) obtain ds s1 where c: "ob_ClaimRiskEvents (ops (env 0)) (wk_batchSize w) now (others 0 s) = (Inr ds, s1)"
    "process_deliveries (wk_publisher w) (\<lambda>n. ops (env n)) others now 1 ds (s1, p) = (None, s', p')" "n = length ds"
    by (auto simp: ProcessOnce_def split: prod.splits sum.splits option.splits)
  from process_published [OF assms(1) claim_inv [OF peacefulD(1) [OF assms(1,2)] c(1)] c(2)] c show ?thesis by blast
qed

lemma ProcessOnce_alone:
  assumes "\<And>n. sound (env n)" "invar s"
    "\<And>ds s1 msg. ob_ClaimRiskEvents (ops (env 0)) (wk_batchSize w) now s = (Inr ds, s1) \<Longrightarrow>
       Some msg \<in> set (fst (publish_all (wk_publisher w) ds p)) \<Longrightarrow> storable (truncateError msg)"
  shows "\<exists>ds s1 s'. ob_ClaimRiskEvents (ops (env 0)) (wk_batchSize w) now s = (Inr ds, s1) \<and>
    ProcessOnce w (\<lambda>n. ops (env n)) (\<lambda>_ s. s) now (s, p) = (Inr (length ds), s', snd (publish_all (wk_publisher w) ds p)) \<and> invar s' \<and>
    (\<forall>i < length ds. status s' (delivery_id (ds ! i)) = Some (mark_status (fst (publish_all (wk_publisher w) ds p) ! i))) \<and>
    (\<forall>k. k \<notin> delivery_id ` set ds \<longrightarrow> status s' k = status s k)"
proof -
  obtain ds s1 where c: "ob_ClaimRiskEvents (ops (env 0)) (wk_batchSize w) now s = (Inr ds, s1)"
    using claim_total [OF assms(2,1)] by blast
  note d = claim_deliveries [OF assms(2) sound_legal [OF assms(1)] c]
  obtain s' where "process_deliveries (wk_publisher w) (\<lambda>n. ops (env n)) (\<lambda>_ s. s) now 1 ds (s1, p) =
      (None, s', snd (publish_all (wk_publisher w) ds p))" "invar s'"
    "\<forall>i < length ds. status s' (delivery_id (ds ! i)) = Some (mark_status (fst (publish_all (wk_publisher w) ds p) ! i))"
    "\<forall>k. k \<notin> delivery_id ` set ds \<longrightarrow> status s' k = status s1 k"
    using process_alone [where n = 1 and env = env and dls = ds and publish = "wk_publisher w" and p = p and now = now,
      OF assms(1) claim_inv [OF assms(2) c]] d assms(3) [OF c] by blast
  with c d show ?thesis by (auto simp: ProcessOnce_def)
qed

end

end
