(* ===== verification/Pg_Worker.thy ===== *)
theory Pg_Worker
  imports Pg_Events Outbox_Worker
begin

text \<open>
  The PostgreSQL store keeps the contract of the outbox: the operations on the table of risk events
  against the laws of \<open>risk_outbox\<close>, and the interpretation that gives the worker's facts for it.
\<close>

definition pg_status :: "db \<Rightarrow> go_string \<Rightarrow> go_string option" where
  "pg_status d k = map_option rk_status (lookup rk_id k (db_risk d))"

definition events_inv :: "db \<Rightarrow> bool" where
  "events_inv d \<longleftrightarrow> pg_inv d \<and> outbox_ok d"

text \<open>Circumstances without any fault, and error texts that the column \<^verbatim>\<open>last_error\<close> takes.\<close>

definition no_fault :: "claim_env \<Rightarrow> bool" where
  "no_fault ce \<longleftrightarrow> returns_rows ce \<and> at_begin (cl_attempt ce) = None \<and> (\<forall>k. at_fault (cl_attempt ce) k = None) \<and>
     at_commit (cl_attempt ce) = CommitOK"

definition error_storable :: "go_string \<Rightarrow> bool" where
  "error_storable reason \<longleftrightarrow> valid_text reason \<and> RuneCountInString reason \<le> 500"

lemma pg_outbox_sel [simp]:
  "ob_ClaimRiskEvents (pg_outbox X ce) = pg_ClaimRiskEvents X ce"
  "ob_MarkRiskEventPublished (pg_outbox X ce) = pg_MarkRiskEventPublished X (cl_attempt ce)"
  "ob_MarkRiskEventFailed (pg_outbox X ce) = pg_MarkRiskEventFailed X (cl_attempt ce)"
  by (simp_all add: pg_outbox_def)

section \<open>Steps and the invariant\<close>

lemma outbox_step_events_inv:
  assumes "events_inv d" "outbox_step d d'"
  shows "events_inv d'"
proof -
  have "outbox_ok d'" using assms risk_move_event_ok unfolding outbox_step_def events_inv_def outbox_ok_def by fastforce
  then show ?thesis using assms outbox_step_inv by (auto simp: events_inv_def)
qed

lemma outbox_step_lookup:
  assumes "outbox_step d d'"
  shows "\<exists>f. \<forall>k. lookup rk_id k (db_risk d') = map_option f (lookup rk_id k (db_risk d)) \<and>
    (\<forall>r. lookup rk_id k (db_risk d) = Some r \<longrightarrow> risk_move r (f r))"
proof -
  obtain f where f: "d' = d\<lparr>db_risk := map f (db_risk d)\<rparr>" "\<forall>r \<in> set (db_risk d). risk_move r (f r)"
    using assms unfolding outbox_step_def by blast
  then have "lookup rk_id k (db_risk d') = map_option f (lookup rk_id k (db_risk d))" for k
    using lookup_moved [of "db_risk d" f k] by simp
  moreover have "risk_move r (f r)" if "lookup rk_id k (db_risk d) = Some r" for k r
    using f(2) lookup_Some [OF that] by simp
  ultimately show ?thesis by blast
qed

lemma outbox_step_final:
  assumes "outbox_step d d'" "pg_status d k = Some ''published''"
  shows "pg_status d' k = Some ''published''"
proof -
  obtain f where f: "lookup rk_id k (db_risk d') = map_option f (lookup rk_id k (db_risk d))"
    "\<forall>r. lookup rk_id k (db_risk d) = Some r \<longrightarrow> risk_move r (f r)"
    using outbox_step_lookup [OF assms(1)] by blast
  with assms(2) published_move show ?thesis by (fastforce simp: pg_status_def)
qed

lemma events_invD: "events_inv d \<Longrightarrow> pg_inv d" "events_inv d \<Longrightarrow> distinct (map rk_id (db_risk d))"
  by (simp_all add: events_inv_def pg_inv_risk_ids)

section \<open>Claims and marks\<close>

lemma row_delivery_id [simp]: "delivery_id (row_delivery r) = rk_id r"
  by (simp add: row_delivery_def row_event_def)

lemma claim_delivery_ids:
  assumes "distinct (map rk_id (db_risk d))" "returns_rows ce" "pg_ClaimRiskEvents X ce limit now d = (Inr ds, d')"
  shows "distinct (map delivery_id ds)" "delivery_id ` set ds = rk_id ` set (claims X ce limit now d)"
    "length ds = length (claims X ce limit now d)"
proof -
  let ?cs = "claims X ce limit now d"
  note m = claim_reply(1) [OF assms]
  have ids: "mset (map delivery_id ds) = mset (map rk_id ?cs)"
    using arg_cong [OF m, of "image_mset delivery_id"] by (simp add: multiset.map_comp comp_def)
  have "distinct (map rk_id ?cs)" unfolding claims_def by (rule distinct_candidates(1) [OF assms(1)])
  then show "distinct (map delivery_id ds)" using ids mset_eq_imp_distinct_iff by blast
  show "delivery_id ` set ds = rk_id ` set ?cs" using mset_eq_setD [OF ids] by simp
  show "length ds = length ?cs" using mset_eq_length [OF ids] by simp
qed

lemma claim_status:
  assumes "distinct (map rk_id (db_risk d))" "returns_rows ce" "pg_ClaimRiskEvents X ce limit now d = (Inr ds, d')"
  shows "pg_status d' k = (if k \<in> delivery_id ` set ds then Some ''processing'' else pg_status d k)"
proof -
  let ?cs = "claims X ce limit now d"
  have l: "lookup rk_id k (db_risk d') =
      map_option (\<lambda>r. if r \<in> set ?cs then claim_row (x_time X now) r else r) (lookup rk_id k (db_risk d))"
    unfolding claim_reply(2) [OF assms] by (rule lookup_map) simp
  have cs: "r \<in> set ?cs \<longleftrightarrow> k \<in> rk_id ` set ?cs" if "lookup rk_id k (db_risk d) = Some r" for r
    using candidate_row [OF assms(1), of r] lookup_Some [OF that] unfolding claims_def by auto
  have out: "k \<notin> rk_id ` set ?cs" if "lookup rk_id k (db_risk d) = None"
    using that candidates_sound(1) unfolding claims_def lookup_None by blast
  show ?thesis
    using l cs out by (cases "lookup rk_id k (db_risk d)") (simp_all add: pg_status_def claim_delivery_ids(2) [OF assms])
qed

text \<open>The one row that a mark changes.\<close>

lemma filter_in_process:
  assumes "distinct (map rk_id rows)"
  shows "filter (in_process eid) rows =
    (case lookup rk_id eid rows of None \<Rightarrow> [] | Some r \<Rightarrow> if rk_status r = ''processing'' then [r] else [])"
  using assms
proof (induction rows)
  case (Cons r rows)
  show ?case
  proof (cases "rk_id r = eid")
    case True
    then have "filter (in_process eid) rows = []"
      using Cons.prems by (auto simp: in_process_def filter_empty_conv image_iff)
    moreover have "in_process eid r \<longleftrightarrow> rk_status r = ''processing''" using True by (simp add: in_process_def)
    ultimately show ?thesis using True by (simp add: lookup_def)
  next
    case False
    with Cons show ?thesis by (simp add: in_process_def lookup_def)
  qed
qed simp

lemma mark_done:
  assumes "distinct (map rk_id (db_risk d))" "update_risk (in_process eid) f d = Inr (rows, d')" "length rows = 1"
    "\<And>x. rk_id (f x) = rk_id x" "\<And>x. rk_status (f x) = st"
  shows "pg_status d' = (pg_status d)(eid \<mapsto> st)"
proof
  fix k
  have "length (filter (in_process eid) (db_risk d)) = 1" using assms(2,3) by (simp add: update_risk_Inr)
  then obtain r where r: "lookup rk_id eid (db_risk d) = Some r" "rk_status r = ''processing''"
    unfolding filter_in_process [OF assms(1)] by (auto split: option.splits if_splits)
  show "pg_status d' k = ((pg_status d)(eid \<mapsto> st)) k"
  proof (cases "lookup rk_id k (db_risk d)")
    case None
    then have "lookup rk_id k (db_risk d') = None"
      using assms(2,4) by (auto simp: update_risk_Inr lookup_None image_iff)
    with None r show ?thesis by (auto simp: pg_status_def)
  next
    case (Some x)
    from mark_row_lookup [OF assms(1) Some assms(2,4)] r Some assms(5) show ?thesis by (auto simp: pg_status_def)
  qed
qed

lemma risk_only_triggers: "db_transactions d' = db_transactions d \<Longrightarrow> db_postings d' = db_postings d \<Longrightarrow> deferred_triggers d d' = None"
  by (simp add: deferred_triggers_def)

lemma pool_Exec_ok:
  assumes "no_fault ce" "update_risk sel f d = Inr (rows, d')" "st d = update_risk sel f d"
  shows "pool_Exec (cl_attempt ce) st d = (Inr (length rows), d')"
proof -
  have "deferred_triggers d d' = None" using assms(2) by (intro risk_only_triggers) (auto simp: update_risk_Inr)
  moreover have "st d = Inr (rows, d')" using assms(2,3) by simp
  ultimately show ?thesis
    using assms(1) by (simp add: pool_Exec_def no_fault_def run_tx_def bind_stmt_def exec_def return_stmt_def)
qed

lemma processing_row:
  assumes "events_inv d" "pg_status d eid = Some ''processing''"
  obtains r where "filter (in_process eid) (db_risk d) = [r]" "rk_id r = eid" "risk_check r" "valid_text eid"
proof -
  obtain r where r: "lookup rk_id eid (db_risk d) = Some r" "rk_status r = ''processing''"
    using assms(2) by (auto simp: pg_status_def)
  with lookup_Some [OF r(1)] assms(1) show ?thesis
    by (intro that [of r])
      (auto simp: filter_in_process [OF events_invD(2)] events_inv_def pg_inv_def pg_logs_ok_def outbox_ok_def event_ok_def risk_texts_def)
qed

lemma mark_update:
  assumes "filter (in_process eid) (db_risk d) = [r]" "risk_check (f r)"
  shows "\<exists>d'. update_risk (in_process eid) f d = Inr ([f r], d')"
  using assms by (simp add: update_risk_def Let_def)

lemma row_checks:
  "risk_check r \<Longrightarrow> risk_check (publish_row t r)"
  "risk_check r \<Longrightarrow> RuneCountInString e \<le> 500 \<Longrightarrow> risk_check (fail_row e t r)"
  "risk_check r \<Longrightarrow> risk_check (claim_row t r)"
  by (auto simp: risk_check_def publish_row_def fail_row_def claim_row_def)

lemma mark_published_total:
  assumes "events_inv d" "no_fault ce" "pg_status d eid = Some ''processing''"
  shows "\<exists>d'. pg_MarkRiskEventPublished X (cl_attempt ce) eid now d = (None, d')"
proof -
  obtain r where r: "filter (in_process eid) (db_risk d) = [r]" "risk_check r" "valid_text eid"
    by (rule processing_row [OF assms(1,3)])
  obtain d' where u: "update_risk (in_process eid) (publish_row (x_time X now)) d = Inr ([publish_row (x_time X now) r], d')"
    using mark_update [where f = "publish_row (x_time X now)", OF r(1) row_checks(1) [OF r(2)]] by blast
  from pool_Exec_ok [OF assms(2) u, of "published_stmt X eid now"] r(3) show ?thesis
    by (auto simp: pg_MarkRiskEventPublished_def mark_reply_def published_stmt_def)
qed

lemma mark_failed_total:
  assumes "events_inv d" "no_fault ce" "error_storable reason" "pg_status d eid = Some ''processing''"
  shows "\<exists>d'. pg_MarkRiskEventFailed X (cl_attempt ce) eid reason now d = (None, d')"
proof -
  obtain r where r: "filter (in_process eid) (db_risk d) = [r]" "risk_check r" "valid_text eid"
    by (rule processing_row [OF assms(1,4)])
  obtain d' where u: "update_risk (in_process eid) (fail_row reason (x_time X now)) d = Inr ([fail_row reason (x_time X now) r], d')"
    using mark_update [where f = "fail_row reason (x_time X now)", OF r(1) row_checks(2) [OF r(2)]] assms(3) by (auto simp: error_storable_def)
  from pool_Exec_ok [OF assms(2) u, of "failed_stmt X eid reason now"] r(3) assms(3) show ?thesis
    by (auto simp: pg_MarkRiskEventFailed_def mark_reply_def failed_stmt_def error_storable_def)
qed

lemma mark_published_done:
  assumes "events_inv d" "pg_MarkRiskEventPublished X at eid now d = (None, d')"
  shows "pg_status d' = (pg_status d)(eid \<mapsto> ''published'')"
proof -
  have e: "pool_Exec at (published_stmt X eid now) d = (Inr 1, d')"
    using assms(2) by (simp add: pg_MarkRiskEventPublished_def mark_reply_None)
  then obtain rows where "update_risk (in_process eid) (publish_row (x_time X now)) d = Inr (rows, d')" "length rows = 1"
    by (rule pool_Exec_cases) (auto simp: published_stmt_Inr)
  from mark_done [OF events_invD(2) [OF assms(1)] this] show ?thesis by simp
qed

lemma mark_failed_done:
  assumes "events_inv d" "pg_MarkRiskEventFailed X at eid reason now d = (None, d')"
  shows "pg_status d' = (pg_status d)(eid \<mapsto> ''failed'')"
proof -
  have e: "pool_Exec at (failed_stmt X eid reason now) d = (Inr 1, d')"
    using assms(2) by (simp add: pg_MarkRiskEventFailed_def mark_reply_None)
  then obtain rows where "update_risk (in_process eid) (fail_row reason (x_time X now)) d = Inr (rows, d')" "length rows = 1"
    by (rule pool_Exec_cases) (auto simp: failed_stmt_Inr)
  from mark_done [OF events_invD(2) [OF assms(1)] this] show ?thesis by simp
qed

lemma claim_ok_total:
  assumes "events_inv d" "no_fault ce"
  shows "\<exists>ds d'. pg_ClaimRiskEvents X ce limit now d = (Inr ds, d')"
proof -
  have "\<forall>r \<in> set (db_risk d). risk_check (claim_row t r)" for t
    using assms(1) row_checks(3) by (auto simp: events_inv_def pg_inv_def pg_logs_ok_def)
  then have u: "\<exists>rows d'. update_risk sel (claim_row t) d = Inr (rows, d') \<and> db_transactions d' = db_transactions d \<and>
      db_postings d' = db_postings d" for sel t
    by (auto simp: update_risk_def Let_def)
  then obtain rows d' where "update_risk (\<lambda>r. rk_id r \<in> rk_id ` set (candidates X (cl_locked ce) (normaliseOutboxLimit limit) (x_time X now) d))
      (claim_row (x_time X now)) d = Inr (rows, d')" "db_transactions d' = db_transactions d" "db_postings d' = db_postings d"
    by blast
  then show ?thesis using assms(2) risk_only_triggers [of d' d]
    by (simp add: pg_ClaimRiskEvents_def no_fault_def run_tx_def claim_tx_def bind_stmt_def exec_def return_stmt_def Let_def)
qed

section \<open>The store as the outbox of the worker\<close>

interpretation pgob: risk_outbox "pg_outbox X" events_inv pg_status returns_rows no_fault error_storable for X
proof unfold_locales
  fix e :: claim_env and d d' :: db and ds limit now r m eid reason k
  show "no_fault e \<Longrightarrow> returns_rows e" by (simp add: no_fault_def)
  show "events_inv d'" if "events_inv d" "ob_ClaimRiskEvents (pg_outbox X e) limit now d = (r, d')"
    using that claim_step events_invD(2) outbox_step_events_inv by fastforce
  show "pg_status d' k = Some ''published''"
    if "events_inv d" "ob_ClaimRiskEvents (pg_outbox X e) limit now d = (r, d')" "pg_status d k = Some ''published''"
    using that claim_step events_invD(2) outbox_step_final by fastforce
  show "distinct (map delivery_id ds) \<and> (\<forall>dl \<in> set ds. pg_status d' (delivery_id dl) = Some ''processing'') \<and>
      (\<forall>k. k \<notin> delivery_id ` set ds \<longrightarrow> pg_status d' k = pg_status d k)"
    if "events_inv d" "returns_rows e" "ob_ClaimRiskEvents (pg_outbox X e) limit now d = (Inr ds, d')"
    using that claim_delivery_ids(1) [OF events_invD(2)] claim_status [OF events_invD(2)] by simp
  show "\<exists>ds d'. ob_ClaimRiskEvents (pg_outbox X e) limit now d = (Inr ds, d')" if "events_inv d" "no_fault e"
    using that claim_ok_total by simp
  show "events_inv d'" if "events_inv d" "ob_MarkRiskEventPublished (pg_outbox X e) eid now d = (m, d')"
    using that mark_published_step outbox_step_events_inv by fastforce
  show "pg_status d' k = Some ''published''"
    if "events_inv d" "ob_MarkRiskEventPublished (pg_outbox X e) eid now d = (m, d')" "pg_status d k = Some ''published''"
    using that mark_published_step outbox_step_final by fastforce
  show "pg_status d' = (pg_status d)(eid \<mapsto> ''published'')"
    if "events_inv d" "ob_MarkRiskEventPublished (pg_outbox X e) eid now d = (None, d')"
    using that mark_published_done by simp
  show "\<exists>d'. ob_MarkRiskEventPublished (pg_outbox X e) eid now d = (None, d')"
    if "events_inv d" "no_fault e" "pg_status d eid = Some ''processing''"
    using that mark_published_total by simp
  show "events_inv d'" if "events_inv d" "ob_MarkRiskEventFailed (pg_outbox X e) eid reason now d = (m, d')"
    using that mark_failed_step outbox_step_events_inv by fastforce
  show "pg_status d' k = Some ''published''"
    if "events_inv d" "ob_MarkRiskEventFailed (pg_outbox X e) eid reason now d = (m, d')" "pg_status d k = Some ''published''"
    using that mark_failed_step outbox_step_final by fastforce
  show "pg_status d' = (pg_status d)(eid \<mapsto> ''failed'')"
    if "events_inv d" "ob_MarkRiskEventFailed (pg_outbox X e) eid reason now d = (None, d')"
    using that mark_failed_done by simp
  show "\<exists>d'. ob_MarkRiskEventFailed (pg_outbox X e) eid reason now d = (None, d')"
    if "events_inv d" "no_fault e" "error_storable reason" "pg_status d eid = Some ''processing''"
    using that mark_failed_total by simp
qed

end
