(* ===== verification/Outbox_Properties.thy ===== *)
theory Outbox_Properties
  imports Pg_Worker Pg_Scenario
begin

text \<open>
  Properties of the transactional outbox in PostgreSQL and of the worker that delivers its events:
  the life of an event, what a claim takes and for how long, how often an event is handed out, and
  what a cycle of the worker achieves.
\<close>

section \<open>An example\<close>

text \<open>The database of \<open>Pg_Scenario\<close> with one pending event, and a server that works.\<close>

definition demo_event :: risk_row where
  "demo_event = \<lparr>rk_id = ''ev1'', rk_event_type = ''large_transfer'', rk_severity = ''medium'', rk_transaction_id = ''open-a'',
     rk_reason = ''large'', rk_status = ''pending'', rk_attempts = 0, rk_created_at = 1, rk_available_at = 1,
     rk_locked_at = None, rk_published_at = None, rk_last_error = None\<rparr>"

definition demo_events :: db where
  "demo_events = demo_db\<lparr>db_risk := [demo_event]\<rparr>"

definition demo_claim :: claim_env where
  "demo_claim = \<lparr>cl_attempt = ce_attempt (calm demo_sq None) 0, cl_locked = {}, cl_order = (\<lambda>rows. rows)\<rparr>"

lemma demo_events_inv: "events_inv demo_events"
proof -
  have a: "ascii ''ev1''" "ascii ''large_transfer''" "ascii ''medium''" "ascii ''open-a''" "ascii ''large''"
    by (simp_all add: bv_def)
  have "risk_check demo_event" "event_ok demo_event"
    by (simp_all add: risk_check_def event_ok_def status_agrees_def risk_texts_def demo_event_def ascii_text ascii_chars a del: ascii_simps)
  then have "pg_logs_ok demo_events" "outbox_ok demo_events"
    by (simp_all add: pg_logs_ok_def outbox_ok_def demo_events_def demo_db_def lookup_def) (simp add: demo_event_def)
  moreover have "pg_inv demo_db" by (rule demo_db_inv)
  ultimately show ?thesis
    by (simp add: events_inv_def pg_inv_def demo_events_def pg_accounts_ok_def pg_transactions_ok_def pg_postings_ok_def
        pg_balances_ok_def pg_intents_ok_def intent_agrees_def)
qed

lemma demo_no_fault: "no_fault demo_claim" "returns_rows demo_claim"
  by (simp_all add: no_fault_def returns_rows_def demo_claim_def)

lemma demo_claimed:
  "claims demo_X demo_claim 32 5 demo_events = [demo_event]"
  by (simp add: claims_def candidates_def normaliseOutboxLimit_def delivery_order_def demo_events_def demo_claim_def demo_X_def
      claimable_def) (simp add: demo_event_def)

lemma demo_claim_reply:
  "\<exists>d'. pg_ClaimRiskEvents demo_X demo_claim 32 5 demo_events = (Inr [row_delivery (claim_row 5 demo_event)], d') \<and>
     lookup rk_id ''ev1'' (db_risk d') = Some (claim_row 5 demo_event) \<and> events_inv d'"
proof -
  obtain ds d' where c: "pg_ClaimRiskEvents demo_X demo_claim 32 5 demo_events = (Inr ds, d')"
    using claim_ok_total [OF demo_events_inv demo_no_fault(1)] by blast
  note r = claim_reply [OF events_invD(2) [OF demo_events_inv] demo_no_fault(2) c, unfolded demo_claimed]
  have "ds = [row_delivery (claim_row 5 demo_event)]" using r(1) by (simp add: demo_X_def)
  moreover have "lookup rk_id ''ev1'' (db_risk d') = Some (claim_row 5 demo_event)"
    using r(2) by (simp add: demo_events_def demo_X_def lookup_def) (simp add: demo_event_def)
  moreover have "events_inv d'" using pgob.claim_inv [OF demo_events_inv, of demo_X demo_claim 32 5] c by simp
  ultimately show ?thesis using c by blast
qed

section \<open>The life of an event\<close>

lemma events_inv_init: "events_inv db_init"
  by (simp add: events_inv_def pg_inv_init outbox_ok_def) (simp add: db_init_def)

lemma history_events_inv: "events_inv d \<Longrightarrow> events_inv (pg_history X txs d)"
  by (simp add: events_inv_def pg_history_inv history_outbox_ok)

text \<open>C23. The invariant of the outbox: after any history of transactions of ledger sessions and outbox
  workers, each with arbitrary faults, every event refers to a transaction of the ledger, has been
  claimed at most ten times, and its status agrees with its other columns: a pending event was never
  claimed, one in process holds a lock, a published one has its instant, a failed one its error.\<close>

theorem outbox_history_sound:
  assumes "events_inv d" "r \<in> set (db_risk (pg_history X txs d))"
  shows "0 \<le> rk_attempts r \<and> rk_attempts r \<le> 10 \<and> status_agrees r \<and>
    lookup jt_id (rk_transaction_id r) (db_transactions (pg_history X txs d)) \<noteq> None"
  using history_events_inv [OF assms(1), of X txs] assms(2)
  by (simp add: events_inv_def outbox_ok_def event_ok_def pg_inv_def pg_logs_ok_def)

theorem outbox_history_sound_witness:
  "\<exists>r \<in> set (db_risk (pg_history demo_X [TxClaim demo_claim 32 5] demo_events)). rk_status r = ''processing'' \<and> rk_locked_at r \<noteq> None"
proof -
  obtain d' where d': "pg_history demo_X [TxClaim demo_claim 32 5] demo_events = d'"
    "lookup rk_id ''ev1'' (db_risk d') = Some (claim_row 5 demo_event)"
    using demo_claim_reply by force
  then have r: "claim_row 5 demo_event \<in> set (db_risk (pg_history demo_X [TxClaim demo_claim 32 5] demo_events))"
    using lookup_Some by fastforce
  from outbox_history_sound [OF demo_events_inv r] r show ?thesis by (intro bexI [OF _ r]) (simp add: status_agrees_def)
qed

text \<open>C24. What a claim takes: at most the normalised limit of events, each once, each claimable and not held by
  another session; every row of them is marked with the instant of the claim and one more attempt,
  never more than ten. When it leaves out a claimable event that no session holds, it has taken its full
  limit, and every event it took comes before that one in the order of availability, creation and
  identifier.\<close>

theorem outbox_claim_takes:
  assumes "events_inv d" "returns_rows ce" "pg_ClaimRiskEvents X ce limit now d = (Inr ds, d')"
  shows "int (length ds) \<le> normaliseOutboxLimit limit \<and> distinct (map delivery_id ds) \<and>
    (\<forall>dl \<in> set ds. \<exists>r \<in> set (db_risk d). claimable (x_time X now) r \<and> rk_id r \<notin> cl_locked ce \<and>
       dl = row_delivery (claim_row (x_time X now) r) \<and> claim_row (x_time X now) r \<in> set (db_risk d') \<and> delivery_Attempts dl \<le> 10) \<and>
    (\<forall>r \<in> set (db_risk d). claimable (x_time X now) r \<and> rk_id r \<notin> cl_locked ce \<and> rk_id r \<notin> delivery_id ` set ds \<longrightarrow>
       int (length ds) = normaliseOutboxLimit limit \<and>
       (\<forall>c \<in> set (db_risk d). rk_id c \<in> delivery_id ` set ds \<longrightarrow> earlier X c r))"
proof (intro conjI ballI impI)
  let ?cs = "claims X ce limit now d"
  note ids = events_invD(2) [OF assms(1)]
  note c = claim_delivery_ids [OF ids assms(2,3)] and r = claim_reply [OF ids assms(2,3)]
  have lim: "0 \<le> normaliseOutboxLimit limit" by (simp add: normaliseOutboxLimit_def)
  show "int (length ds) \<le> normaliseOutboxLimit limit"
    using c(3) length_candidates [of X "cl_locked ce" "normaliseOutboxLimit limit"] lim unfolding claims_def by (metis le_nat_iff)
  show "distinct (map delivery_id ds)" by (rule c(1))
  show "\<exists>r \<in> set (db_risk d). claimable (x_time X now) r \<and> rk_id r \<notin> cl_locked ce \<and>
      dl = row_delivery (claim_row (x_time X now) r) \<and> claim_row (x_time X now) r \<in> set (db_risk d') \<and> delivery_Attempts dl \<le> 10"
    if "dl \<in> set ds" for dl
  proof -
    from that mset_eq_setD [OF r(1)] obtain x where x: "x \<in> set ?cs" "dl = row_delivery (claim_row (x_time X now) x)" by auto
    from candidates_sound [OF x(1) [unfolded claims_def]] x r(2) show ?thesis
      by (intro bexI [of _ x]) (force simp: row_delivery_def claimable_def)+
  qed
  fix r
  assume r: "r \<in> set (db_risk d)" "claimable (x_time X now) r \<and> rk_id r \<notin> cl_locked ce \<and> rk_id r \<notin> delivery_id ` set ds"
  then have out: "r \<notin> set ?cs" using c(2) by auto
  note comp = candidates_complete [OF r(1) _ _ out [unfolded claims_def]]
  show "int (length ds) = normaliseOutboxLimit limit" using comp(1) r(2) c(3) lim by (simp add: claims_def)
  show "earlier X x r" if "x \<in> set (db_risk d)" "rk_id x \<in> delivery_id ` set ds" for x
    using comp(2) r(2) that c(2) candidate_row [OF ids that(1)] by (auto simp: claims_def)
qed

theorem outbox_claim_takes_witness:
  "\<exists>dl d'. pg_ClaimRiskEvents demo_X demo_claim 32 5 demo_events = (Inr [dl], d') \<and> delivery_id dl = ''ev1'' \<and> delivery_Attempts dl \<le> 10"
proof -
  obtain d' where c: "pg_ClaimRiskEvents demo_X demo_claim 32 5 demo_events = (Inr [row_delivery (claim_row 5 demo_event)], d')"
    using demo_claim_reply by blast
  from outbox_claim_takes [OF demo_events_inv demo_no_fault(2) c] have "delivery_Attempts (row_delivery (claim_row 5 demo_event)) \<le> 10"
    by (meson list.set_intros(1))
  with c show ?thesis by (auto simp: demo_event_def)
qed

text \<open>C25. No double claim: while the lease of one minute of a claim lasts, and as long as nobody marks the
  event, no other claim returns it, whatever transactions other sessions run in between.\<close>

theorem outbox_lease_exclusive:
  assumes "events_inv d" "returns_rows ce" "pg_ClaimRiskEvents X ce limit now d = (Inr ds, d1)" "dl \<in> set ds"
    "list_all (keeps_lease X (x_time X now) (delivery_id dl)) txs"
    "returns_rows ce2" "x_time X now2 \<le> x_time X now + lease"
    "pg_ClaimRiskEvents X ce2 limit2 now2 (pg_history X txs d1) = (Inr ds2, d2)"
  shows "delivery_id dl \<notin> delivery_id ` set ds2"
proof -
  note r = claim_reply [OF events_invD(2) [OF assms(1)] assms(2,3)]
  have inv: "events_inv d1" using pgob.claim_inv [OF assms(1), of X ce limit now] assms(3) by simp
  from assms(4) mset_eq_setD [OF r(1)] obtain x where x: "x \<in> set (claims X ce limit now d)"
    "dl = row_delivery (claim_row (x_time X now) x)" by auto
  then have "claim_row (x_time X now) x \<in> set (db_risk d1)"
    using r(2) candidates_sound(1) unfolding claims_def by force
  from lookup_distinct [OF events_invD(2) [OF inv] this]
  have k: "lookup rk_id (delivery_id dl) (db_risk d1) = Some (claim_row (x_time X now) x)" by (simp add: x(2))
  have inv': "events_inv (pg_history X txs d1)" by (rule history_events_inv [OF inv])
  have l: "lookup rk_id (delivery_id dl) (db_risk (pg_history X txs d1)) = Some (claim_row (x_time X now) x)"
    by (rule lease_history [OF events_invD(1) [OF inv] k _ _ assms(5)]) simp_all
  have "\<not> claimable (x_time X now2) (claim_row (x_time X now) x)" using assms(7) by (intro not_claimable_in_lease) simp_all
  with candidate_row [OF events_invD(2) [OF inv']] lookup_Some [OF l]
  have "delivery_id dl \<notin> rk_id ` set (claims X ce2 limit2 now2 (pg_history X txs d1))"
    unfolding claims_def by (metis candidates_sound(2) list.set_map)
  then show ?thesis using claim_delivery_ids(2) [OF events_invD(2) [OF inv'] assms(6,8)] by simp
qed

theorem outbox_lease_exclusive_witness:
  "\<exists>d1 ds2 d2. pg_ClaimRiskEvents demo_X demo_claim 32 5 demo_events = (Inr [row_delivery (claim_row 5 demo_event)], d1) \<and>
     pg_ClaimRiskEvents demo_X demo_claim 32 7 d1 = (Inr ds2, d2) \<and> ''ev1'' \<notin> delivery_id ` set ds2"
proof -
  obtain d1 where c: "pg_ClaimRiskEvents demo_X demo_claim 32 5 demo_events = (Inr [row_delivery (claim_row 5 demo_event)], d1)" "events_inv d1"
    using demo_claim_reply by blast
  obtain ds2 d2 where c2: "pg_ClaimRiskEvents demo_X demo_claim 32 7 d1 = (Inr ds2, d2)"
    using claim_ok_total [OF c(2) demo_no_fault(1)] by blast
  then have h: "pg_ClaimRiskEvents demo_X demo_claim 32 7 (pg_history demo_X [] d1) = (Inr ds2, d2)" by simp
  have "delivery_id (row_delivery (claim_row 5 demo_event)) \<notin> delivery_id ` set ds2"
    by (rule outbox_lease_exclusive [OF demo_events_inv demo_no_fault(2) c(1) _ _ demo_no_fault(2) _ h]) (simp_all add: demo_X_def)
  moreover have "delivery_id (row_delivery (claim_row 5 demo_event)) = ''ev1''" by (simp add: demo_event_def)
  ultimately show ?thesis using c c2 by auto
qed

text \<open>The claims of a history whose reply contains an event.\<close>

fun handed_out :: "externals \<Rightarrow> go_string \<Rightarrow> pg_tx list \<Rightarrow> db \<Rightarrow> int" where
  "handed_out X k [] d = 0"
| "handed_out X k (tx # txs) d =
     (case tx of
        TxClaim ce limit now \<Rightarrow>
          (case pg_ClaimRiskEvents X ce limit now d of
             (Inr ds, _) \<Rightarrow> if k \<in> delivery_id ` set ds then 1 else 0 | _ \<Rightarrow> 0)
      | _ \<Rightarrow> 0) + handed_out X k txs (pg_tx_step X tx d)"

fun tx_returns_rows :: "pg_tx \<Rightarrow> bool" where
  "tx_returns_rows (TxClaim ce limit now) \<longleftrightarrow> returns_rows ce"
| "tx_returns_rows _ \<longleftrightarrow> True"

definition attempts_of :: "db \<Rightarrow> go_string \<Rightarrow> int" where
  "attempts_of d k = (case lookup rk_id k (db_risk d) of None \<Rightarrow> 0 | Some r \<Rightarrow> rk_attempts r)"

lemma attempts_bounds: "events_inv d \<Longrightarrow> 0 \<le> attempts_of d k \<and> attempts_of d k \<le> 10"
  by (auto simp: attempts_of_def events_inv_def outbox_ok_def event_ok_def dest: lookup_Some split: option.splits)

lemma risk_move_attempts: "risk_move r r' \<Longrightarrow> rk_attempts r \<le> rk_attempts r'"
  by (induction rule: risk_move.induct) simp_all

lemma attempts_grow: "events_inv d \<Longrightarrow> attempts_of d k \<le> attempts_of (pg_tx_step X tx d) k"
proof (cases "lookup rk_id k (db_risk d)")
  case None
  assume "events_inv d"
  then have "events_inv (pg_tx_step X tx d)" using history_events_inv [of d X "[tx]"] by simp
  from attempts_bounds [OF this] None show ?thesis by (simp add: attempts_of_def)
next
  case (Some r)
  assume "events_inv d"
  then obtain r' where "lookup rk_id k (db_risk (pg_tx_step X tx d)) = Some r'" "risk_move r r'"
    using tx_step_event [OF events_invD(1) Some] by blast
  with risk_move_attempts Some show ?thesis by (simp add: attempts_of_def)
qed

lemma attempts_claimed:
  assumes "events_inv d" "returns_rows ce" "pg_ClaimRiskEvents X ce limit now d = (Inr ds, d')" "k \<in> delivery_id ` set ds"
  shows "attempts_of d' k = attempts_of d k + 1"
proof -
  note ids = events_invD(2) [OF assms(1)]
  from assms(4) obtain x where x: "x \<in> set (claims X ce limit now d)" "rk_id x = k"
    using claim_delivery_ids(2) [OF ids assms(2,3)] by auto
  then have l: "lookup rk_id k (db_risk d) = Some x"
    using lookup_distinct [OF ids, of x] candidates_sound(1) unfolding claims_def by blast
  have "lookup rk_id k (db_risk d') = Some (claim_row (x_time X now) x)"
    unfolding claim_reply(2) [OF ids assms(2,3)] using lookup_update [OF ids l] x by simp
  with l show ?thesis by (simp add: attempts_of_def)
qed

lemma handed_out_bound:
  "events_inv d \<Longrightarrow> list_all tx_returns_rows txs \<Longrightarrow> handed_out X k txs d + attempts_of d k \<le> 10"
proof (induction txs arbitrary: d)
  case Nil
  then show ?case using attempts_bounds by simp
next
  case (Cons tx txs)
  let ?d = "pg_tx_step X tx d"
  have "events_inv ?d" using history_events_inv [OF Cons.prems(1), of X "[tx]"] by simp
  with Cons have IH: "handed_out X k txs ?d + attempts_of ?d k \<le> 10" by simp
  have "(case tx of TxClaim ce limit now \<Rightarrow>
          (case pg_ClaimRiskEvents X ce limit now d of
             (Inr ds, _) \<Rightarrow> if k \<in> delivery_id ` set ds then 1 else 0 | _ \<Rightarrow> 0)
      | _ \<Rightarrow> 0) + attempts_of d k \<le> attempts_of ?d k"
    using attempts_grow [OF Cons.prems(1), of k X tx] attempts_claimed [OF Cons.prems(1)] Cons.prems(2)
    by (auto split: pg_tx.splits prod.splits sum.splits)
  with IH show ?case by simp
qed

text \<open>C26. An event is handed out at most ten times in any history, however many workers there are and
  whatever fails.\<close>

theorem outbox_ten_deliveries:
  assumes "events_inv d" "list_all tx_returns_rows txs"
  shows "handed_out X k txs d \<le> 10"
  using handed_out_bound [OF assms, of X k] attempts_bounds [OF assms(1), of k] by linarith

theorem outbox_ten_deliveries_witness:
  "handed_out demo_X ''ev1'' [TxClaim demo_claim 32 5] demo_events = 1 \<and>
   handed_out demo_X ''ev1'' [TxClaim demo_claim 32 5] demo_events \<le> 10"
proof -
  obtain d1 where c: "pg_ClaimRiskEvents demo_X demo_claim 32 5 demo_events = (Inr [row_delivery (claim_row 5 demo_event)], d1)"
    using demo_claim_reply by blast
  then have "handed_out demo_X ''ev1'' [TxClaim demo_claim 32 5] demo_events = 1" by (simp add: demo_event_def)
  then show ?thesis
    using outbox_ten_deliveries [OF demo_events_inv, of "[TxClaim demo_claim 32 5]" demo_X "''ev1''"] demo_no_fault(2) by simp
qed

section \<open>Published events\<close>

lemma published_not_claimed:
  assumes "events_inv d" "pg_status d k = Some ''published''" "returns_rows ce" "pg_ClaimRiskEvents X ce limit now d = (Inr ds, d')"
  shows "k \<notin> delivery_id ` set ds"
proof
  assume "k \<in> delivery_id ` set ds"
  then obtain x where x: "x \<in> set (claims X ce limit now d)" "rk_id x = k"
    using claim_delivery_ids(2) [OF events_invD(2) [OF assms(1)] assms(3,4)] by auto
  then have "claimable (x_time X now) x" "x \<in> set (db_risk d)" using candidates_sound unfolding claims_def by blast+
  with lookup_distinct [OF events_invD(2) [OF assms(1)], of x] assms(2) x(2) show False
    by (simp add: pg_status_def claimable_def)
qed

lemma tx_published_final:
  assumes "events_inv d" "pg_status d k = Some ''published''"
  shows "pg_status (pg_history X txs d) k = Some ''published''"
  using assms published_final [OF events_invD(1) [OF assms(1)]] by (auto simp: pg_status_def)

lemma published_never_handed:
  "events_inv d \<Longrightarrow> pg_status d k = Some ''published'' \<Longrightarrow> list_all tx_returns_rows txs \<Longrightarrow> handed_out X k txs d = 0"
proof (induction txs arbitrary: d)
  case (Cons tx txs)
  have "events_inv (pg_tx_step X tx d)" "pg_status (pg_tx_step X tx d) k = Some ''published''"
    using history_events_inv [OF Cons.prems(1), of X "[tx]"] tx_published_final [OF Cons.prems(1,2), of X "[tx]"] by simp_all
  with Cons have "handed_out X k txs (pg_tx_step X tx d) = 0" by simp
  moreover have "k \<notin> delivery_id ` set ds" if "tx = TxClaim ce limit now" "pg_ClaimRiskEvents X ce limit now d = (Inr ds, d')"
    for ce limit now ds d' using published_not_claimed [OF Cons.prems(1,2) _ that(2)] Cons.prems(3) that(1) by simp
  ultimately show ?case by (simp split: pg_tx.splits prod.splits sum.splits) blast
qed simp

text \<open>C27. Publication is final: once \<^verbatim>\<open>MarkRiskEventPublished\<close> has returned without an error, the event stays
  published through every later history and is never handed out again.\<close>

theorem outbox_published_final:
  assumes "events_inv d" "pg_MarkRiskEventPublished X at eid now d = (None, d')" "list_all tx_returns_rows later"
  shows "pg_status (pg_history X later d') eid = Some ''published'' \<and> handed_out X eid later d' = 0"
proof -
  have "events_inv d'" using outbox_step_events_inv [OF assms(1) mark_published_step [OF assms(2)]] .
  moreover have "pg_status d' eid = Some ''published''" using mark_published_done [OF assms(1,2)] by simp
  ultimately show ?thesis using tx_published_final published_never_handed assms(3) by blast
qed

theorem outbox_published_final_witness:
  "\<exists>d1 d2. pg_ClaimRiskEvents demo_X demo_claim 32 5 demo_events = (Inr [row_delivery (claim_row 5 demo_event)], d1) \<and>
     pg_MarkRiskEventPublished demo_X (cl_attempt demo_claim) ''ev1'' 6 d1 = (None, d2) \<and>
     handed_out demo_X ''ev1'' [TxClaim demo_claim 32 99999999999] d2 = 0"
proof -
  obtain d1 where c: "pg_ClaimRiskEvents demo_X demo_claim 32 5 demo_events = (Inr [row_delivery (claim_row 5 demo_event)], d1)"
    "lookup rk_id ''ev1'' (db_risk d1) = Some (claim_row 5 demo_event)" "events_inv d1"
    using demo_claim_reply by blast
  then obtain d2 where d2: "pg_MarkRiskEventPublished demo_X (cl_attempt demo_claim) ''ev1'' 6 d1 = (None, d2)"
    using mark_published_total [OF c(3) demo_no_fault(1), of "''ev1''"] by (auto simp: pg_status_def)
  have "list_all tx_returns_rows [TxClaim demo_claim 32 99999999999]" using demo_no_fault(2) by simp
  from outbox_published_final [OF c(3) d2 this] c d2 show ?thesis by blast
qed

section \<open>The worker\<close>

text \<open>Other sessions that run any transactions between the calls of a cycle keep what is published.\<close>

definition sessions_between :: "externals \<Rightarrow> (nat \<Rightarrow> db \<Rightarrow> db) \<Rightarrow> bool" where
  "sessions_between X others \<longleftrightarrow> (\<forall>n d. \<exists>txs. others n d = pg_history X txs d)"

lemma sessions_peaceful: "sessions_between X others \<Longrightarrow> pgob.peaceful others"
  unfolding pgob.peaceful_def sessions_between_def by (metis history_events_inv tx_published_final)

lemma publish_log:
  "fst (publish_all LogPublisher_Publish ds log) = replicate (length ds) None"
  "snd (publish_all LogPublisher_Publish ds log) = log @ map (\<lambda>dl. snd (LogPublisher_Publish (delivery_Event dl) []) ! 0) ds"
  by (induction ds arbitrary: log) (simp_all add: LogPublisher_Publish_def)

text \<open>C28. A cycle of the worker that ends without an error has handed every event it claimed to the
  publisher, in order, and every event that the publisher took is published in the database,
  whatever other sessions did between its calls; the count it returns is the number of claimed events.\<close>

theorem worker_cycle_published:
  assumes "sessions_between X others" "events_inv d" "\<And>n. returns_rows (env n)"
    "ProcessOnce w (\<lambda>n. pg_outbox X (env n)) others now (d, p) = (Inr n, d', p')"
  shows "\<exists>ds d1. pg_ClaimRiskEvents X (env 0) (wk_batchSize w) now (others 0 d) = (Inr ds, d1) \<and> n = length ds \<and>
    p' = snd (publish_all (wk_publisher w) ds p) \<and>
    (\<forall>i < n. fst (publish_all (wk_publisher w) ds p) ! i = None \<longrightarrow> pg_status d' (delivery_id (ds ! i)) = Some ''published'')"
  using pgob.ProcessOnce_published [OF sessions_peaceful [OF assms(1)] assms(2-4)] by simp

theorem worker_cycle_published_witness:
  "\<exists>d' p'. ProcessOnce (NewWorker LogPublisher_Publish) (\<lambda>n. pg_outbox demo_X demo_claim) (\<lambda>_ d. d) 5 (demo_events, []) = (Inr 1, d', p') \<and>
     pg_status d' ''ev1'' = Some ''published''"
proof -
  let ?w = "NewWorker LogPublisher_Publish"
  obtain d1 where c: "pg_ClaimRiskEvents demo_X demo_claim 32 5 demo_events = (Inr [row_delivery (claim_row 5 demo_event)], d1)"
    using demo_claim_reply by blast
  have w: "wk_publisher ?w = LogPublisher_Publish" "wk_batchSize ?w = 32" by (simp_all add: NewWorker_def)
  obtain d' p' where o: "ProcessOnce ?w (\<lambda>n. pg_outbox demo_X demo_claim) (\<lambda>_ d. d) 5 (demo_events, []) = (Inr 1, d', p')"
    using pgob.ProcessOnce_alone [where w = ?w and now = 5 and p = "[]" and env = "\<lambda>_. demo_claim" and X = demo_X,
      OF demo_no_fault(1) demo_events_inv] c by (auto simp: w publish_log)
  have s: "sessions_between demo_X (\<lambda>_ d. d)"
    unfolding sessions_between_def by (metis pg_history.simps(1))
  from worker_cycle_published [OF s demo_events_inv demo_no_fault(2) o] c have "pg_status d' ''ev1'' = Some ''published''"
    by (auto simp: w publish_log demo_event_def)
  with o show ?thesis by blast
qed

text \<open>C29. The worker delivers: alone and without faults, a cycle of the worker with the log publisher publishes
  every event that is due when there are no more than its batch, each with a line of the log; it
  returns their number and changes the status of no other event.\<close>

theorem worker_delivers:
  assumes "events_inv d" "\<And>n. no_fault (env n)" "cl_locked (env 0) = {}"
    "length (filter (claimable (x_time X now)) (db_risk d)) \<le> 32"
  shows "\<exists>d' lines. ProcessOnce (NewWorker LogPublisher_Publish) (\<lambda>n. pg_outbox X (env n)) (\<lambda>_ d. d) now (d, log) =
      (Inr (length (filter (claimable (x_time X now)) (db_risk d))), d', log @ lines) \<and>
    (\<forall>r \<in> set (db_risk d). claimable (x_time X now) r \<longrightarrow>
       pg_status d' (rk_id r) = Some ''published'' \<and> rk_id r \<in> published_id ` set lines) \<and>
    (\<forall>k. k \<notin> rk_id ` set (filter (claimable (x_time X now)) (db_risk d)) \<longrightarrow> pg_status d' k = pg_status d k)"
proof -
  let ?w = "NewWorker LogPublisher_Publish"
  have w: "wk_publisher ?w = LogPublisher_Publish" "wk_batchSize ?w = 32" by (simp_all add: NewWorker_def)
  obtain ds d1 d' where c: "pg_ClaimRiskEvents X (env 0) 32 now d = (Inr ds, d1)"
    "ProcessOnce ?w (\<lambda>n. pg_outbox X (env n)) (\<lambda>_ d. d) now (d, log) = (Inr (length ds), d', snd (publish_all LogPublisher_Publish ds log))"
    and st: "\<forall>i < length ds. pg_status d' (delivery_id (ds ! i)) = Some (mark_status (fst (publish_all LogPublisher_Publish ds log) ! i))"
      "\<forall>k. k \<notin> delivery_id ` set ds \<longrightarrow> pg_status d' k = pg_status d k"
    using pgob.ProcessOnce_alone [where w = ?w and now = now and p = log and env = env and X = X, OF assms(2,1)] by (auto simp: w publish_log)
  have ret: "returns_rows (env 0)" using assms(2) by (simp add: no_fault_def)
  note ids = claim_delivery_ids [OF events_invD(2) [OF assms(1)] ret c(1)]
  have cs: "claims X (env 0) 32 now d = delivery_order X (filter (claimable (x_time X now)) (db_risk d))"
    using assms(3,4) by (simp add: claims_def candidates_def normaliseOutboxLimit_def delivery_order_def)
  then have n: "length ds = length (filter (claimable (x_time X now)) (db_risk d))"
    and k: "delivery_id ` set ds = rk_id ` set (filter (claimable (x_time X now)) (db_risk d))"
    using ids by (simp_all add: delivery_order_def)
  let ?lines = "map (\<lambda>dl. snd (LogPublisher_Publish (delivery_Event dl) []) ! 0) ds"
  have line: "published_id ` set ?lines = delivery_id ` set ds" by (auto simp: LogPublisher_Publish_def image_iff)
  have "pg_status d' j = Some ''published''" if "j \<in> delivery_id ` set ds" for j
    using that st(1) by (auto simp: in_set_conv_nth publish_log mark_status_def)
  then show ?thesis
    using c(2) n k st(2) line by (intro exI [of _ d'] exI [of _ ?lines]) (auto simp: publish_log)
qed

theorem worker_delivers_witness:
  "\<exists>d' lines. ProcessOnce (NewWorker LogPublisher_Publish) (\<lambda>n. pg_outbox demo_X demo_claim) (\<lambda>_ d. d) 5 (demo_events, []) = (Inr 1, d', lines) \<and>
     pg_status d' ''ev1'' = Some ''published'' \<and> ''ev1'' \<in> published_id ` set lines"
proof -
  have f: "filter (claimable (x_time demo_X 5)) (db_risk demo_events) = [demo_event]"
    by (simp add: demo_events_def demo_X_def claimable_def) (simp add: demo_event_def)
  then have e: "demo_event \<in> set (db_risk demo_events)" "claimable (x_time demo_X 5) demo_event"
    by (auto simp: demo_events_def split: if_splits)
  have l: "length (filter (claimable (x_time demo_X 5)) (db_risk demo_events)) \<le> 32" by (simp add: f)
  have "cl_locked demo_claim = {}" by (simp add: demo_claim_def)
  from worker_delivers [OF demo_events_inv demo_no_fault(1) this l, of "[]", unfolded f] obtain d' lines where
    o: "ProcessOnce (NewWorker LogPublisher_Publish) (\<lambda>n. pg_outbox demo_X demo_claim) (\<lambda>_ d. d) 5 (demo_events, []) = (Inr 1, d', lines)"
    and p: "\<forall>r \<in> set (db_risk demo_events). claimable (x_time demo_X 5) r \<longrightarrow>
       pg_status d' (rk_id r) = Some ''published'' \<and> rk_id r \<in> published_id ` set lines"
    by auto
  have "rk_id demo_event = ''ev1''" by (simp add: demo_event_def)
  with o p e show ?thesis by metis
qed

text \<open>The delay before a failed event is tried again: one second after the first attempt, doubling with each
  attempt up to 128 seconds from the eighth on; the limit of five minutes is never reached.\<close>

theorem worker_backoff_bounds:
  "deliveryBackoff n = 2 ^ nat (min 7 (max 0 (n - 1))) * second \<and> second \<le> deliveryBackoff n \<and> deliveryBackoff n \<le> 128 * second"
  using deliveryBackoff_eq deliveryBackoff_bounds by blast

section \<open>Error texts\<close>

lemma EncodeRune_nonzero: "r \<noteq> 0 \<Longrightarrow> c \<in> set (EncodeRune r) \<Longrightarrow> bv c \<noteq> 0"
  by (auto simp: EncodeRune_def Let_def bv_def RuneError_def is_scalar_def split: if_splits)

lemma DecodeRune_nonzero:
  assumes "s \<noteq> []" "bv (hd s) \<noteq> 0"
  shows "fst (DecodeRune s) \<noteq> 0"
  using assms by (cases s) (auto simp: DecodeRune_def Let_def RuneError_def byte_in_def)

lemma runes_nonzero: "(\<And>c. c \<in> set s \<Longrightarrow> bv c \<noteq> 0) \<Longrightarrow> 0 \<notin> set (runes s)"
proof (induction s rule: runes.induct)
  case (1 s)
  show ?case
  proof (cases "s = []")
    case False
    then have "fst (DecodeRune s) \<noteq> 0" using 1(2) by (intro DecodeRune_nonzero) simp_all
    moreover have "0 \<notin> set (runes (drop (snd (DecodeRune s)) s))"
      using 1(1) [OF False] 1(2) by (meson in_set_dropD)
    ultimately show ?thesis by (subst runes.simps) (simp add: False)
  qed (simp add: runes.simps)
qed

text \<open>The reason that the worker stores for a failed delivery fits its column: it has at most 500
  characters, the first ones of the error text, and PostgreSQL accepts it as text whenever the
  error text has no null byte, also when that text is not valid UTF-8.\<close>

theorem worker_error_fits:
  assumes "\<forall>c \<in> set msg. bv c \<noteq> 0"
  shows "valid_text (truncateError msg) \<and> RuneCountInString (truncateError msg) \<le> 500 \<and>
    runes (truncateError msg) = take 500 (runes msg)"
proof -
  have e: "truncateError msg = string_of_runes (take 500 (runes msg))" by (simp add: truncateError_def Let_def)
  have nz: "0 \<notin> set (take 500 (runes msg))" using runes_nonzero assms in_set_takeD by fastforce
  have "bv c \<noteq> 0" if "c \<in> set (truncateError msg)" for c
  proof -
    from that obtain x where "x \<in> set (take 500 (runes msg))" "c \<in> set (EncodeRune x)" unfolding e string_of_runes_def by auto
    with nz EncodeRune_nonzero show ?thesis by metis
  qed
  moreover have "string_of_runes (runes (truncateError msg)) = truncateError msg"
    unfolding truncateError_runes by (rule e [symmetric])
  ultimately show ?thesis using truncateError_runes truncateError_count by (simp add: valid_text_def)
qed

theorem worker_error_fits_witness:
  "valid_text (truncateError ''refused'') \<and> RuneCountInString (truncateError ''refused'') \<le> 500"
  using worker_error_fits [of "''refused''"] by (simp add: bv_def)

end
