(* ===== verification/Pg_Reconcile.thy ===== *)
theory Pg_Reconcile
  imports Pg_Scenario Pg_Sessions
begin

text \<open>
  \<^verbatim>\<open>internal/store/postgres/reconcile.go\<close> and \<^verbatim>\<open>cmd/secureledger-reconcile/main.go\<close>: the report that
  compares stored balances with the journal, and the command that prints it.

  The three queries run in one REPEATABLE READ transaction, so all of them see one database. Faults
  of the queries are those of the attempt: the count of the accounts, the count of the defects, the
  query of the differences and the reading of its rows. The clock gives the instant when the caller
  gives none.
\<close>

record balance_difference =
  bd_AccountID :: go_string
  bd_Currency :: go_string
  bd_StoredBalanceMinor :: int64
  bd_JournalBalanceMinor :: int64

record reconciliation_report =
  rr_CheckedAt :: time
  rr_AccountsChecked :: int64
  rr_UnbalancedTransactionCount :: int64
  rr_BalanceDifferences :: "balance_difference list"

definition Report_Clean :: "reconciliation_report \<Rightarrow> bool" where
  "Report_Clean r \<longleftrightarrow> rr_UnbalancedTransactionCount r = 0 \<and> rr_BalanceDifferences r = []"

section \<open>The queries\<close>

text \<open>
  \<^verbatim>\<open>count(*)\<close> is a \<^verbatim>\<open>bigint\<close>. A transaction without postings joins no row: its count and its sum are
  zero. The sum of a \<^verbatim>\<open>bigint\<close> column is a \<^verbatim>\<open>numeric\<close>, which the comparison with the balance uses; the
  cast of a sum that is reported may be out of range (22003).
\<close>

definition count_accounts :: "int64 stmt" where
  "count_accounts d = Inr (of_nat (length (db_accounts d)), d)"

definition defective :: "db \<Rightarrow> transaction_row \<Rightarrow> bool" where
  "defective d jt \<longleftrightarrow> int (length (txn_postings d (jt_id jt))) \<noteq> jt_expected_postings jt \<or> po_sum (txn_postings d (jt_id jt)) \<noteq> 0"

definition count_defects :: "int64 stmt" where
  "count_defects d = Inr (of_nat (length (filter (defective d) (db_transactions d))), d)"

definition journal_sum :: "db \<Rightarrow> account_row \<Rightarrow> int" where
  "journal_sum d a = po_sum (filter (\<lambda>p. po_account_id p = acc_id a) (db_postings d))"

definition differs :: "db \<Rightarrow> account_row \<Rightarrow> bool" where
  "differs d a \<longleftrightarrow> sint (acc_balance_minor a) \<noteq> journal_sum d a"

definition difference_of :: "db \<Rightarrow> account_row \<Rightarrow> balance_difference" where
  "difference_of d a = \<lparr>bd_AccountID = acc_id a, bd_Currency = acc_currency a, bd_StoredBalanceMinor = acc_balance_minor a,
     bd_JournalBalanceMinor = word_of_int (journal_sum d a)\<rparr>"

definition select_differences :: "externals \<Rightarrow> balance_difference list stmt" where
  "select_differences X d =
     (let rows = sort_key (\<lambda>a. x_rank X (acc_id a)) (filter (differs d) (db_accounts d)) in
      if \<exists>a \<in> set rows. \<not> fits64 (journal_sum d a) then Inl (PgError ''22003'' [])
      else Inr (map (difference_of d) rows, d))"

definition reconcile_tx :: "externals \<Rightarrow> attempt \<Rightarrow> time \<Rightarrow> time \<Rightarrow> reconciliation_report stmt" where
  "reconcile_tx X at clock checkedAt =
     bind_stmt (exec at 0 count_accounts) (\<lambda>accounts.
     bind_stmt (exec at 1 count_defects) (\<lambda>defects.
     bind_stmt (exec at 2 (select_differences X)) (\<lambda>differences.
     exec at 3 (return_stmt
       \<lparr>rr_CheckedAt = (if IsZero checkedAt then clock else checkedAt), rr_AccountsChecked = accounts,
        rr_UnbalancedTransactionCount = defects, rr_BalanceDifferences = differences\<rparr>))))"

definition pg_Reconcile :: "externals \<Rightarrow> attempt \<Rightarrow> time \<Rightarrow> time \<Rightarrow> db \<Rightarrow> (error + reconciliation_report) \<times> db" where
  "pg_Reconcile X at clock checkedAt d =
     (case at_begin at of
        Some e \<Rightarrow> (Inl e, d)
      | None \<Rightarrow> run_tx at (reconcile_tx X at clock checkedAt) d)"

section \<open>The command\<close>

text \<open>
  \<^verbatim>\<open>reconcile\<close> of the command: \<open>encode\<close> is the reply of the JSON encoder over the output, which writes
  the report or fails. The report is printed before the verdict.
\<close>

definition reconcile :: "(error + reconciliation_report) \<Rightarrow> (reconciliation_report \<Rightarrow> error option) \<Rightarrow> error option" where
  "reconcile reply encode =
     (case reply of
        Inl e \<Rightarrow> Some e
      | Inr report \<Rightarrow>
          (case encode report of
             Some e \<Rightarrow> Some e
           | None \<Rightarrow> if \<not> Report_Clean report then Some (ErrOther ''ledger reconciliation found integrity differences'') else None))"

text \<open>The exit status of the process, for a store that opens or does not.\<close>

definition reconcile_main ::
  "error option \<Rightarrow> externals \<Rightarrow> attempt \<Rightarrow> time \<Rightarrow> (reconciliation_report \<Rightarrow> error option) \<Rightarrow> db \<Rightarrow> int" where
  "reconcile_main opened X at clock encode d =
     (case opened of
        Some e \<Rightarrow> 1
      | None \<Rightarrow> if reconcile (fst (pg_Reconcile X at clock clock d)) encode = None then 0 else 1)"

section \<open>What a report says\<close>

lemma select_differences_nil:
  "select_differences X d = Inr ([], d) \<longleftrightarrow> (\<forall>a \<in> set (db_accounts d). \<not> differs d a)"
proof -
  have "sort_key (\<lambda>a. x_rank X (acc_id a)) (filter (differs d) (db_accounts d)) = [] \<longleftrightarrow> (\<forall>a \<in> set (db_accounts d). \<not> differs d a)"
    by (metis filter_empty_conv length_0_conv length_sort)
  then show ?thesis by (auto simp: select_differences_def Let_def)
qed



text \<open>A ledger that balances: what the report is to find out.\<close>

definition ledger_balanced :: "db \<Rightarrow> bool" where
  "ledger_balanced d \<longleftrightarrow> (\<forall>jt \<in> set (db_transactions d). \<not> defective d jt) \<and> (\<forall>a \<in> set (db_accounts d). \<not> differs d a)"

lemma pg_inv_balanced: "pg_inv d \<Longrightarrow> ledger_balanced d"
  by (auto simp: ledger_balanced_def pg_inv_def pg_transactions_ok_def pg_balances_ok_def defective_def differs_def journal_sum_def
      txn_postings_def txn_rows_def account_postings_def)


section \<open>Properties\<close>



definition demo_reader :: attempt where
  "demo_reader = ce_attempt (calm demo_sq None) 0"


text \<open>C31. Reconciliation of a ledger that only the program has written succeeds: after any history of
  transactions of any sessions, with any faults, a reconciliation that meets no fault returns a clean
  report, and the command ends with status 0 when it can print it.\<close>

theorem reconcile_history_clean:
  assumes "at_begin at = None" "\<And>k. at_fault at k = None" "at_commit at = CommitOK" "\<And>rep. encode rep = None"
  shows "(\<exists>rep. pg_Reconcile X at clock checkedAt (pg_history X txs db_init) = (Inr rep, pg_history X txs db_init) \<and> Report_Clean rep) \<and>
    reconcile_main None X at clock encode (pg_history X txs db_init) = 0"
proof -
  let ?d = "pg_history X txs db_init"
  have bal: "ledger_balanced ?d" by (rule pg_inv_balanced [OF pg_history_inv [OF pg_inv_init]])
  then have sel: "select_differences X ?d = Inr ([], ?d)" by (simp add: select_differences_nil ledger_balanced_def)
  have none: "filter (defective ?d) (db_transactions ?d) = []" using bal by (simp add: ledger_balanced_def filter_empty_conv)
  have tr: "deferred_triggers ?d ?d = None" by (simp add: deferred_triggers_def)
  have "\<exists>rep. pg_Reconcile X at clock c ?d = (Inr rep, ?d) \<and> Report_Clean rep" for c
    using assms(1-3) tr none
    by (simp add: pg_Reconcile_def run_tx_def reconcile_tx_def bind_stmt_def exec_def return_stmt_def count_accounts_def
        count_defects_def sel Report_Clean_def)
  note ok = this
  obtain rep where "pg_Reconcile X at clock clock ?d = (Inr rep, ?d)" "Report_Clean rep" using ok [of clock] by blast
  then have "reconcile_main None X at clock encode ?d = 0" using assms(4) by (simp add: reconcile_main_def reconcile_def)
  with ok [of checkedAt] show ?thesis by blast
qed

theorem reconcile_history_clean_witness:
  "reconcile_main None demo_X demo_reader 9 (\<lambda>_. None)
     (pg_history demo_X [TxAccount (demo_account ''a'' ''alice'' 1000) demo_reader] db_init) = 0"
proof -
  have "at_begin demo_reader = None" "\<And>k. at_fault demo_reader k = None" "at_commit demo_reader = CommitOK"
    by (simp_all add: demo_reader_def)
  from reconcile_history_clean [where encode = "\<lambda>_. None", OF this refl] show ?thesis by blast
qed

end
