(* ===== verification/Go_Net.thy ===== *)
theory Go_Net
  imports Go_Encoding
begin

text \<open>
  What the HTTP layer uses of Go's standard library on its way in: \<^verbatim>\<open>strconv.ParseInt\<close>, the escapes of
  \<^verbatim>\<open>net/url\<close>, \<^verbatim>\<open>url.Values\<close> of a query, the clean paths of \<^verbatim>\<open>http.ServeMux\<close>, \<^verbatim>\<open>mime.ParseMediaType\<close>, and
  the decoder of \<^verbatim>\<open>encoding/json\<close>.

  The decoder is the scanner of that package: a state machine that takes one byte at a time, with a
  stack of the arrays and objects that are open. So it stops at the byte where the scanner stops,
  and it knows the difference between an input that is wrong and one that is not finished.
\<close>

section \<open>Numbers\<close>

definition is_digit :: "char \<Rightarrow> bool" where
  "is_digit c \<longleftrightarrow> 48 \<le> bv c \<and> bv c \<le> 57"

definition digits_value :: "go_string \<Rightarrow> nat" where
  "digits_value s = foldl (\<lambda>n c. n * 10 + (bv c - 48)) 0 s"

definition parse_digits :: "go_string \<Rightarrow> nat option" where
  "parse_digits s = (if s \<noteq> [] \<and> list_all is_digit s then Some (digits_value s) else None)"

text \<open>\<^verbatim>\<open>strconv.ParseInt(s, 10, 64)\<close>, and \<^verbatim>\<open>strconv.Atoi\<close> on a 64-bit machine.\<close>

definition ParseInt64 :: "go_string \<Rightarrow> int option" where
  "ParseInt64 s =
     (case s of
        [] \<Rightarrow> None
      | c # r \<Rightarrow>
          (let neg = (c = CHR ''-''); ds = (if c = CHR ''-'' \<or> c = CHR ''+'' then r else s) in
           case parse_digits ds of
             None \<Rightarrow> None
           | Some n \<Rightarrow> let i = (if neg then - int n else int n) in if fits64 i then Some i else None))"

section \<open>Cutting and lower case\<close>

text \<open>\<^verbatim>\<open>strings.Cut\<close> at the first occurrence of a byte, and \<^verbatim>\<open>strings.Split\<close>.\<close>

definition Cut :: "char \<Rightarrow> go_string \<Rightarrow> go_string \<times> go_string" where
  "Cut sep s = (takeWhile (\<lambda>c. c \<noteq> sep) s, drop 1 (dropWhile (\<lambda>c. c \<noteq> sep) s))"

fun split_on :: "char \<Rightarrow> go_string \<Rightarrow> go_string list" where
  "split_on sep [] = [[]]"
| "split_on sep (c # s) =
     (if c = sep then [] # split_on sep s
      else (case split_on sep s of [] \<Rightarrow> [[c]] | x # xs \<Rightarrow> (c # x) # xs))"

text \<open>
  \<^verbatim>\<open>strings.ToLower\<close>. The only code points beyond ASCII whose lower case is ASCII are the dotted
  capital I and the Kelvin sign; the other ones are left alone, which is enough to compare the result
  with ASCII text.
\<close>

definition lower_rune :: "nat \<Rightarrow> nat" where
  "lower_rune r = (if 65 \<le> r \<and> r \<le> 90 then r + 32 else if r = 0x130 then 0x69 else if r = 0x212A then 0x6B else r)"

definition ToLower :: "go_string \<Rightarrow> go_string" where
  "ToLower s = string_of_runes (map lower_rune (runes s))"

section \<open>URLs\<close>

definition unhex :: "char \<Rightarrow> nat option" where
  "unhex c =
     (if is_digit c then Some (bv c - 48)
      else if 97 \<le> bv c \<and> bv c \<le> 102 then Some (bv c - 87)
      else if 65 \<le> bv c \<and> bv c \<le> 70 then Some (bv c - 55) else None)"

text \<open>\<^verbatim>\<open>url.QueryUnescape\<close> (with \<open>form\<close>) and \<^verbatim>\<open>url.PathUnescape\<close>.\<close>

fun unescape :: "bool \<Rightarrow> go_string \<Rightarrow> go_string option" where
  "unescape form [] = Some []"
| "unescape form (c # s) =
     (if c = CHR ''%'' then
        (case s of
           a # b # r \<Rightarrow>
             (case (unhex a, unhex b) of
                (Some x, Some y) \<Rightarrow> map_option (\<lambda>t. char_of (x * 16 + y) # t) (unescape form r)
              | _ \<Rightarrow> None)
         | _ \<Rightarrow> None)
      else map_option (\<lambda>t. (if form \<and> c = CHR ''+'' then CHR '' '' else c) # t) (unescape form s))"

text \<open>\<^verbatim>\<open>Query().Get(name)\<close>: the first value of the name, or the empty string; pairs that are malformed are
  skipped.\<close>

definition query_pair :: "go_string \<Rightarrow> (go_string \<times> go_string) option" where
  "query_pair part =
     (if CHR '';'' \<in> set part \<or> part = [] then None
      else (case (unescape True (fst (Cut (CHR ''='') part)), unescape True (snd (Cut (CHR ''='') part))) of
        (Some k, Some v) \<Rightarrow> Some (k, v) | _ \<Rightarrow> None))"

definition Query_Get :: "go_string \<Rightarrow> go_string \<Rightarrow> go_string" where
  "Query_Get rawQuery name =
     (case map_of (List.map_filter query_pair (split_on (CHR ''&'') rawQuery)) name of None \<Rightarrow> [] | Some v \<Rightarrow> v)"

text \<open>\<^verbatim>\<open>cleanPath\<close>: the path with single slashes, without \<^verbatim>\<open>.\<close> and \<^verbatim>\<open>..\<close> elements; a trailing slash stays.\<close>

fun clean_segments :: "go_string list \<Rightarrow> go_string list \<Rightarrow> go_string list" where
  "clean_segments acc [] = rev acc"
| "clean_segments acc (s # ss) =
     (if s = [] \<or> s = ''.'' then clean_segments acc ss
      else if s = ''..'' then clean_segments (drop 1 acc) ss
      else clean_segments (s # acc) ss)"

definition cleanPath :: "go_string \<Rightarrow> go_string" where
  "cleanPath p0 =
     (if p0 = [] then ''/'' else
      let p = (if hd p0 = CHR ''/'' then p0 else CHR ''/'' # p0); segs = clean_segments [] (split_on (CHR ''/'') p);
          np = (if segs = [] then ''/'' else concat (map (\<lambda>s. CHR ''/'' # s) segs)) in
      if last p = CHR ''/'' \<and> np \<noteq> ''/'' then np @ ''/'' else np)"

text \<open>
  \<^verbatim>\<open>firstSegment\<close> of the routing tree: the first element, unescaped when it can be, and the rest. A
  path that is a lone slash has the segment \<^verbatim>\<open>/\<close>.
\<close>

definition pathUnescape :: "go_string \<Rightarrow> go_string" where
  "pathUnescape s = (case unescape False s of None \<Rightarrow> s | Some t \<Rightarrow> t)"

definition firstSegment :: "go_string \<Rightarrow> go_string \<times> go_string" where
  "firstSegment path =
     (if path = ''/'' then (''/'', [])
      else let p = drop 1 path in (pathUnescape (takeWhile (\<lambda>c. c \<noteq> CHR ''/'') p), dropWhile (\<lambda>c. c \<noteq> CHR ''/'') p))"

lemma firstSegment_shorter: "path \<noteq> [] \<Longrightarrow> length (snd (firstSegment path)) < length path"
  using length_dropWhile_le [of "\<lambda>c. c \<noteq> CHR ''/''" "drop 1 path"]
  by (cases path) (auto simp: firstSegment_def Let_def)

function path_segments :: "go_string \<Rightarrow> go_string list" where
  "path_segments path =
     (if path = [] then [] else fst (firstSegment path) # path_segments (snd (firstSegment path)))"
  by pat_completeness auto
termination
  by (relation "measure length") (auto dest: firstSegment_shorter)

declare path_segments.simps [simp del]

section \<open>Media types\<close>

definition isTSpecial :: "char \<Rightarrow> bool" where
  "isTSpecial c \<longleftrightarrow> c \<in> set ''()<>@,;:/[]?='' \<or> bv c = 92 \<or> bv c = 34"

definition isTokenChar :: "char \<Rightarrow> bool" where
  "isTokenChar c \<longleftrightarrow> 32 < bv c \<and> bv c < 127 \<and> \<not> isTSpecial c"

definition consumeToken :: "go_string \<Rightarrow> go_string \<times> go_string" where
  "consumeToken s = (takeWhile isTokenChar s, dropWhile isTokenChar s)"

text \<open>\<^verbatim>\<open>checkMediaTypeDisposition\<close>: a token, or two tokens with a slash between them.\<close>

definition media_type_ok :: "go_string \<Rightarrow> bool" where
  "media_type_ok s =
     (let (typ, rest) = consumeToken s in
      if typ = [] then False else if rest = [] then True
      else if hd rest \<noteq> CHR ''/'' then False
      else let (sub, rest2) = consumeToken (tl rest) in sub \<noteq> [] \<and> rest2 = [])"

text \<open>The inside of a quoted string, up to the closing quote.\<close>

fun quoted_value :: "go_string \<Rightarrow> go_string \<Rightarrow> (go_string \<times> go_string) option" where
  "quoted_value acc [] = None"
| "quoted_value acc (c # s) =
     (if bv c = 34 then Some (rev acc, s)
      else if bv c = 92 \<and> s \<noteq> [] \<and> isTSpecial (hd s) then (case s of x # r \<Rightarrow> quoted_value (x # acc) r | [] \<Rightarrow> None)
      else if bv c = 13 \<or> bv c = 10 then None
      else quoted_value (c # acc) s)"

definition consumeValue :: "go_string \<Rightarrow> go_string \<times> go_string" where
  "consumeValue v =
     (if v = [] then ([], [])
      else if bv (hd v) \<noteq> 34 then consumeToken v
      else (case quoted_value [] (tl v) of None \<Rightarrow> ([], v) | Some r \<Rightarrow> r))"

definition consumeMediaParam :: "go_string \<Rightarrow> (go_string \<times> go_string \<times> go_string) option" where
  "consumeMediaParam v =
     (let r0 = TrimLeftSpace v in
      if r0 = [] \<or> hd r0 \<noteq> CHR '';'' then None else
      let (param, r1) = consumeToken (TrimLeftSpace (tl r0)); r2 = TrimLeftSpace r1 in
      if param = [] \<or> r2 = [] \<or> hd r2 \<noteq> CHR ''='' then None else
      let r3 = TrimLeftSpace (tl r2); (val, r4) = consumeValue r3 in
      if val = [] \<and> r4 = r3 then None else Some (ToLower param, val, r4))"

lemma quoted_value_shorter: "quoted_value acc s = Some (v, r) \<Longrightarrow> length r < length s"
proof (induction acc s rule: quoted_value.induct)
  case (2 acc c s)
  then show ?case by (cases s) (force split: if_splits)+
qed simp

lemma consumeToken_length: "length (snd (consumeToken s)) \<le> length s"
  by (simp add: consumeToken_def length_dropWhile_le)

lemma consumeValue_length: "length (snd (consumeValue v)) \<le> length v"
proof (cases "v = [] \<or> bv (hd v) \<noteq> 34")
  case True
  then show ?thesis using consumeToken_length [of v] by (auto simp: consumeValue_def)
next
  case False
  then show ?thesis using quoted_value_shorter [of "[]" "tl v"] by (auto simp: consumeValue_def dest: order_less_imp_le split: option.split)
qed

lemma TrimLeftSpace_length: "length (TrimLeftSpace s) \<le> length s"
  by (rule suffix_length_le [OF TrimLeftSpace_suffix])

lemma consumeMediaParam_shorter:
  assumes "consumeMediaParam v = Some (k, val, r)"
  shows "length r < length v"
proof -
  define r0 where "r0 = TrimLeftSpace v"
  define r2 where "r2 = TrimLeftSpace (snd (consumeToken (TrimLeftSpace (tl r0))))"
  define r3 where "r3 = TrimLeftSpace (tl r2)"
  have ne: "r0 \<noteq> []" and r: "r = snd (consumeValue r3)"
    using assms by (auto simp: consumeMediaParam_def Let_def r0_def r2_def r3_def split: prod.splits if_splits)
  have "length r \<le> length r3" unfolding r by (rule consumeValue_length)
  also have "\<dots> \<le> length r2" using TrimLeftSpace_length [of "tl r2"] by (simp add: r3_def)
  also have "\<dots> \<le> length (tl r0)" unfolding r2_def
    by (meson TrimLeftSpace_length consumeToken_length order_trans)
  also have "\<dots> < length r0" using ne by simp
  also have "\<dots> \<le> length v" unfolding r0_def by (rule TrimLeftSpace_length)
  finally show ?thesis .
qed

text \<open>
  The loop over the parameters: it fails at a malformed parameter, unless only a semicolon is left,
  and at a parameter that comes again with another value.
\<close>

function params_ok :: "(go_string \<times> go_string) list \<Rightarrow> go_string \<Rightarrow> bool" where
  "params_ok seen v =
     (let v' = TrimLeftSpace v in
      if v' = [] then True
      else (case consumeMediaParam v' of
        None \<Rightarrow> TrimSpace v' = '';''
      | Some (k, val, r) \<Rightarrow>
          (case map_of seen k of
             Some x \<Rightarrow> x = val \<and> params_ok seen r
           | None \<Rightarrow> params_ok ((k, val) # seen) r)))"
  by pat_completeness auto
termination
  by (relation "measure (length \<circ> snd)")
    (auto dest!: consumeMediaParam_shorter intro: less_le_trans [OF _ TrimLeftSpace_length])

declare params_ok.simps [simp del]

definition ParseMediaType :: "go_string \<Rightarrow> go_string option" where
  "ParseMediaType v =
     (let base = takeWhile (\<lambda>c. c \<noteq> CHR '';'') v; mediatype = TrimSpace (ToLower base) in
      if media_type_ok mediatype \<and> params_ok [] (drop (length base) v) then Some mediatype else None)"

section \<open>The JSON scanner\<close>

datatype json =
    JNull
  | JBool bool
  | JNumber go_string
  | JString go_string
  | JArray "json list"
  | JObject "(go_string \<times> json) list"

text \<open>The open arrays and objects: an object waits for a key or, after a key, for its value.\<close>

datatype frame = FArray "json list" | FKey "(go_string \<times> json) list" | FValue "(go_string \<times> json) list" go_string

datatype num_state = NumNeg | NumZero | NumInt | NumDot | NumFrac | NumE | NumSign | NumExp

text \<open>Where the scanner is; the bytes of a string or a number so far are in reverse.\<close>

datatype lex =
    BeginValue | BeginValueOrEmpty | BeginStringOrEmpty | BeginString | Colon | AfterValue
  | InString go_string | InEscape go_string | InHex nat go_string
  | InNumber num_state go_string
  | InLiteral go_string json
  | TopValue json

text \<open>One byte leads to a next state, or it completes the value, or it shows that the value before it is
  complete, or it is wrong.\<close>

datatype scan_step = Next "frame list" lex | Consumed json | Ended json | Invalid

definition json_space :: "char \<Rightarrow> bool" where
  "json_space c \<longleftrightarrow> bv c \<in> {32, 9, 13, 10}"

definition max_depth :: nat where
  "max_depth = 10000"

text \<open>The string between the quotes, with its escapes undone and made valid UTF-8.\<close>

definition hex4 :: "go_string \<Rightarrow> nat option" where
  "hex4 s =
     (case s of
        c # u # a # b # x # y # _ \<Rightarrow>
          (if bv c = 92 \<and> u = CHR ''u'' then
             (case (unhex a, unhex b, unhex x, unhex y) of
                (Some i, Some j, Some k, Some l) \<Rightarrow> Some (i * 4096 + j * 256 + k * 16 + l) | _ \<Rightarrow> None)
           else None)
      | _ \<Rightarrow> None)"

definition surrogate_pair :: "nat \<Rightarrow> nat option \<Rightarrow> nat option" where
  "surrogate_pair r1 r2 =
     (case r2 of
        Some r \<Rightarrow> if 0xD800 \<le> r1 \<and> r1 < 0xDC00 \<and> 0xDC00 \<le> r \<and> r < 0xE000
          then Some ((r1 - 0xD800) * 1024 + (r - 0xDC00) + 0x10000) else None
      | None \<Rightarrow> None)"

definition simple_escape :: "char \<Rightarrow> char" where
  "simple_escape c =
     (if c = CHR ''b'' then char_of (8 :: nat) else if c = CHR ''f'' then char_of (12 :: nat)
      else if c = CHR ''n'' then char_of (10 :: nat) else if c = CHR ''r'' then char_of (13 :: nat)
      else if c = CHR ''t'' then char_of (9 :: nat) else c)"

function unquote :: "go_string \<Rightarrow> go_string" where
  "unquote s =
     (case s of
        [] \<Rightarrow> []
      | c # r \<Rightarrow>
          if bv c = 92 then
            (case hex4 s of
               Some rr \<Rightarrow>
                 if 0xD800 \<le> rr \<and> rr < 0xE000 then
                   (case surrogate_pair rr (hex4 (drop 6 s)) of
                      Some d \<Rightarrow> EncodeRune d @ unquote (drop 12 s)
                    | None \<Rightarrow> EncodeRune RuneError @ unquote (drop 6 s))
                 else EncodeRune rr @ unquote (drop 6 s)
             | None \<Rightarrow> (case r of [] \<Rightarrow> [] | x # r' \<Rightarrow> simple_escape x # unquote r'))
          else if bv c < 0x80 then c # unquote r
          else EncodeRune (fst (DecodeRune s)) @ unquote (drop (snd (DecodeRune s)) s))"
  by pat_completeness auto
termination
proof (relation "measure length")
  show "(drop (snd (DecodeRune s)) s, s) \<in> measure length" if "s = c # r" for s c r
    using DecodeRune_width [of s] that by simp
qed auto

declare unquote.simps [simp del]

text \<open>A value is complete: it goes into the innermost open array or object.\<close>

definition value_done :: "json \<Rightarrow> frame list \<Rightarrow> scan_step" where
  "value_done v st =
     (case st of
        FArray vs # r \<Rightarrow> Next (FArray (vs @ [v]) # r) AfterValue
      | FValue ms k # r \<Rightarrow> Next (FKey (ms @ [(k, v)]) # r) AfterValue
      | _ \<Rightarrow> Next st (TopValue v))"

definition string_done :: "go_string \<Rightarrow> frame list \<Rightarrow> scan_step" where
  "string_done raw st =
     (case st of
        FKey ms # r \<Rightarrow> Next (FValue ms (unquote raw) # r) Colon
      | _ \<Rightarrow> value_done (JString (unquote raw)) st)"

definition close :: "json \<Rightarrow> frame list \<Rightarrow> scan_step" where
  "close v st = (if st = [] then Consumed v else value_done v st)"

definition push :: "frame \<Rightarrow> lex \<Rightarrow> frame list \<Rightarrow> scan_step" where
  "push f l st = (if length st < max_depth then Next (f # st) l else Invalid)"

definition begin_value :: "frame list \<Rightarrow> char \<Rightarrow> scan_step" where
  "begin_value st c =
     (if c = CHR ''{'' then push (FKey []) BeginStringOrEmpty st
      else if c = CHR ''['' then push (FArray []) BeginValueOrEmpty st
      else if bv c = 34 then Next st (InString [])
      else if c = CHR ''-'' then Next st (InNumber NumNeg [c])
      else if c = CHR ''0'' then Next st (InNumber NumZero [c])
      else if is_digit c then Next st (InNumber NumInt [c])
      else if c = CHR ''t'' then Next st (InLiteral ''rue'' (JBool True))
      else if c = CHR ''f'' then Next st (InLiteral ''alse'' (JBool False))
      else if c = CHR ''n'' then Next st (InLiteral ''ull'' JNull)
      else Invalid)"

definition after_value :: "frame list \<Rightarrow> char \<Rightarrow> scan_step" where
  "after_value st c =
     (if json_space c then Next st AfterValue
      else (case st of
        FArray vs # r \<Rightarrow> if c = CHR '','' then Next st BeginValue else if c = CHR '']'' then close (JArray vs) r else Invalid
      | FKey ms # r \<Rightarrow> if c = CHR '','' then Next st BeginString else if c = CHR ''}'' then close (JObject ms) r else Invalid
      | _ \<Rightarrow> Invalid))"

text \<open>A number goes on with a byte, or it is complete before it, or the byte is wrong.\<close>

datatype num_step = NumNext num_state | NumDone | NumBad

definition number_step :: "num_state \<Rightarrow> char \<Rightarrow> num_step" where
  "number_step n c =
     (let dot = c = CHR ''.''; ex = c = CHR ''e'' \<or> c = CHR ''E''; sign = c = CHR ''+'' \<or> c = CHR ''-'' in
      case n of
        NumNeg \<Rightarrow> if c = CHR ''0'' then NumNext NumZero else if is_digit c then NumNext NumInt else NumBad
      | NumZero \<Rightarrow> if dot then NumNext NumDot else if ex then NumNext NumE else NumDone
      | NumInt \<Rightarrow> if is_digit c then NumNext NumInt else if dot then NumNext NumDot else if ex then NumNext NumE else NumDone
      | NumDot \<Rightarrow> if is_digit c then NumNext NumFrac else NumBad
      | NumFrac \<Rightarrow> if is_digit c then NumNext NumFrac else if ex then NumNext NumE else NumDone
      | NumE \<Rightarrow> if sign then NumNext NumSign else if is_digit c then NumNext NumExp else NumBad
      | NumSign \<Rightarrow> if is_digit c then NumNext NumExp else NumBad
      | NumExp \<Rightarrow> if is_digit c then NumNext NumExp else NumDone)"

definition number_end :: "frame list \<Rightarrow> go_string \<Rightarrow> char \<Rightarrow> scan_step" where
  "number_end st lit c =
     (case value_done (JNumber lit) st of
        Next st' AfterValue \<Rightarrow> after_value st' c
      | _ \<Rightarrow> Ended (JNumber lit))"

definition scan_byte :: "frame list \<Rightarrow> lex \<Rightarrow> char \<Rightarrow> scan_step" where
  "scan_byte st l c =
     (case l of
        BeginValue \<Rightarrow> if json_space c then Next st l else begin_value st c
      | BeginValueOrEmpty \<Rightarrow> if json_space c then Next st l else if c = CHR '']'' then close (JArray []) (tl st) else begin_value st c
      | BeginStringOrEmpty \<Rightarrow>
          if json_space c then Next st l else if c = CHR ''}'' then close (JObject []) (tl st)
          else if bv c = 34 then Next st (InString []) else Invalid
      | BeginString \<Rightarrow> if json_space c then Next st l else if bv c = 34 then Next st (InString []) else Invalid
      | Colon \<Rightarrow> if json_space c then Next st l else if c = CHR '':'' then Next st BeginValue else Invalid
      | AfterValue \<Rightarrow> after_value st c
      | InString acc \<Rightarrow>
          if bv c = 34 then string_done (rev acc) st
          else if bv c = 92 then Next st (InEscape (c # acc))
          else if bv c < 0x20 then Invalid else Next st (InString (c # acc))
      | InEscape acc \<Rightarrow>
          if c \<in> set ''bfnrt/'' \<or> bv c = 92 \<or> bv c = 34 then Next st (InString (c # acc))
          else if c = CHR ''u'' then Next st (InHex 4 (c # acc)) else Invalid
      | InHex n acc \<Rightarrow>
          if unhex c = None then Invalid
          else Next st (if n = 1 then InString (c # acc) else InHex (n - 1) (c # acc))
      | InNumber n acc \<Rightarrow>
          (case number_step n c of
             NumNext n' \<Rightarrow> Next st (InNumber n' (c # acc)) | NumDone \<Rightarrow> number_end st (rev acc) c | NumBad \<Rightarrow> Invalid)
      | InLiteral rest v \<Rightarrow>
          (case rest of
             x # r \<Rightarrow> if c = x then (if r = [] then value_done v st else Next st (InLiteral r v)) else Invalid
           | [] \<Rightarrow> Invalid)
      | TopValue v \<Rightarrow> Ended v)"

text \<open>
  The scan of a buffer: a value with the bytes after it, a value that only the end of the input
  completes, an input that is not finished, or a wrong one.
\<close>

datatype scanned = Value json go_string | AtEnd json | More | Malformed

definition at_end :: "frame list \<Rightarrow> lex \<Rightarrow> json option" where
  "at_end st l =
     (if st \<noteq> [] then None
      else (case l of
        TopValue v \<Rightarrow> Some v
      | InNumber n acc \<Rightarrow> if n \<in> {NumZero, NumInt, NumFrac, NumExp} then Some (JNumber (rev acc)) else None
      | _ \<Rightarrow> None))"

fun scan :: "frame list \<Rightarrow> lex \<Rightarrow> go_string \<Rightarrow> scanned" where
  "scan st l [] = (case at_end st l of Some v \<Rightarrow> AtEnd v | None \<Rightarrow> More)"
| "scan st l (c # s) =
     (case scan_byte st l c of
        Next st' l' \<Rightarrow> scan st' l' s
      | Consumed v \<Rightarrow> Value v s
      | Ended v \<Rightarrow> Value v (c # s)
      | Invalid \<Rightarrow> Malformed)"

section \<open>Decoding into a struct\<close>

text \<open>The name of a field matches a key up to case; the long s and the Kelvin sign fold to ASCII letters.\<close>

definition fold_rune :: "nat \<Rightarrow> nat" where
  "fold_rune r = (if 97 \<le> r \<and> r \<le> 122 then r - 32 else if r = 0x17F then 83 else if r = 0x212A then 75 else r)"

definition fold_name :: "go_string \<Rightarrow> nat list" where
  "fold_name s = map fold_rune (runes s)"

definition decode_string :: "json \<Rightarrow> go_string \<Rightarrow> go_string option" where
  "decode_string v old = (case v of JNull \<Rightarrow> Some old | JString s \<Rightarrow> Some s | _ \<Rightarrow> None)"

definition decode_int64 :: "json \<Rightarrow> int64 \<Rightarrow> int64 option" where
  "decode_int64 v old =
     (case v of JNull \<Rightarrow> Some old | JNumber lit \<Rightarrow> map_option word_of_int (ParseInt64 lit) | _ \<Rightarrow> None)"

text \<open>The members of an object, in order, into a struct by the setter of a key; an unknown key fails.\<close>

fun decode_members :: "(go_string \<Rightarrow> json \<Rightarrow> 'c \<Rightarrow> 'c option) \<Rightarrow> (go_string \<times> json) list \<Rightarrow> 'c \<Rightarrow> 'c option" where
  "decode_members set_field [] cmd = Some cmd"
| "decode_members set_field ((k, v) # ms) cmd =
     (case set_field k v cmd of None \<Rightarrow> None | Some cmd' \<Rightarrow> decode_members set_field ms cmd')"

definition decode_struct :: "(go_string \<Rightarrow> json \<Rightarrow> 'c \<Rightarrow> 'c option) \<Rightarrow> json \<Rightarrow> 'c \<Rightarrow> 'c option" where
  "decode_struct set_field v cmd =
     (case v of JNull \<Rightarrow> Some cmd | JObject ms \<Rightarrow> decode_members set_field ms cmd | _ \<Rightarrow> None)"

end
