(* ===== verification/Http_Api.thy ===== *)
theory Http_Api
  imports Service Go_Net
begin

text \<open>
  \<^verbatim>\<open>internal/httpapi/server.go\<close>: the HTTP interface of the service.

  A request is what the handlers read of it: the method, the escaped path, the raw query, the first
  value of a header, and the bytes of the body, which end with \<^verbatim>\<open>io.EOF\<close> or with an error of the
  connection. A response is the writer that the middleware wraps around that of the server: the
  status (zero before it is written), the headers, those that were sent with the status, and what was
  written. A body is the value that is handed to the JSON encoder. Handlers run on the world of the
  service and may panic; the middleware adds to the log. The request line \<^verbatim>\<open>*\<close>, which the multiplexer
  answers with 400 before it looks at any path, is left out, and so is the \<^verbatim>\<open>Location\<close> of a redirect.
\<close>

record http_request =
  hr_Method :: go_string
  hr_EscapedPath :: go_string
  hr_RawQuery :: go_string
  hr_Header :: "go_string \<Rightarrow> go_string"
  hr_Body :: go_string
  hr_BodyEOF :: bool

text \<open>An error body has a code and a message, \<open>None\<close> for the text of the error itself. The last two are
  the plain texts and redirects of the multiplexer.\<close>

datatype http_body =
    BodyStatus go_string
  | BodyError go_string "go_string option"
  | BodyAccount account
  | BodyTransfer transfer_result
  | BodyPostings "posting list"
  | BodyAudit "audit_record list"
  | BodyRiskEvents "risk_event list"
  | BodyText go_string
  | BodyRedirect

type_synonym header = "go_string \<rightharpoonup> go_string"

record responseWriter =
  rw_status :: nat
  rw_Header :: header
  rw_sent :: header
  rw_body :: "http_body list"

definition rw_WriteHeader :: "nat \<Rightarrow> responseWriter \<Rightarrow> responseWriter" where
  "rw_WriteHeader status w = (if rw_status w \<noteq> 0 then w else w\<lparr>rw_status := status, rw_sent := rw_Header w\<rparr>)"

definition rw_Write :: "http_body \<Rightarrow> responseWriter \<Rightarrow> responseWriter" where
  "rw_Write b w0 =
     (let w = (if rw_status w0 = 0 then rw_WriteHeader 200 w0 else w0) in w\<lparr>rw_body := rw_body w @ [b]\<rparr>)"

definition set_header :: "go_string \<Rightarrow> go_string \<Rightarrow> responseWriter \<Rightarrow> responseWriter" where
  "set_header k v w = w\<lparr>rw_Header := (rw_Header w)(k \<mapsto> v)\<rparr>"

definition writeJSON :: "nat \<Rightarrow> http_body \<Rightarrow> responseWriter \<Rightarrow> responseWriter" where
  "writeJSON status b w = rw_Write b (rw_WriteHeader status (set_header ''Content-Type'' ''application/json'' w))"

definition writeError :: "nat \<Rightarrow> go_string \<Rightarrow> go_string option \<Rightarrow> responseWriter \<Rightarrow> responseWriter" where
  "writeError status code message = writeJSON status (BodyError code message)"

definition error_status :: "error \<Rightarrow> nat \<times> go_string \<times> go_string option" where
  "error_status e =
     (case e of
        ErrInvalidInput \<Rightarrow> (400, ''invalid_request'', None)
      | ErrForbidden \<Rightarrow> (403, ''forbidden'', Some ''request is not authorised'')
      | ErrNotFound \<Rightarrow> (404, ''not_found'', Some ''resource not found'')
      | ErrInsufficientFunds \<Rightarrow> (409, ''insufficient_funds'', Some ''insufficient funds'')
      | ErrCurrencyMismatch \<Rightarrow> (409, ''currency_mismatch'', Some ''account currencies differ'')
      | ErrIdempotencyConflict \<Rightarrow> (409, ''idempotency_conflict'', Some ''idempotency key was used for a different request'')
      | ErrTransferLimit \<Rightarrow> (422, ''transfer_limit'', Some ''transfer exceeds configured limit'')
      | ErrRequestTooLarge \<Rightarrow> (413, ''request_too_large'', Some ''request body exceeds 1 MiB'')
      | ErrUnsupportedMedia \<Rightarrow> (415, ''unsupported_media_type'', Some ''Content-Type must be application/json'')
      | _ \<Rightarrow> (500, ''internal_error'', Some ''internal server error''))"

definition writeDomainError :: "error \<Rightarrow> responseWriter \<Rightarrow> responseWriter" where
  "writeDomainError e = (case error_status e of (status, code, message) \<Rightarrow> writeError status code message)"

section \<open>Reading a request\<close>

definition principalFromRequest :: "http_request \<Rightarrow> error + principal" where
  "principalFromRequest r =
     (let p = \<lparr>principal_ID = TrimSpace (hr_Header r ''X-Principal-ID''), principal_Role = TrimSpace (hr_Header r ''X-Principal-Role'')\<rparr> in
      if \<not> Principal_Valid p then Inl ErrForbidden else Inr p)"

definition maxBodyBytes :: nat where
  "maxBodyBytes = 1048576"

text \<open>
  The first \<^verbatim>\<open>Decode\<close>: the decoder sees the bytes up to the limit. When it needs more it meets the end
  of the body, an error of the connection, or the limit.
\<close>

definition first_value :: "http_request \<Rightarrow> error + (json \<times> go_string)" where
  "first_value r =
     (let over = maxBodyBytes < length (hr_Body r) in
      case scan [] BeginValue (take maxBodyBytes (hr_Body r)) of
        Value v rest \<Rightarrow> Inr (v, rest)
      | AtEnd v \<Rightarrow> if over then Inl ErrRequestTooLarge else if hr_BodyEOF r then Inr (v, []) else Inl ErrInvalidInput
      | More \<Rightarrow> if over then Inl ErrRequestTooLarge else Inl ErrInvalidInput
      | Malformed \<Rightarrow> Inl ErrInvalidInput)"

text \<open>The second \<^verbatim>\<open>Decode\<close> meets the end of the body when only white space is left and nothing was cut off.\<close>

definition nothing_left :: "http_request \<Rightarrow> go_string \<Rightarrow> bool" where
  "nothing_left r rest \<longleftrightarrow> list_all json_space rest \<and> length (hr_Body r) \<le> maxBodyBytes \<and> hr_BodyEOF r"

definition decodeJSON :: "(go_string \<Rightarrow> json \<Rightarrow> 'c \<Rightarrow> 'c option) \<Rightarrow> http_request \<Rightarrow> 'c \<Rightarrow> error + 'c" where
  "decodeJSON set_field r zero =
     (if ParseMediaType (hr_Header r ''Content-Type'') \<noteq> Some ''application/json'' then Inl ErrUnsupportedMedia
      else (case first_value r of
        Inl e \<Rightarrow> Inl e
      | Inr (v, rest) \<Rightarrow>
          (case decode_struct set_field v zero of
             None \<Rightarrow> Inl ErrInvalidInput
           | Some cmd \<Rightarrow> if nothing_left r rest then Inr cmd else Inl ErrInvalidInput)))"

definition queryLimit :: "http_request \<Rightarrow> error + int" where
  "queryLimit r =
     (let v = Query_Get (hr_RawQuery r) ''limit'' in
      if v = [] then Inr 100
      else (case ParseInt64 v of
        Some limit \<Rightarrow> if limit < 1 \<or> 1000 < limit then Inl ErrInvalidInput else Inr limit
      | None \<Rightarrow> Inl ErrInvalidInput))"

text \<open>The fields of the two commands by their JSON names; \<^verbatim>\<open>IdempotencyKey\<close> has none.\<close>

definition is_field :: "go_string \<Rightarrow> go_string \<Rightarrow> bool" where
  "is_field k name \<longleftrightarrow> fold_name k = fold_name name"

definition create_field :: "go_string \<Rightarrow> json \<Rightarrow> create_account_command \<Rightarrow> create_account_command option" where
  "create_field k v cmd =
     (if is_field k ''owner_id'' then map_option (\<lambda>s. cmd\<lparr>cac_OwnerID := s\<rparr>) (decode_string v (cac_OwnerID cmd))
      else if is_field k ''currency'' then map_option (\<lambda>s. cmd\<lparr>cac_Currency := s\<rparr>) (decode_string v (cac_Currency cmd))
      else if is_field k ''opening_balance_minor'' then
        map_option (\<lambda>i. cmd\<lparr>cac_OpeningBalanceMinor := i\<rparr>) (decode_int64 v (cac_OpeningBalanceMinor cmd))
      else None)"

definition transfer_field :: "go_string \<Rightarrow> json \<Rightarrow> transfer_command \<Rightarrow> transfer_command option" where
  "transfer_field k v cmd =
     (if is_field k ''from_account_id'' then map_option (\<lambda>s. cmd\<lparr>tc_FromAccountID := s\<rparr>) (decode_string v (tc_FromAccountID cmd))
      else if is_field k ''to_account_id'' then map_option (\<lambda>s. cmd\<lparr>tc_ToAccountID := s\<rparr>) (decode_string v (tc_ToAccountID cmd))
      else if is_field k ''amount_minor'' then map_option (\<lambda>i. cmd\<lparr>tc_AmountMinor := i\<rparr>) (decode_int64 v (tc_AmountMinor cmd))
      else if is_field k ''description'' then map_option (\<lambda>s. cmd\<lparr>tc_Description := s\<rparr>) (decode_string v (tc_Description cmd))
      else None)"

definition zero_create :: create_account_command where
  "zero_create = \<lparr>cac_OwnerID = [], cac_Currency = [], cac_OpeningBalanceMinor = 0\<rparr>"

definition zero_transfer :: transfer_command where
  "zero_transfer = \<lparr>tc_IdempotencyKey = [], tc_FromAccountID = [], tc_ToAccountID = [], tc_AmountMinor = 0, tc_Description = []\<rparr>"

section \<open>Handlers\<close>

text \<open>A handler returns whether it panicked, the response and the world.\<close>

type_synonym ('s, 'n) handler = "responseWriter \<Rightarrow> ('s, 'n) world \<Rightarrow> bool \<times> responseWriter \<times> ('s, 'n) world"

definition reply :: "(responseWriter \<Rightarrow> responseWriter) \<Rightarrow> ('s, 'n) handler" where
  "reply f rw w = (False, f rw, w)"

definition answer :: "('a, ('s, 'n) world) action \<Rightarrow> ('a \<Rightarrow> responseWriter \<Rightarrow> responseWriter) \<Rightarrow> ('s, 'n) handler" where
  "answer act f rw w =
     (case act w of
        (Return x, w') \<Rightarrow> (False, f x rw, w')
      | (Fail e, w') \<Rightarrow> (False, writeDomainError e rw, w')
      | (Panic, w') \<Rightarrow> (True, rw, w'))"

definition or_error :: "error + 'a \<Rightarrow> ('a \<Rightarrow> ('s, 'n) handler) \<Rightarrow> ('s, 'n) handler" where
  "or_error r f = (case r of Inl e \<Rightarrow> reply (writeDomainError e) | Inr x \<Rightarrow> f x)"

definition health :: "('s, 'n) handler" where
  "health = reply (writeJSON 200 (BodyStatus ''ok''))"

definition ready :: "('s, 'n) service \<Rightarrow> 's request \<Rightarrow> ('s, 'n) handler" where
  "ready svc rq rw w =
     (case svc_Ready svc rq w of
        (Return _, w') \<Rightarrow> (False, writeJSON 200 (BodyStatus ''ready'') rw, w')
      | (Fail _, w') \<Rightarrow> (False, writeError 503 ''not_ready'' (Some ''service dependencies are unavailable'') rw, w')
      | (Panic, w') \<Rightarrow> (True, rw, w'))"

definition createAccount :: "('s, 'n) service \<Rightarrow> 's request \<Rightarrow> time \<Rightarrow> http_request \<Rightarrow> ('s, 'n) handler" where
  "createAccount svc rq now r =
     or_error (principalFromRequest r) (\<lambda>actor.
     or_error (decodeJSON create_field r zero_create) (\<lambda>cmd.
     answer (svc_CreateAccount svc rq now actor cmd) (\<lambda>a. writeJSON 201 (BodyAccount a))))"

definition getAccount :: "('s, 'n) service \<Rightarrow> 's request \<Rightarrow> go_string \<Rightarrow> http_request \<Rightarrow> ('s, 'n) handler" where
  "getAccount svc rq aid r =
     or_error (principalFromRequest r) (\<lambda>actor.
     answer (svc_GetAccount svc rq actor aid) (\<lambda>a. writeJSON 200 (BodyAccount a)))"

definition createTransfer :: "('s, 'n) service \<Rightarrow> 's request \<Rightarrow> time \<Rightarrow> http_request \<Rightarrow> ('s, 'n) handler" where
  "createTransfer svc rq now r =
     or_error (principalFromRequest r) (\<lambda>actor.
     or_error (decodeJSON transfer_field r zero_transfer) (\<lambda>cmd.
     answer (svc_Transfer svc rq now actor (cmd\<lparr>tc_IdempotencyKey := hr_Header r ''Idempotency-Key''\<rparr>)) (\<lambda>res w.
       if result_Replayed res then writeJSON 200 (BodyTransfer res) (set_header ''Idempotent-Replayed'' ''true'' w)
       else writeJSON 201 (BodyTransfer res) w)))"

definition listJournal :: "('s, 'n) service \<Rightarrow> 's request \<Rightarrow> http_request \<Rightarrow> ('s, 'n) handler" where
  "listJournal svc rq r =
     or_error (principalFromRequest r) (\<lambda>actor. or_error (queryLimit r) (\<lambda>limit.
     answer (svc_ListJournal svc rq actor limit) (\<lambda>items. writeJSON 200 (BodyPostings items))))"

definition listAudit :: "('s, 'n) service \<Rightarrow> 's request \<Rightarrow> http_request \<Rightarrow> ('s, 'n) handler" where
  "listAudit svc rq r =
     or_error (principalFromRequest r) (\<lambda>actor. or_error (queryLimit r) (\<lambda>limit.
     answer (svc_ListAudit svc rq actor limit) (\<lambda>items. writeJSON 200 (BodyAudit items))))"

definition listRiskEvents :: "('s, 'n) service \<Rightarrow> 's request \<Rightarrow> http_request \<Rightarrow> ('s, 'n) handler" where
  "listRiskEvents svc rq r =
     or_error (principalFromRequest r) (\<lambda>actor. or_error (queryLimit r) (\<lambda>limit.
     answer (svc_ListRiskEvents svc rq actor limit) (\<lambda>items. writeJSON 200 (BodyRiskEvents items))))"

section \<open>Routing\<close>

datatype route = RHealth | RReady | RCreateAccount | RGetAccount go_string | RCreateTransfer | RJournal | RAudit | RRiskEvents

text \<open>The patterns of \<^verbatim>\<open>New\<close>, by method and segments; a wildcard does not match the segment \<^verbatim>\<open>/\<close>.\<close>

definition get_route :: "go_string list \<Rightarrow> route option" where
  "get_route segs =
     (if segs = [''healthz''] then Some RHealth
      else if segs = [''readyz''] then Some RReady
      else if segs = [''v1'', ''journal''] then Some RJournal
      else if segs = [''v1'', ''audit''] then Some RAudit
      else if segs = [''v1'', ''risk-events''] then Some RRiskEvents
      else (case segs of
        [a, b, k] \<Rightarrow> if a = ''v1'' \<and> b = ''accounts'' \<and> k \<noteq> ''/'' then Some (RGetAccount k) else None
      | _ \<Rightarrow> None))"

definition post_route :: "go_string list \<Rightarrow> route option" where
  "post_route segs =
     (if segs = [''v1'', ''accounts''] then Some RCreateAccount
      else if segs = [''v1'', ''transfers''] then Some RCreateTransfer else None)"

datatype mux_result = Handle route | Redirect | MethodNotAllowed go_string | PathNotFound

definition ServeMux :: "http_request \<Rightarrow> mux_result" where
  "ServeMux r =
     (let path = (if hr_Method r = ''CONNECT'' then hr_EscapedPath r else cleanPath (hr_EscapedPath r)); segs = path_segments path;
          found = (if hr_Method r = ''GET'' \<or> hr_Method r = ''HEAD'' then get_route segs
                   else if hr_Method r = ''POST'' then post_route segs else None) in
      if path \<noteq> hr_EscapedPath r then Redirect
      else (case found of
        Some rt \<Rightarrow> Handle rt
      | None \<Rightarrow>
          if get_route segs \<noteq> None then MethodNotAllowed ''GET, HEAD''
          else if post_route segs \<noteq> None then MethodNotAllowed ''POST'' else PathNotFound))"

text \<open>The replies of the multiplexer by \<^verbatim>\<open>http.Error\<close> and \<^verbatim>\<open>http.Redirect\<close>; the status of the redirect
  depends on the release of Go.\<close>

definition http_Error :: "nat \<Rightarrow> go_string \<Rightarrow> responseWriter \<Rightarrow> responseWriter" where
  "http_Error status msg w = rw_Write (BodyText msg) (rw_WriteHeader status
     (set_header ''X-Content-Type-Options'' ''nosniff'' (set_header ''Content-Type'' ''text/plain; charset=utf-8'' w)))"

definition http_Redirect :: "nat \<Rightarrow> go_string \<Rightarrow> responseWriter \<Rightarrow> responseWriter" where
  "http_Redirect status meth w0 =
     (let w = rw_WriteHeader status
        (if meth = ''GET'' \<or> meth = ''HEAD'' then set_header ''Content-Type'' ''text/html; charset=utf-8'' w0 else w0) in
      if meth = ''GET'' then rw_Write BodyRedirect w else w)"

definition dispatch :: "('s, 'n) service \<Rightarrow> 's request \<Rightarrow> time \<Rightarrow> http_request \<Rightarrow> route \<Rightarrow> ('s, 'n) handler" where
  "dispatch svc rq now r rt =
     (case rt of
        RHealth \<Rightarrow> health
      | RReady \<Rightarrow> ready svc rq
      | RCreateAccount \<Rightarrow> createAccount svc rq now r
      | RGetAccount aid \<Rightarrow> getAccount svc rq aid r
      | RCreateTransfer \<Rightarrow> createTransfer svc rq now r
      | RJournal \<Rightarrow> listJournal svc rq r
      | RAudit \<Rightarrow> listAudit svc rq r
      | RRiskEvents \<Rightarrow> listRiskEvents svc rq r)"

definition serve_mux :: "nat \<Rightarrow> ('s, 'n) service \<Rightarrow> 's request \<Rightarrow> time \<Rightarrow> http_request \<Rightarrow> ('s, 'n) handler" where
  "serve_mux redirect svc rq now r =
     (case ServeMux r of
        Handle rt \<Rightarrow> dispatch svc rq now r rt
      | Redirect \<Rightarrow> reply (http_Redirect redirect (hr_Method r))
      | MethodNotAllowed allow \<Rightarrow> reply (\<lambda>w. http_Error 405 ''Method Not Allowed'' (set_header ''Allow'' allow w))
      | PathNotFound \<Rightarrow> reply (http_Error 404 ''404 page not found''))"

section \<open>The middleware\<close>

datatype http_line = PanicRecovered | RequestLine go_string go_string nat

definition fresh_writer :: responseWriter where
  "fresh_writer = \<lparr>rw_status = 0, rw_Header = Map.empty, rw_sent = Map.empty, rw_body = []\<rparr>"

definition security_headers :: "responseWriter \<Rightarrow> responseWriter" where
  "security_headers w =
     set_header ''Referrer-Policy'' ''no-referrer'' (set_header ''X-Content-Type-Options'' ''nosniff''
      (set_header ''Cache-Control'' ''no-store''
       (set_header ''Content-Security-Policy'' (''default-src '' @ [CHR 39] @ ''none'' @ [CHR 39] @ ''; frame-ancestors '' @ [CHR 39] @ ''none'' @ [CHR 39]) w)))"

definition middleware :: "('s, 'n) handler \<Rightarrow> http_request \<Rightarrow> http_line list \<Rightarrow> ('s, 'n) world \<Rightarrow>
    responseWriter \<times> http_line list \<times> ('s, 'n) world" where
  "middleware inner r log w =
     (let (panicked, rw, w') = inner (security_headers fresh_writer) w;
          rw' = (if panicked \<and> rw_status rw = 0 then writeError 500 ''internal_error'' (Some ''internal server error'') rw else rw);
          log' = (if panicked then log @ [PanicRecovered] else log) in
      (rw', log' @ [RequestLine (hr_Method r) (pathUnescape (hr_EscapedPath r)) (rw_status rw')], w'))"

text \<open>The handler that \<^verbatim>\<open>New\<close> returns.\<close>

definition serve :: "nat \<Rightarrow> ('s, 'n) service \<Rightarrow> 's request \<Rightarrow> time \<Rightarrow> http_request \<Rightarrow> http_line list \<Rightarrow> ('s, 'n) world \<Rightarrow>
    responseWriter \<times> http_line list \<times> ('s, 'n) world" where
  "serve redirect svc rq now r = middleware (serve_mux redirect svc rq now r) r"

end
