(* ===== verification/Http_Responses.thy ===== *)
theory Http_Responses
  imports Http_Api
begin

text \<open>
  The responses of the HTTP interface: what a handler writes on the fresh writer of the middleware,
  the statuses it may have, and what a transfer request means for the ledger, over any repository
  that keeps its contract.
\<close>

section \<open>Writing once\<close>

abbreviation base_writer :: responseWriter where
  "base_writer \<equiv> security_headers fresh_writer"

lemma base_writer_sel [simp]: "rw_status base_writer = 0" "rw_body base_writer = []"
  by (simp_all add: security_headers_def set_header_def fresh_writer_def)

lemma set_header_sel [simp]:
  "rw_status (set_header k v w) = rw_status w" "rw_body (set_header k v w) = rw_body w"
  "rw_Header (set_header k v w) = (rw_Header w)(k \<mapsto> v)"
  by (simp_all add: set_header_def)

lemma writeJSON_sel:
  assumes "rw_status w = 0" "s \<noteq> 0"
  shows "rw_status (writeJSON s b w) = s" "rw_body (writeJSON s b w) = rw_body w @ [b]"
    "rw_sent (writeJSON s b w) = (rw_Header w)(''Content-Type'' \<mapsto> ''application/json'')"
  using assms by (simp_all add: writeJSON_def rw_Write_def rw_WriteHeader_def Let_def)

text \<open>A response that went out: a status of the set, the headers of the middleware, at most one body.\<close>

definition secured :: "header \<Rightarrow> bool" where
  "secured h \<longleftrightarrow> h ''Cache-Control'' = Some ''no-store'' \<and> h ''X-Content-Type-Options'' = Some ''nosniff'' \<and>
     h ''Referrer-Policy'' = Some ''no-referrer'' \<and> h ''Content-Security-Policy'' = rw_Header base_writer ''Content-Security-Policy''"

definition responded :: "nat set \<Rightarrow> responseWriter \<Rightarrow> bool" where
  "responded S w \<longleftrightarrow> rw_status w \<in> S \<and> secured (rw_sent w) \<and> length (rw_body w) \<le> 1"

lemma secured_base: "secured (rw_Header base_writer)"
  by (simp add: secured_def security_headers_def set_header_def)

lemma secured_upd:
  "secured h \<Longrightarrow> k \<notin> {''Cache-Control'', ''X-Content-Type-Options'', ''Referrer-Policy'', ''Content-Security-Policy''} \<Longrightarrow> secured (h(k \<mapsto> v))"
  "secured h \<Longrightarrow> secured (h(''X-Content-Type-Options'' \<mapsto> ''nosniff''))"
  by (auto simp: secured_def)

lemma responded_writeJSON:
  assumes "rw_status w = 0" "rw_body w = []" "secured (rw_Header w)" "s \<in> S" "0 \<notin> S"
  shows "responded S (writeJSON s b w)"
proof -
  have "s \<noteq> 0" using assms(4,5) by metis
  with assms show ?thesis by (simp add: responded_def writeJSON_sel secured_upd)
qed

definition error_codes :: "nat set" where
  "error_codes = {400, 403, 404, 409, 413, 415, 422, 500}"

lemma responded_error: "error_codes \<subseteq> S \<Longrightarrow> 0 \<notin> S \<Longrightarrow> responded S (writeDomainError e base_writer)"
  unfolding writeDomainError_def writeError_def error_status_def
  by (cases e) (auto intro!: responded_writeJSON secured_base simp: error_codes_def)

section \<open>The response of every handler\<close>

text \<open>A handler answers, or it panics before it has written anything.\<close>

definition answers :: "nat set \<Rightarrow> bool \<times> responseWriter \<times> 'w \<Rightarrow> bool" where
  "answers S res \<longleftrightarrow> (case res of (panicked, rw, w) \<Rightarrow> if panicked then rw = base_writer else responded S rw)"

lemma answers_reply: "responded S (f base_writer) \<Longrightarrow> answers S (reply f base_writer w)"
  by (simp add: answers_def reply_def)

lemma answers_or_error:
  "error_codes \<subseteq> S \<Longrightarrow> 0 \<notin> S \<Longrightarrow> (\<And>x. r = Inr x \<Longrightarrow> answers S (f x base_writer w)) \<Longrightarrow> answers S (or_error r f base_writer w)"
  by (cases r) (simp_all add: or_error_def answers_reply responded_error)

lemma answers_answer:
  "error_codes \<subseteq> S \<Longrightarrow> 0 \<notin> S \<Longrightarrow> (\<And>x. responded S (f x base_writer)) \<Longrightarrow> answers S (answer act f base_writer w)"
  by (auto simp: answer_def answers_def responded_error split: prod.splits outcome.splits)

definition response_codes :: "nat set" where
  "response_codes = error_codes \<union> {200, 201, 405, 503}"

lemma response_codes: "error_codes \<subseteq> response_codes" "0 \<notin> response_codes" "200 \<in> response_codes" "201 \<in> response_codes" "503 \<in> response_codes"
  "404 \<in> response_codes" "405 \<in> response_codes" "500 \<in> response_codes"
  by (auto simp: response_codes_def error_codes_def)

lemmas responded_base = responded_writeJSON [OF base_writer_sel secured_base]

lemma dispatch_answers: "answers response_codes (dispatch svc rq now r rt base_writer w)"
proof (cases rt)
  case RHealth
  then show ?thesis by (simp add: dispatch_def health_def answers_reply responded_base response_codes)
next
  case RReady
  then show ?thesis
    by (auto simp: dispatch_def ready_def answers_def writeError_def responded_base response_codes split: prod.splits outcome.splits)
next
  case RCreateTransfer
  have "responded response_codes (if result_Replayed res then writeJSON 200 (BodyTransfer res) (set_header ''Idempotent-Replayed'' ''true'' base_writer)
      else writeJSON 201 (BodyTransfer res) base_writer)" for res
    by (auto intro!: responded_writeJSON secured_upd secured_base simp: response_codes)
  then show ?thesis
    unfolding RCreateTransfer dispatch_def createTransfer_def route.case by (intro answers_or_error answers_answer response_codes)
qed (simp_all add: dispatch_def createAccount_def getAccount_def listJournal_def listAudit_def listRiskEvents_def
    answers_or_error answers_answer responded_base response_codes)

lemma responded_http_Error:
  assumes "s \<in> S" "0 \<notin> S" "rw_status w = 0" "rw_body w = []" "secured (rw_Header w)"
  shows "responded S (http_Error s msg w)"
proof -
  have "s \<noteq> 0" using assms(1,2) by metis
  with assms show ?thesis
    by (simp add: responded_def http_Error_def rw_Write_def rw_WriteHeader_def Let_def secured_upd)
qed

lemma responded_Redirect: "redirect \<noteq> 0 \<Longrightarrow> responded (insert redirect S) (http_Redirect redirect meth base_writer)"
  by (simp add: responded_def http_Redirect_def rw_Write_def rw_WriteHeader_def Let_def secured_upd secured_base)

lemma mux_answers:
  assumes "redirect \<noteq> 0"
  shows "answers (insert redirect response_codes) (serve_mux redirect svc rq now r base_writer w)"
proof (cases "ServeMux r")
  case (Handle rt)
  have "answers response_codes (dispatch svc rq now r rt base_writer w)" by (rule dispatch_answers)
  with Handle show ?thesis by (auto simp: serve_mux_def answers_def responded_def split: if_splits)
qed (use assms in \<open>auto simp: serve_mux_def response_codes intro!: answers_reply responded_Redirect responded_http_Error secured_upd secured_base\<close>)

lemma serve_response:
  assumes "redirect \<noteq> 0" "serve redirect svc rq now r log w = (rw, log', w')"
  shows "responded (insert redirect response_codes) rw"
    "\<exists>ls. log' = log @ ls @ [RequestLine (hr_Method r) (pathUnescape (hr_EscapedPath r)) (rw_status rw)] \<and> set ls \<subseteq> {PanicRecovered}"
proof -
  obtain p rw1 w1 where m: "serve_mux redirect svc rq now r base_writer w = (p, rw1, w1)" by (metis prod_cases3)
  note a = mux_answers [OF assms(1), of svc rq now r w, unfolded m answers_def, simplified]
  have "responded (insert redirect response_codes) (writeError 500 ''internal_error'' (Some ''internal server error'') base_writer)"
    using assms(1) unfolding writeError_def by (intro responded_base) (auto simp: response_codes)
  then show "responded (insert redirect response_codes) rw"
    using assms(2) a m by (auto simp: serve_def middleware_def Let_def split: if_splits)
  show "\<exists>ls. log' = log @ ls @ [RequestLine (hr_Method r) (pathUnescape (hr_EscapedPath r)) (rw_status rw)] \<and> set ls \<subseteq> {PanicRecovered}"
    using assms(2) m by (auto simp: serve_def middleware_def Let_def split: if_splits)
qed

section \<open>Requests that are turned away\<close>

text \<open>The routes that need a principal.\<close>

definition guarded :: "route \<Rightarrow> bool" where
  "guarded rt \<longleftrightarrow> rt \<noteq> RHealth \<and> rt \<noteq> RReady"

lemma dispatch_denied:
  assumes "guarded rt" "principalFromRequest r = Inl e"
  shows "dispatch svc rq now r rt rw w = (False, writeDomainError e rw, w)"
  using assms
  by (cases rt) (simp_all add: guarded_def dispatch_def createAccount_def getAccount_def createTransfer_def listJournal_def
      listAudit_def listRiskEvents_def or_error_def reply_def)

lemma principal_error: "principalFromRequest r = Inl e \<Longrightarrow> e = ErrForbidden"
  by (simp add: principalFromRequest_def Let_def split: if_splits)

lemma dispatch_rejected:
  assumes "principalFromRequest r = Inr actor"
  shows "decodeJSON transfer_field r zero_transfer = Inl e \<Longrightarrow> dispatch svc rq now r RCreateTransfer rw w = (False, writeDomainError e rw, w)"
    "decodeJSON create_field r zero_create = Inl e \<Longrightarrow> dispatch svc rq now r RCreateAccount rw w = (False, writeDomainError e rw, w)"
  using assms by (simp_all add: dispatch_def createAccount_def createTransfer_def or_error_def reply_def)

text \<open>A body beyond the limit is never decoded.\<close>

lemma decodeJSON_limit:
  assumes "maxBodyBytes < length (hr_Body r)"
  shows "\<exists>e. decodeJSON set_field r zero = Inl e \<and> e \<in> {ErrUnsupportedMedia, ErrRequestTooLarge, ErrInvalidInput}"
  using assms by (auto simp: decodeJSON_def nothing_left_def first_value_def Let_def split: scanned.splits option.splits)

text \<open>When the first value ends within the limit, the answer to a body beyond it is not that it is too large.\<close>

lemma decodeJSON_trailing:
  assumes "ParseMediaType (hr_Header r ''Content-Type'') = Some ''application/json''" "maxBodyBytes < length (hr_Body r)"
    and "scan [] BeginValue (take maxBodyBytes (hr_Body r)) = Value v rest"
  shows "decodeJSON set_field r zero = Inl ErrInvalidInput"
  using assms by (simp add: decodeJSON_def first_value_def nothing_left_def Let_def del: scan.simps split: option.split)

lemma serve_handled:
  assumes "ServeMux r = Handle rt" "dispatch svc rq now r rt base_writer w = (False, rw, w')"
  shows "serve redirect svc rq now r log w = (rw, log @ [RequestLine (hr_Method r) (pathUnescape (hr_EscapedPath r)) (rw_status rw)], w')"
  using assms by (simp add: serve_def middleware_def serve_mux_def)

section \<open>Transfers over HTTP\<close>

text \<open>The command of a transfer request: the decoded body with the key of the header, trimmed.\<close>

definition transfer_request :: "http_request \<Rightarrow> principal \<Rightarrow> transfer_command \<Rightarrow> bool" where
  "transfer_request r actor c \<longleftrightarrow> principalFromRequest r = Inr actor \<and>
     (\<exists>cmd. decodeJSON transfer_field r zero_transfer = Inr cmd \<and> c = trim_transfer (cmd\<lparr>tc_IdempotencyKey := hr_Header r ''Idempotency-Key''\<rparr>))"

lemma writeDomainError_status [simp]:
  "rw_status (writeDomainError e base_writer) = fst (error_status e)" "fst (error_status e) \<notin> {200, 201}"
  by (cases e; simp add: writeDomainError_def writeError_def error_status_def writeJSON_sel)+

text \<open>
  What a transfer request has done: it moved the amount of its command, and the response is the
  transfer; or it left the ledger to the other requests, and a response of status 200 is the earlier
  transfer with the header of a replay.
\<close>

definition http_moves :: "'s repository \<Rightarrow> ('s \<Rightarrow> go_string \<Rightarrow> account option) \<Rightarrow> (nat \<Rightarrow> repo_op list) \<Rightarrow> config \<Rightarrow> http_request \<Rightarrow> ('s, 'n) world \<Rightarrow> responseWriter \<Rightarrow> ('s, 'n) world \<Rightarrow> bool" where
  "http_moves R accts ops cfg r w rw w' \<longleftrightarrow>
     (\<exists>actor c res. transfer_request r actor c \<and> rw_body rw = [BodyTransfer res] \<and> request_moves R accts ops cfg actor c w (Return res) w')"

definition http_idle :: "'s repository \<Rightarrow> (nat \<Rightarrow> repo_op list) \<Rightarrow> http_request \<Rightarrow> ('s, 'n) world \<Rightarrow> responseWriter \<Rightarrow> ('s, 'n) world \<Rightarrow> bool" where
  "http_idle R ops r w rw w' \<longleftrightarrow>
     (\<exists>n \<le> 3. w_store w' = others_work R ops n (w_store w)) \<and> w_notifier w' = w_notifier w \<and>
     (rw_status rw = 200 \<longrightarrow> rw_sent rw ''Idempotent-Replayed'' = Some ''true'' \<and>
        (\<exists>actor c res. transfer_request r actor c \<and> rw_body rw = [BodyTransfer res] \<and> result_Replayed res \<and>
           scope_of (result_Transfer res) = (principal_ID actor, tc_IdempotencyKey c) \<and>
           transfer_Intent (result_Transfer res) = command_intent c))"

locale http_ledger = ledger_service R invar accts bound stored input_ok
  for R :: "'s repository" and invar accts bound stored input_ok
begin

lemma idle_error: "w_store w' = w_store w \<Longrightarrow> w_notifier w' = w_notifier w \<Longrightarrow> rw_status rw \<notin> {200, 201} \<Longrightarrow> http_idle R ops r w rw w'"
  by (auto simp: http_idle_def others_work_def intro: exI [of _ 0])

lemma transfer_dispatch:
  assumes "invar (w_store w)" "svc_repo svc = R"
    "dispatch svc (served_by R cx ops) now r RCreateTransfer base_writer w = (p, rw, w')"
  shows "if p then http_idle R ops r w rw w'
    else if rw_status rw = 201 then http_moves R accts ops (svc_cfg svc) r w rw w' else http_idle R ops r w rw w'"
proof (cases "principalFromRequest r")
  case (Inl e)
  then have "p = False" "rw = writeDomainError e base_writer" "w' = w"
    using assms(3) dispatch_denied [OF _ Inl, of RCreateTransfer svc "served_by R cx ops" now base_writer w] by (simp_all add: guarded_def)
  then show ?thesis using writeDomainError_status [of e] idle_error [of w' w rw] by simp
next
  case actor: (Inr actor)
  show ?thesis
  proof (cases "decodeJSON transfer_field r zero_transfer")
    case (Inl e)
    then have "p = False" "rw = writeDomainError e base_writer" "w' = w"
      using assms(3) dispatch_rejected(1) [OF actor Inl, of svc "served_by R cx ops" now base_writer w] by simp_all
    then show ?thesis using writeDomainError_status [of e] idle_error [of w' w rw] by simp
  next
    case cmd: (Inr cmd)
    let ?c0 = "cmd\<lparr>tc_IdempotencyKey := hr_Header r ''Idempotency-Key''\<rparr>"
    have req: "transfer_request r actor (trim_transfer ?c0)" using actor cmd by (auto simp: transfer_request_def)
    obtain out v where T: "svc_Transfer svc (served_by R cx ops) now actor ?c0 w = (out, v)" by fastforce
    have d: "(p, rw, w') = answer (svc_Transfer svc (served_by R cx ops) now actor ?c0) (\<lambda>res w.
        if result_Replayed res then writeJSON 200 (BodyTransfer res) (set_header ''Idempotent-Replayed'' ''true'' w)
        else writeJSON 201 (BodyTransfer res) w) base_writer w"
      using assms(3) actor cmd by (simp add: dispatch_def createTransfer_def or_error_def)
    from Transfer_effect [OF assms(1,2) T] show ?thesis
    proof
      assume idle: "request_idle R ops actor (trim_transfer ?c0) w out v"
      show ?thesis
      proof (cases out)
        case (Return res)
        with d T idle have "p = False" "w' = v" "rw = writeJSON 200 (BodyTransfer res) (set_header ''Idempotent-Replayed'' ''true'' base_writer)"
          by (auto simp: answer_def request_idle_def)
        with idle Return req show ?thesis by (auto simp: http_idle_def request_idle_def writeJSON_sel)
      next
        case (Fail e)
        with d T have "p = False" "w' = v" "rw = writeDomainError e base_writer" by (auto simp: answer_def)
        with idle writeDomainError_status [of e] show ?thesis by (auto simp: http_idle_def request_idle_def)
      next
        case Panic
        with d T have "p = True" "w' = v" "rw = base_writer" by (auto simp: answer_def)
        with idle show ?thesis by (auto simp: http_idle_def request_idle_def)
      qed
    next
      assume moves: "request_moves R accts ops (svc_cfg svc) actor (trim_transfer ?c0) w out v"
      then obtain t where out: "out = Return \<lparr>result_Transfer = t, result_Replayed = False\<rparr>" by (auto simp: request_moves_def)
      with d T have "p = False" "w' = v" "rw = writeJSON 201 (BodyTransfer \<lparr>result_Transfer = t, result_Replayed = False\<rparr>) base_writer"
        by (auto simp: answer_def)
      moreover from this have "rw_status rw = 201" "rw_body rw = [BodyTransfer \<lparr>result_Transfer = t, result_Replayed = False\<rparr>]"
        by (simp_all add: writeJSON_sel)
      ultimately show ?thesis using moves req unfolding out http_moves_def by auto
    qed
  qed
qed

lemma transfer_served:
  assumes "invar (w_store w)" "svc_repo svc = R" "ServeMux r = Handle RCreateTransfer"
    "serve redirect svc (served_by R cx ops) now r log w = (rw, log', w')"
  shows "if rw_status rw = 201 then http_moves R accts ops (svc_cfg svc) r w rw w' else http_idle R ops r w rw w'"
proof -
  obtain p rw1 w1 where d: "dispatch svc (served_by R cx ops) now r RCreateTransfer base_writer w = (p, rw1, w1)" by (metis prod_cases3)
  note t = transfer_dispatch [OF assms(1,2) d]
  show ?thesis
  proof (cases p)
    case True
    then have "rw1 = base_writer" using dispatch_answers [of svc "served_by R cx ops" now r RCreateTransfer w] d by (simp add: answers_def)
    with True assms(3,4) d have "w' = w1" "rw = writeError 500 ''internal_error'' (Some ''internal server error'') base_writer"
      by (auto simp: serve_def middleware_def serve_mux_def Let_def)
    then show ?thesis using t True by (auto simp: http_idle_def writeError_def writeJSON_sel)
  next
    case False
    with d serve_handled [OF assms(3), of svc "served_by R cx ops" now w rw1 w1 redirect log] assms(4) have "rw1 = rw" "w1 = w'" by auto
    then show ?thesis using t False by (simp split: if_splits)
  qed
qed

end

end
