(* ===== verification/Json_Roundtrip.thy ===== *)
theory Json_Roundtrip
  imports Go_Net
begin

text \<open>
  The decoder undoes the encoder: numbers, strings of valid UTF-8 with the escapes of \<^verbatim>\<open>json.Marshal\<close>, and
  objects of them.
\<close>

section \<open>Numbers\<close>

lemma char_of_eq: "n < 256 \<Longrightarrow> char_of n = c \<longleftrightarrow> n = bv c"
  by (metis bv_char_of bv_def char_of_char)

lemma is_digit_char: "d < 10 \<Longrightarrow> is_digit (char_of (48 + d :: nat))"
  by (simp add: is_digit_def bv_char_of)

lemma digits10_digits: "list_all is_digit (digits10 n)"
  by (induction n rule: digits10.induct) (subst digits10.simps, simp add: is_digit_char)

lemma digits10_nonempty [simp]: "digits10 n \<noteq> []"
  by (subst digits10.simps) simp

lemma digits_value_snoc: "digits_value (s @ [c]) = digits_value s * 10 + (bv c - 48)"
  by (simp add: digits_value_def)

lemma digits_value_digits10 [simp]: "digits_value (digits10 n) = n"
proof (induction n rule: digits10.induct)
  case (1 n)
  then show ?case
    by (subst digits10.simps) (simp add: digits_value_snoc bv_char_of, simp add: digits_value_def bv_char_of)
qed

lemma hd_digits10: "hd (digits10 n) = CHR ''0'' \<longleftrightarrow> n = 0"
proof (induction n rule: digits10.induct)
  case (1 n)
  have "char_of (48 + n) = CHR ''0'' \<longleftrightarrow> n = 0" if "n < 10"
    using that char_of_eq [of "48 + n" "CHR ''0''"] by (simp add: bv_def)
  with 1 show ?case by (subst digits10.simps) (auto simp: hd_append)
qed

lemma parse_digits10 [simp]: "parse_digits (digits10 n) = Some n"
  by (simp add: parse_digits_def digits10_digits)

lemma digits10_Cons: obtains c r where "digits10 n = c # r" "is_digit c" "list_all is_digit r" "c = CHR ''0'' \<longleftrightarrow> n = 0"
  using digits10_digits [of n] hd_digits10 [of n] by (cases "digits10 n") auto

lemma ParseInt64_format_int:
  assumes "fits64 i"
  shows "ParseInt64 (format_int i) = Some i"
proof -
  obtain c r where d: "digits10 (nat \<bar>i\<bar>) = c # r" "is_digit c" by (rule digits10_Cons)
  then have "c \<noteq> CHR ''-''" "c \<noteq> CHR ''+''" by (auto simp: is_digit_def bv_def)
  moreover have "parse_digits (c # r) = Some (nat \<bar>i\<bar>)" using d(1) parse_digits10 by metis
  ultimately show ?thesis
    using assms d(1) by (auto simp: ParseInt64_def format_int_def Let_def)
qed

section \<open>Runes in strings\<close>

text \<open>The encoding of one rune inside a JSON string.\<close>

definition json_rune :: "nat \<Rightarrow> go_string" where
  "json_rune r =
     (if r < 0x80 then json_ascii r
      else if r = 0x2028 then CHR 0x5C # ''u2028'' else if r = 0x2029 then CHR 0x5C # ''u2029'' else EncodeRune r)"

lemma json_chars_length: "length (json_chars s) \<le> 6 * length s"
proof (induction s rule: json_chars.induct)
  case (1 s)
  show ?case
  proof (cases "s = []")
    case False
    then have "length (json_chars (drop (snd (DecodeRune s)) s)) \<le> 6 * (length s - snd (DecodeRune s))" using 1 by simp
    then show ?thesis using DecodeRune_width [OF False]
      by (subst json_chars.simps) (auto simp: False json_ascii_def Let_def)
  qed (simp add: json_chars.simps)
qed

lemma json_chars_rune:
  assumes "is_scalar r"
  shows "json_chars (EncodeRune r @ t) = json_rune r @ json_chars t"
proof -
  have "EncodeRune r \<noteq> []" by (simp add: EncodeRune_def Let_def)
  moreover have "\<not> (r = RuneError \<and> length (EncodeRune r) = 1)" by (auto simp: RuneError_def EncodeRune_def is_scalar_def)
  ultimately show ?thesis
    by (subst json_chars.simps) (auto simp: DecodeRune_EncodeRune [OF assms] json_rune_def Let_def)
qed

lemma EncodeRune_high:
  assumes "is_scalar r" "0x80 \<le> r" "c \<in> set (EncodeRune r)"
  shows "0x80 \<le> bv c"
  using assms by (auto simp: EncodeRune_def is_scalar_def Let_def bv_def split: if_splits)

lemma unhex_digit: "k < 16 \<Longrightarrow> unhex (hex_digit k) = Some k"
  by (auto simp: unhex_def hex_digit_def is_digit_def bv_char_of)

lemma hex4_other: "x \<noteq> CHR ''u'' \<Longrightarrow> hex4 (c # x # t) = None"
  by (auto simp: hex4_def split: list.splits)

text \<open>Undoing the escapes.\<close>

lemma unquote_simple:
  assumes "x \<noteq> CHR ''u''"
  shows "unquote (CHR 0x5C # x # t) = simple_escape x # unquote t"
  by (subst unquote.simps) (simp add: hex4_other [OF assms] bv_def)

lemma unquote_hex:
  assumes "unhex a = Some i" "unhex b = Some j" "unhex x = Some k" "unhex y = Some l"
    "\<not> (0xD800 \<le> i * 4096 + j * 256 + k * 16 + l \<and> i * 4096 + j * 256 + k * 16 + l < 0xE000)"
  shows "unquote (CHR 0x5C # CHR ''u'' # a # b # x # y # t) = EncodeRune (i * 4096 + j * 256 + k * 16 + l) @ unquote t"
proof -
  have "hex4 (CHR 0x5C # CHR ''u'' # a # b # x # y # t) = Some (i * 4096 + j * 256 + k * 16 + l)"
    using assms(1-4) by (simp add: hex4_def bv_def)
  then show ?thesis using assms(5) by (subst unquote.simps) (auto simp: bv_def)
qed

lemma EncodeRune_ascii: "r < 0x80 \<Longrightarrow> EncodeRune r = [char_of r]"
  by (simp add: EncodeRune_def is_scalar_def Let_def)

lemma unquote_ascii:
  assumes "r < 0x80"
  shows "unquote (json_ascii r @ t) = char_of r # unquote t"
proof -
  consider (simple) x where "json_ascii r = [CHR 0x5C, x]" "x \<noteq> CHR ''u''" "simple_escape x = char_of r"
    | (hex) "json_ascii r = CHR 0x5C # ''u00'' @ [hex_digit (r div 16), hex_digit (r mod 16)]"
    | (plain) "json_ascii r = [char_of r]" "r \<noteq> 92"
  proof -
    have q: "char_of (34 :: nat) = CHR 0x22" "char_of (92 :: nat) = CHR 0x5C" by (simp_all add: char_of_eq bv_def)
    have "(\<exists>x. json_ascii r = [CHR 0x5C, x] \<and> x \<noteq> CHR ''u'' \<and> simple_escape x = char_of r) \<or>
      json_ascii r = CHR 0x5C # ''u00'' @ [hex_digit (r div 16), hex_digit (r mod 16)] \<or> (json_ascii r = [char_of r] \<and> r \<noteq> 92)"
      by (simp add: json_ascii_def simple_escape_def q)
    then show thesis using that by blast
  qed
  then show ?thesis
  proof cases
    case simple
    then show ?thesis by (simp add: unquote_simple)
  next
    case hex
    have z: "unhex (CHR ''0'') = Some 0" by (simp add: unhex_def is_digit_def bv_def)
    have "unquote (json_ascii r @ t) = EncodeRune (0 * 4096 + 0 * 256 + r div 16 * 16 + r mod 16) @ unquote t"
      using unquote_hex [OF z z unhex_digit unhex_digit, of "r div 16" "r mod 16" t] assms unfolding hex by simp
    then show ?thesis using assms by (simp add: EncodeRune_ascii)
  next
    case plain
    then show ?thesis using assms by (simp, subst unquote.simps) (simp add: bv_char_of)
  qed
qed

lemma unquote_rune:
  assumes "is_scalar r"
  shows "unquote (json_rune r @ t) = EncodeRune r @ unquote t"
proof -
  have h: "unhex (CHR ''2'') = Some 2" "unhex (CHR ''0'') = Some 0" "unhex (CHR ''8'') = Some 8" "unhex (CHR ''9'') = Some 9"
    by (simp_all add: unhex_def is_digit_def bv_def)
  consider "r < 0x80" | "r = 0x2028" | "r = 0x2029" | (high) "0x80 \<le> r" "r \<noteq> 0x2028" "r \<noteq> 0x2029" by linarith
  then show ?thesis
  proof cases
    case 1
    then show ?thesis by (simp add: json_rune_def unquote_ascii EncodeRune_ascii)
  next
    case 2
    then show ?thesis using unquote_hex [OF h(1,2,1,3), of t] by (simp add: json_rune_def)
  next
    case 3
    then show ?thesis using unquote_hex [OF h(1,2,1,4), of t] by (simp add: json_rune_def)
  next
    case high
    obtain c e where e: "EncodeRune r = c # e" by (cases "EncodeRune r") (auto simp: EncodeRune_def Let_def split: if_splits)
    have "0x80 \<le> bv c" using EncodeRune_high [OF assms high(1)] e by simp
    moreover have "DecodeRune (c # e @ t) = (r, length (EncodeRune r))" using DecodeRune_EncodeRune [OF assms, of t] e by simp
    ultimately have "unquote (c # e @ t) = EncodeRune r @ unquote t" by (subst unquote.simps) (simp add: e)
    with high e show ?thesis by (simp add: json_rune_def)
  qed
qed

lemma unquote_json_chars:
  "list_all is_scalar rs \<Longrightarrow> unquote (json_chars (string_of_runes rs)) = string_of_runes rs"
proof (induction rs)
  case Nil
  then show ?case by (simp add: string_of_runes_def json_chars.simps unquote.simps)
next
  case (Cons r rs)
  then show ?case by (simp add: string_of_runes_def json_chars_rune unquote_rune)
qed

text \<open>The scanner stays in the string.\<close>

definition plain_byte :: "char \<Rightarrow> bool" where
  "plain_byte c \<longleftrightarrow> bv c \<noteq> 34 \<and> bv c \<noteq> 92 \<and> 0x20 \<le> bv c"

lemma scan_plain: "list_all plain_byte s \<Longrightarrow> scan st (InString acc) (s @ t) = scan st (InString (rev s @ acc)) t"
  by (induction s arbitrary: acc) (simp_all add: scan_byte_def plain_byte_def)

lemma scan_escape:
  "x \<in> set ''bfnrt/'' \<or> bv x = 92 \<or> bv x = 34 \<Longrightarrow>
     scan st (InString acc) (CHR 0x5C # x # t) = scan st (InString (x # CHR 0x5C # acc)) t"
  by (auto simp: scan_byte_def bv_def)

lemma scan_hex:
  assumes "unhex a \<noteq> None" "unhex b \<noteq> None" "unhex x \<noteq> None" "unhex y \<noteq> None"
  shows "scan st (InString acc) (CHR 0x5C # CHR ''u'' # a # b # x # y # t) =
    scan st (InString (y # x # b # a # CHR ''u'' # CHR 0x5C # acc)) t"
  using assms by (auto simp: scan_byte_def bv_def)

lemma scan_rune:
  assumes "is_scalar r"
  shows "scan st (InString acc) (json_rune r @ t) = scan st (InString (rev (json_rune r) @ acc)) t"
proof -
  have h: "unhex (CHR ''2'') \<noteq> None" "unhex (CHR ''0'') \<noteq> None" "unhex (CHR ''8'') \<noteq> None" "unhex (CHR ''9'') \<noteq> None"
    by (simp_all add: unhex_def is_digit_def bv_def)
  consider (simple) x where "json_rune r = [CHR 0x5C, x]" "x \<in> set ''bfnrt/'' \<or> bv x = 92 \<or> bv x = 34"
    | (hex) a b x y where "json_rune r = [CHR 0x5C, CHR ''u'', a, b, x, y]" "unhex a \<noteq> None" "unhex b \<noteq> None" "unhex x \<noteq> None" "unhex y \<noteq> None"
    | (plain) "list_all plain_byte (json_rune r)"
  proof -
    have "(\<exists>x. json_rune r = [CHR 0x5C, x] \<and> (x \<in> set ''bfnrt/'' \<or> bv x = 92 \<or> bv x = 34)) \<or>
      (\<exists>a b x y. json_rune r = [CHR 0x5C, CHR ''u'', a, b, x, y] \<and> unhex a \<noteq> None \<and> unhex b \<noteq> None \<and> unhex x \<noteq> None \<and> unhex y \<noteq> None) \<or>
      list_all plain_byte (json_rune r)"
    proof (cases "r < 0x80")
      case True
      then have k: "unhex (hex_digit (r div 16)) \<noteq> None" "unhex (hex_digit (r mod 16)) \<noteq> None" by (simp_all add: unhex_digit)
      from True k h(2) show ?thesis
        by (auto simp: json_rune_def json_ascii_def plain_byte_def bv_char_of) (simp_all add: bv_def)
    next
      case False
      then have "list_all plain_byte (EncodeRune r)"
        using EncodeRune_high [OF assms] by (force simp: list_all_iff plain_byte_def)
      with False h show ?thesis by (simp add: json_rune_def)
    qed
    then show thesis using that by blast
  qed
  then show ?thesis by cases (simp_all add: scan_escape scan_hex scan_plain del: scan.simps)
qed

lemma scan_json_chars:
  "list_all is_scalar rs \<Longrightarrow> scan st (InString acc) (json_chars (string_of_runes rs) @ t) =
     scan st (InString (rev (json_chars (string_of_runes rs)) @ acc)) t"
proof (induction rs arbitrary: acc)
  case Nil
  then show ?case by (simp add: string_of_runes_def json_chars.simps)
next
  case (Cons r rs)
  then show ?case by (simp add: string_of_runes_def json_chars_rune scan_rune del: scan.simps)
qed

section \<open>Strings, numbers and members of an object\<close>

text \<open>Valid UTF-8: the text that its own runes make.\<close>

definition utf8 :: "go_string \<Rightarrow> bool" where
  "utf8 s \<longleftrightarrow> string_of_runes (runes s) = s"

lemma utf8_runes: "utf8 s \<Longrightarrow> \<exists>rs. list_all is_scalar rs \<and> s = string_of_runes rs"
  unfolding utf8_def list_all_iff by (metis runes_are_scalar)

lemma unquote_encoded: "utf8 s \<Longrightarrow> unquote (json_chars s) = s"
  using utf8_runes unquote_json_chars by blast

lemma scan_encoded:
  assumes "utf8 s"
  shows "scan st (InString []) (json_chars s @ CHR 0x22 # t) = (case string_done (json_chars s) st of
      Next st' l' \<Rightarrow> scan st' l' t | Consumed v \<Rightarrow> Value v t | Ended v \<Rightarrow> Value v (CHR 0x22 # t) | Invalid \<Rightarrow> Malformed)"
proof -
  obtain rs where "list_all is_scalar rs" "s = string_of_runes rs" using utf8_runes [OF assms] by blast
  then have "scan st (InString []) (json_chars s @ CHR 0x22 # t) = scan st (InString (rev (json_chars s))) (CHR 0x22 # t)"
    using scan_json_chars [of rs st "[]" "CHR 0x22 # t"] by simp
  then show ?thesis by (simp add: scan_byte_def bv_def)
qed

lemma scan_key:
  assumes "utf8 k" "l = BeginString \<or> l = BeginStringOrEmpty"
  shows "scan (FKey ms # st) l (json_string k @ t) = scan (FValue ms k # st) Colon t"
proof -
  have "scan (FKey ms # st) l (json_string k @ t) = scan (FKey ms # st) (InString []) (json_chars k @ CHR 0x22 # t)"
    using assms(2) by (auto simp: json_string_def scan_byte_def json_space_def bv_def)
  then show ?thesis using assms(1) by (simp add: scan_encoded string_done_def unquote_encoded del: scan.simps)
qed

lemma scan_string_value:
  assumes "utf8 v"
  shows "scan (FValue ms k # st) BeginValue (json_string v @ t) = scan (FKey (ms @ [(k, JString v)]) # st) AfterValue t"
proof -
  have "scan (FValue ms k # st) BeginValue (json_string v @ t) = scan (FValue ms k # st) (InString []) (json_chars v @ CHR 0x22 # t)"
    by (simp add: json_string_def scan_byte_def json_space_def begin_value_def bv_def)
  then show ?thesis using assms by (simp add: scan_encoded string_done_def value_done_def unquote_encoded del: scan.simps)
qed

lemma scan_digits:
  "list_all is_digit ds \<Longrightarrow> scan st (InNumber NumInt acc) (ds @ t) = scan st (InNumber NumInt (rev ds @ acc)) t"
  by (induction ds arbitrary: acc) (simp_all add: scan_byte_def number_step_def)

lemma digit_distinct:
  "is_digit c \<Longrightarrow> c \<noteq> CHR ''{'' \<and> c \<noteq> CHR ''['' \<and> bv c \<noteq> 34 \<and> c \<noteq> CHR ''-'' \<and> \<not> json_space c"
  by (auto simp: is_digit_def bv_def json_space_def)

lemma begin_digit:
  assumes "is_digit c"
  shows "scan_byte st BeginValue c = Next st (InNumber (if c = CHR ''0'' then NumZero else NumInt) [c])"
  using assms digit_distinct [OF assms] by (simp add: scan_byte_def begin_value_def)

lemma negative_digit:
  "is_digit c \<Longrightarrow> c \<noteq> CHR ''0'' \<Longrightarrow> scan_byte st (InNumber NumNeg pre) c = Next st (InNumber NumInt (c # pre))"
  by (simp add: scan_byte_def number_step_def)

lemma scan_nat:
  assumes "l = BeginValue \<and> pre = [] \<or> l = InNumber NumNeg pre \<and> n \<noteq> 0"
  shows "scan st l (digits10 n @ t) = scan st (InNumber (if n = 0 then NumZero else NumInt) (rev (digits10 n) @ pre)) t"
proof -
  obtain c r where d: "digits10 n = c # r" "is_digit c" "list_all is_digit r" "c = CHR ''0'' \<longleftrightarrow> n = 0" by (rule digits10_Cons)
  have z: "r = []" if "n = 0" using d(1) that by (subst (asm) digits10.simps) simp
  have "scan_byte st l c = Next st (InNumber (if n = 0 then NumZero else NumInt) (c # pre))"
    using assms d(2,4) by (auto simp: begin_digit negative_digit)
  with scan_digits [OF d(3), of st "c # pre" t] z show ?thesis by (auto simp: d(1))
qed

lemma scan_int_value:
  assumes "c = CHR '','' \<or> c = CHR ''}''"
  shows "scan (FValue ms k # st) BeginValue (format_int i @ c # t) = scan (FKey (ms @ [(k, JNumber (format_int i))]) # st) AfterValue (c # t)"
proof -
  let ?st = "FValue ms k # st"
  have e: "scan ?st (InNumber n (rev lit)) (c # t) = scan (FKey (ms @ [(k, JNumber lit)]) # st) AfterValue (c # t)"
    if "n = NumZero \<or> n = NumInt" for n lit
  proof -
    have "number_step n c = NumDone" using assms that by (elim disjE) (simp_all add: number_step_def is_digit_def bv_def)
    then have "scan_byte ?st (InNumber n (rev lit)) c = scan_byte (FKey (ms @ [(k, JNumber lit)]) # st) AfterValue c"
      by (simp add: scan_byte_def number_end_def value_done_def)
    then show ?thesis by (simp only: scan.simps)
  qed
  show ?thesis
  proof (cases "i < 0")
    case True
    then have "scan ?st BeginValue (format_int i @ c # t) = scan ?st (InNumber NumNeg ''-'') (digits10 (nat (- i)) @ c # t)"
      by (simp add: format_int_def scan_byte_def begin_value_def json_space_def bv_def)
    also have "\<dots> = scan ?st (InNumber NumInt (rev (format_int i))) (c # t)"
      using True scan_nat [of "InNumber NumNeg ''-''" "''-''" "nat (- i)" ?st "c # t"] by (simp add: format_int_def del: scan.simps)
    finally show ?thesis using e by (simp only: simp_thms)
  next
    case False
    then show ?thesis
      using e [of "if nat i = 0 then NumZero else NumInt" "format_int i"] scan_nat [of BeginValue "[]" "nat i" ?st "c # t"]
      by (simp add: format_int_def del: scan.simps split: if_splits)
  qed
qed

lemma scan_colon: "scan (FValue ms k # st) Colon (CHR '':'' # t) = scan (FValue ms k # st) BeginValue t"
  by (simp add: scan_byte_def json_space_def bv_def)

lemma scan_comma: "scan (FKey ms # st) AfterValue (CHR '','' # t) = scan (FKey ms # st) BeginString t"
  by (simp add: scan_byte_def after_value_def json_space_def bv_def)

lemma scan_open: "scan [] BeginValue (CHR ''{'' # t) = scan [FKey []] BeginStringOrEmpty t"
  by (simp add: scan_byte_def begin_value_def push_def max_depth_def json_space_def bv_def)

lemma scan_close: "scan [FKey ms] AfterValue (CHR ''}'' # t) = Value (JObject ms) t"
  by (simp add: scan_byte_def after_value_def close_def json_space_def bv_def)

lemmas scan_object = scan_open scan_close scan_colon scan_comma scan_key scan_string_value scan_int_value

end
