(* ===== verification/Http_Properties.thy ===== *)
theory Http_Properties
  imports Http_Responses Json_Roundtrip Service_Properties Pg_Ledger
begin

text \<open>
  Properties of the HTTP interface: what every response is, which requests never reach the service,
  what a transfer request means for the ledger over both stores, and that the commands of a client
  that encodes them with \<^verbatim>\<open>encoding/json\<close> arrive as they were sent.
\<close>

interpretation memhttp: http_ledger mem_repository mem_inv mem_accounts mem_bound id mem_input_ok
  by unfold_locales

interpretation pghttp: http_ledger "pg_repository X sq" pg_inv pg_accts pg_bound "pg_stored X" pg_input_ok for X sq
  by unfold_locales

section \<open>Commands in JSON\<close>

text \<open>The encodings of the two commands by \<^verbatim>\<open>json.Marshal\<close>.\<close>

definition transfer_json :: "transfer_command \<Rightarrow> go_string" where
  "transfer_json c = json_object
     [(''from_account_id'', json_string (tc_FromAccountID c)), (''to_account_id'', json_string (tc_ToAccountID c)),
      (''amount_minor'', format_int (sint (tc_AmountMinor c))), (''description'', json_string (tc_Description c))]"

definition create_json :: "create_account_command \<Rightarrow> go_string" where
  "create_json c = json_object
     [(''owner_id'', json_string (cac_OwnerID c)), (''currency'', json_string (cac_Currency c)),
      (''opening_balance_minor'', format_int (sint (cac_OpeningBalanceMinor c)))]"

lemma ascii_name: "(\<forall>c \<in> set s. bv c < 128) \<Longrightarrow> runes s = map bv s \<and> utf8 s"
proof (induction s)
  case Nil
  then show ?case by (simp add: utf8_def string_of_runes_def runes.simps)
next
  case (Cons c s)
  then have "DecodeRune (c # s) = (bv c, 1)" by (simp add: DecodeRune_def)
  then have "runes (c # s) = bv c # runes s" by (subst runes.simps) simp
  moreover have "EncodeRune (bv c) = [c]" using Cons.prems by (simp add: EncodeRune_ascii) (simp add: bv_def)
  ultimately show ?case using Cons by (auto simp: utf8_def string_of_runes_def)
qed

lemma field_names: "utf8 ''from_account_id''" "utf8 ''to_account_id''" "utf8 ''amount_minor''" "utf8 ''description''"
  "utf8 ''owner_id''" "utf8 ''currency''" "utf8 ''opening_balance_minor''"
  by (simp_all add: ascii_name bv_def)

lemma fold_names:
  "fold_name ''from_account_id'' = map fold_rune (map bv ''from_account_id'')" "fold_name ''to_account_id'' = map fold_rune (map bv ''to_account_id'')"
  "fold_name ''amount_minor'' = map fold_rune (map bv ''amount_minor'')" "fold_name ''description'' = map fold_rune (map bv ''description'')"
  "fold_name ''owner_id'' = map fold_rune (map bv ''owner_id'')" "fold_name ''currency'' = map fold_rune (map bv ''currency'')"
  "fold_name ''opening_balance_minor'' = map fold_rune (map bv ''opening_balance_minor'')"
  by (simp_all add: fold_name_def ascii_name bv_def)

lemma scan_transfer_json:
  assumes "utf8 (tc_FromAccountID c)" "utf8 (tc_ToAccountID c)" "utf8 (tc_Description c)"
  shows "scan [] BeginValue (transfer_json c) = Value (JObject
    [(''from_account_id'', JString (tc_FromAccountID c)), (''to_account_id'', JString (tc_ToAccountID c)),
     (''amount_minor'', JNumber (format_int (sint (tc_AmountMinor c)))), (''description'', JString (tc_Description c))]) []"
  using assms by (simp add: transfer_json_def json_object_def scan_object field_names del: scan.simps)

lemma scan_create_json:
  assumes "utf8 (cac_OwnerID c)" "utf8 (cac_Currency c)"
  shows "scan [] BeginValue (create_json c) = Value (JObject
    [(''owner_id'', JString (cac_OwnerID c)), (''currency'', JString (cac_Currency c)),
     (''opening_balance_minor'', JNumber (format_int (sint (cac_OpeningBalanceMinor c))))]) []"
  using assms by (simp add: create_json_def json_object_def scan_object field_names del: scan.simps)

lemma decode_number: "decode_int64 (JNumber (format_int (sint i))) old = Some i"
  by (simp add: decode_int64_def ParseInt64_format_int)

lemma decode_transfer_json:
  assumes "ParseMediaType (hr_Header r ''Content-Type'') = Some ''application/json''" "length (hr_Body r) \<le> maxBodyBytes" "hr_BodyEOF r"
    and "hr_Body r = transfer_json c" "utf8 (tc_FromAccountID c)" "utf8 (tc_ToAccountID c)" "utf8 (tc_Description c)"
  shows "decodeJSON transfer_field r zero_transfer = Inr (c\<lparr>tc_IdempotencyKey := []\<rparr>)"
  using assms
  by (simp add: decodeJSON_def first_value_def nothing_left_def scan_transfer_json decode_struct_def transfer_field_def is_field_def
      decode_string_def decode_number zero_transfer_def Let_def del: scan.simps) (simp add: fold_names fold_rune_def bv_def)

lemma decode_create_json:
  assumes "ParseMediaType (hr_Header r ''Content-Type'') = Some ''application/json''" "length (hr_Body r) \<le> maxBodyBytes" "hr_BodyEOF r"
    and "hr_Body r = create_json a" "utf8 (cac_OwnerID a)" "utf8 (cac_Currency a)"
  shows "decodeJSON create_field r zero_create = Inr a"
  using assms
  by (simp add: decodeJSON_def first_value_def nothing_left_def scan_create_json decode_struct_def create_field_def is_field_def
      decode_string_def decode_number zero_create_def Let_def del: scan.simps) (simp add: fold_names fold_rune_def bv_def)

text \<open>C35. Round trip of the commands: the body that \<^verbatim>\<open>json.Marshal\<close> makes of a transfer command or of an account
  command is decoded to that command, for every amount and all valid UTF-8 text, within the limit of
  the body; the idempotency key is not part of the body.\<close>

theorem http_json_roundtrip:
  assumes "ParseMediaType (hr_Header r ''Content-Type'') = Some ''application/json''" "length (hr_Body r) \<le> maxBodyBytes" "hr_BodyEOF r"
  shows "(hr_Body r = transfer_json c \<and> utf8 (tc_FromAccountID c) \<and> utf8 (tc_ToAccountID c) \<and> utf8 (tc_Description c) \<longrightarrow>
      decodeJSON transfer_field r zero_transfer = Inr (c\<lparr>tc_IdempotencyKey := []\<rparr>)) \<and>
    (hr_Body r = create_json a \<and> utf8 (cac_OwnerID a) \<and> utf8 (cac_Currency a) \<longrightarrow>
      decodeJSON create_field r zero_create = Inr a)"
  using decode_transfer_json [OF assms, of c] decode_create_json [OF assms, of a] by blast

section \<open>A client\<close>

text \<open>Alice sends the command of \<open>Service_Properties\<close>.\<close>

definition demo_header :: "go_string \<Rightarrow> go_string" where
  "demo_header k =
     (if k = ''X-Principal-ID'' then ''alice'' else if k = ''X-Principal-Role'' then ''customer''
      else if k = ''Content-Type'' then ''application/json''
      else if k = ''Idempotency-Key'' then ''key-12345678'' else [])"

definition demo_post :: http_request where
  "demo_post = \<lparr>hr_Method = ''POST'', hr_EscapedPath = ''/v1/transfers'', hr_RawQuery = [], hr_Header = demo_header,
     hr_Body = transfer_json demo_cmd, hr_BodyEOF = True\<rparr>"

lemma ToLower_ascii: "\<forall>c \<in> set s. bv c < 128 \<and> \<not> (65 \<le> bv c \<and> bv c \<le> 90) \<Longrightarrow> ToLower s = s"
proof -
  assume a: "\<forall>c \<in> set s. bv c < 128 \<and> \<not> (65 \<le> bv c \<and> bv c \<le> 90)"
  then have r: "runes s = map bv s" and u: "utf8 s" using ascii_name [of s] by auto
  have "map lower_rune (map bv s) = map bv s" using a by (auto simp: lower_rune_def)
  then show ?thesis using u by (simp only: ToLower_def r utf8_def)
qed

lemma demo_media: "ParseMediaType ''application/json'' = Some ''application/json''"
proof -
  have "ToLower ''application/json'' = ''application/json''" by (rule ToLower_ascii) (simp add: bv_def)
  moreover have "TrimSpace ''application/json'' = ''application/json''" by (rule TrimSpace_solid_ends) (simp_all add: solid_def bv_def IsSpace_def)
  moreover have "media_type_ok ''application/json''" by (simp add: media_type_ok_def consumeToken_def isTokenChar_def isTSpecial_def bv_def)
  moreover have "params_ok [] []" by (simp add: params_ok.simps TrimLeftSpace.simps)
  ultimately show ?thesis by (simp add: ParseMediaType_def Let_def)
qed

lemma demo_route: "ServeMux (demo_post\<lparr>hr_Header := h\<rparr>) = Handle RCreateTransfer"
proof -
  have "cleanPath ''/v1/transfers'' = ''/v1/transfers''" "path_segments ''/v1/transfers'' = [''v1'', ''transfers'']"
    by (simp_all add: cleanPath_def path_segments.simps firstSegment_def pathUnescape_def Let_def)
  then show ?thesis by (simp add: ServeMux_def demo_post_def post_route_def)
qed

lemma demo_principal: "principalFromRequest demo_post = Inr alice"
  by (simp add: principalFromRequest_def demo_post_def demo_header_def alice_def TrimSpace_solid_ends solid_def bv_def IsSpace_def
      Principal_Valid_def role_defs string_evals Let_def)

lemma demo_body_short: "length (transfer_json demo_cmd) \<le> maxBodyBytes"
  using json_chars_length [of "''from_account_id''"] json_chars_length [of "''to_account_id''"] json_chars_length [of "''amount_minor''"]
    json_chars_length [of "''description''"] json_chars_length [of "''a''"] json_chars_length [of "''b''"] json_chars_length [of "[]"]
  by (simp add: transfer_json_def json_object_def json_string_def demo_cmd_def maxBodyBytes_def format_int_def digits10.simps)

lemma demo_utf8: "utf8 ''a''" "utf8 ''b''" "utf8 []"
  using ascii_name [of "''a''"] ascii_name [of "''b''"] ascii_name [of "[]"] by (simp_all add: bv_def)

lemma demo_decoded: "decodeJSON transfer_field demo_post zero_transfer = Inr (demo_cmd\<lparr>tc_IdempotencyKey := []\<rparr>)"
  by (rule decode_transfer_json) (use demo_body_short demo_media demo_utf8 in \<open>simp_all add: demo_post_def demo_header_def demo_cmd_def\<close>)

section \<open>Properties\<close>

theorem http_json_roundtrip_witness:
  "decodeJSON transfer_field demo_post zero_transfer = Inr (demo_cmd\<lparr>tc_IdempotencyKey := []\<rparr>)"
  using http_json_roundtrip [of demo_post demo_cmd] demo_body_short demo_media demo_utf8
  by (simp add: demo_post_def demo_header_def demo_cmd_def)



text \<open>C33. Authentication comes first: a request on any route but the two probes whose headers do not name a
  valid principal is answered 403 whatever its body or query, and neither the store nor the
  notifier is called. A body above one MiB is refused before the service is called, too.\<close>

theorem http_denied:
  assumes "ServeMux r = Handle rt" "guarded rt" "serve redirect svc rq now r log w = (rw, log', w')"
  shows "(principalFromRequest r = Inl e \<longrightarrow> rw_status rw = 403 \<and> w' = w) \<and>
    (rt \<in> {RCreateTransfer, RCreateAccount} \<and> maxBodyBytes < length (hr_Body r) \<longrightarrow> rw_status rw \<in> {400, 403, 413, 415} \<and> w' = w)"
proof (intro conjI impI; (elim conjE)?)
  assume p: "principalFromRequest r = Inl e"
  with serve_handled [OF assms(1) dispatch_denied [OF assms(2) p], of redirect svc rq now log w] assms(3) principal_error [OF p]
  show "rw_status rw = 403" "w' = w" by (auto simp: error_status_def)
next
  assume rt: "rt \<in> {RCreateTransfer, RCreateAccount}" and big: "maxBodyBytes < length (hr_Body r)"
  obtain e where d: "dispatch svc rq now r rt base_writer w = (False, writeDomainError e base_writer, w)"
    and e: "e \<in> {ErrForbidden, ErrUnsupportedMedia, ErrRequestTooLarge, ErrInvalidInput}"
  proof (cases "principalFromRequest r")
    case (Inl e)
    with dispatch_denied [OF assms(2)] principal_error that show ?thesis by blast
  next
    case (Inr actor)
    with rt decodeJSON_limit [OF big, of transfer_field zero_transfer] decodeJSON_limit [OF big, of create_field zero_create]
      dispatch_rejected [OF Inr] that show ?thesis by blast
  qed
  from serve_handled [OF assms(1) d, of redirect log] assms(3) e show "rw_status rw \<in> {400, 403, 413, 415}" "w' = w" by (auto simp: error_status_def)
qed

theorem http_denied_witness:
  "\<exists>rw log'. serve 307 demo_svc (served_by mem_repository (\<lambda>_. None) (\<lambda>_. [])) 5 (demo_post\<lparr>hr_Header := \<lambda>_. []\<rparr>) [] demo_world =
     (rw, log', demo_world) \<and> rw_status rw = 403"
proof -
  let ?r = "demo_post\<lparr>hr_Header := \<lambda>_. []\<rparr>" and ?rq = "served_by mem_repository (\<lambda>_. None) (\<lambda>_. [])"
  obtain rw log' w' where s: "serve 307 demo_svc ?rq 5 ?r [] demo_world = (rw, log', w')" by (metis prod_cases3)
  have "principalFromRequest ?r = Inl ErrForbidden"
    by (simp add: principalFromRequest_def Principal_Valid_def Let_def)
  then show ?thesis using http_denied [OF demo_route _ s, of ErrForbidden] s by (simp add: guarded_def)
qed

text \<open>C32. What a transfer request over HTTP does to the ledger, under any interleaving with other requests: with
  status 201 it moved exactly the amount of the decoded command between the two accounts, by a
  principal of the headers that may do so, and the body is that transfer; with any other status it
  left the ledger to the other requests, and with status 200 the body is the earlier transfer of the
  same principal, key and intent, marked as a replay.\<close>

theorem http_transfer_effect:
  fixes w :: "(mem_store, 'n) world"
  assumes "mem_reachable (w_store w)" "svc_repo svc = mem_repository" "ServeMux r = Handle RCreateTransfer"
    and "serve redirect svc (served_by mem_repository cx ops) now r log w = (rw, log', w')"
  shows "if rw_status rw = 201 then http_moves mem_repository mem_accounts ops (svc_cfg svc) r w rw w'
    else http_idle mem_repository ops r w rw w'"
  by (rule memhttp.transfer_served [OF mem_reachable_inv [OF assms(1)] assms(2-4)])

theorem http_transfer_effect_witness:
  "\<exists>rw log' w'. serve 307 demo_svc (served_by mem_repository (\<lambda>_. None) (\<lambda>_. [])) 5 demo_post [] demo_world = (rw, log', w') \<and>
     rw_status rw = 201 \<and> http_moves mem_repository mem_accounts (\<lambda>_. []) (svc_cfg demo_svc) demo_post demo_world rw w'"
proof -
  let ?rq = "served_by mem_repository (\<lambda>_. None) (\<lambda>_. [])"
  have route: "ServeMux demo_post = Handle RCreateTransfer" using demo_route [of "hr_Header demo_post"] by simp
  obtain rw log' w' where s: "serve 307 demo_svc ?rq 5 demo_post [] demo_world = (rw, log', w')" by (metis prod_cases3)
  obtain t u where t: "svc_Transfer demo_svc ?rq 5 alice demo_cmd demo_world = (Return \<lparr>result_Transfer = t, result_Replayed = False\<rparr>, u)"
    by (rule demo_first)
  have "demo_cmd\<lparr>tc_IdempotencyKey := hr_Header demo_post ''Idempotency-Key''\<rparr> = demo_cmd"
    by (simp add: demo_cmd_def demo_post_def demo_header_def)
  with t have "dispatch demo_svc ?rq 5 demo_post RCreateTransfer base_writer demo_world =
      (False, writeJSON 201 (BodyTransfer \<lparr>result_Transfer = t, result_Replayed = False\<rparr>) base_writer, u)"
    by (simp add: dispatch_def createTransfer_def or_error_def demo_principal demo_decoded answer_def)
  from serve_handled [OF route this, of 307 "[]"] s have "rw_status rw = 201" by (auto simp: writeJSON_sel)
  with http_transfer_effect [OF _ _ route s] demo_reachable(2) s show ?thesis by (simp del: demo_svc_sel(3))
qed

end
