(* ===== verification/Pg_Pool.thy ===== *)
theory Pg_Pool
  imports Pg_Store
begin

text \<open>
  \<^verbatim>\<open>Open\<close>, \<^verbatim>\<open>New\<close> and \<^verbatim>\<open>Close\<close> of \<^verbatim>\<open>internal/store/postgres/store.go\<close>: the connection pool of a store.

  The driver is not part of the repository. What \<^verbatim>\<open>Open\<close> uses of it are parameters: the parser of
  configurations, the constructor of pools, which may fail, and the pool's own ping with the query of
  the schema version, as in \<open>pg_Ping\<close>. A configuration holds the two settings that \<^verbatim>\<open>Open\<close> reads and
  sets. The trace lists the pools that were opened and closed, in order.
\<close>

record pool_config =
  pc_application_name :: go_string
  pc_ConnectTimeout :: int

record driver =
  dr_ParseConfig :: "go_string \<Rightarrow> error + pool_config"
  dr_NewWithConfig :: "pool_config \<Rightarrow> error option"
  dr_Ping :: "error option"
  dr_Query :: "error option"

datatype pool_event = PoolOpened pool_config | PoolClosed pool_config

text \<open>The settings that are filled in when the URL does not give them.\<close>

definition pool_defaults :: "pool_config \<Rightarrow> pool_config" where
  "pool_defaults c0 =
     (let c1 = (if pc_application_name c0 = [] then c0\<lparr>pc_application_name := ''secureledger''\<rparr> else c0) in
      if pc_ConnectTimeout c1 = 0 then c1\<lparr>pc_ConnectTimeout := 5 * 1000000000\<rparr> else c1)"

record pg_handle =
  ph_pool :: pool_config
  ph_maxRetries :: nat

definition pg_New :: "pool_config option \<Rightarrow> pg_handle option" where
  "pg_New pool = (case pool of None \<Rightarrow> None | Some c \<Rightarrow> Some \<lparr>ph_pool = c, ph_maxRetries = maxRetries\<rparr>)"

definition pg_Close :: "pg_handle \<Rightarrow> pool_event list" where
  "pg_Close h = [PoolClosed (ph_pool h)]"

text \<open>\<^verbatim>\<open>New\<close> gets a pool here, so its panic on \<^verbatim>\<open>nil\<close> is out of reach.\<close>

definition pg_Open :: "driver \<Rightarrow> go_string \<Rightarrow> db \<Rightarrow> (error + pg_handle) \<times> pool_event list" where
  "pg_Open dr databaseURL d =
     (if TrimSpace databaseURL = [] then (Inl (ErrOther ''database URL is required''), [])
      else (case dr_ParseConfig dr databaseURL of
        Inl e \<Rightarrow> (Inl e, [])
      | Inr c0 \<Rightarrow>
          (let c = pool_defaults c0 in
           case dr_NewWithConfig dr c of
             Some e \<Rightarrow> (Inl e, [])
           | None \<Rightarrow>
               (case pg_New (Some c) of
                  None \<Rightarrow> (Inl (ErrOther ''postgres store requires a pool''), [PoolOpened c])
                | Some h \<Rightarrow>
                    (case pg_Ping (dr_Ping dr) (dr_Query dr) d of
                       Some e \<Rightarrow> (Inl e, [PoolOpened c, PoolClosed c])
                     | None \<Rightarrow> (Inr h, [PoolOpened c]))))))"

text \<open>The pools that are open after a trace, from those open before it.\<close>

fun open_pools :: "pool_config list \<Rightarrow> pool_event list \<Rightarrow> pool_config list" where
  "open_pools pools [] = pools"
| "open_pools pools (PoolOpened c # evs) = open_pools (c # pools) evs"
| "open_pools pools (PoolClosed c # evs) = open_pools (remove1 c pools) evs"

lemma pg_Open_cases:
  obtains (failed) e evs where "pg_Open dr url d = (Inl e, evs)" "evs = [] \<or> (\<exists>c. evs = [PoolOpened c, PoolClosed c])"
  | (opened) c0 h where "pg_Open dr url d = (Inr h, [PoolOpened (ph_pool h)])"
      "TrimSpace url \<noteq> []" "dr_ParseConfig dr url = Inr c0" "ph_pool h = pool_defaults c0" "ph_maxRetries h = maxRetries"
      "pg_Ping (dr_Ping dr) (dr_Query dr) d = None"
proof (cases "pg_Open dr url d")
  case (Pair out evs)
  note d = Pair [unfolded pg_Open_def pg_New_def Let_def]
  show thesis
  proof (cases out)
    case (Inl e)
    with d have "evs = [] \<or> (\<exists>c. evs = [PoolOpened c, PoolClosed c])" by (auto split: if_splits sum.splits option.splits)
    with Pair Inl show thesis using failed by blast
  next
    case (Inr h)
    with d obtain c0 where "evs = [PoolOpened (ph_pool h)]" "TrimSpace url \<noteq> []" "dr_ParseConfig dr url = Inr c0"
      "ph_pool h = pool_defaults c0" "ph_maxRetries h = maxRetries" "pg_Ping (dr_Ping dr) (dr_Query dr) d = None"
      by (auto split: if_splits sum.splits option.splits)
    with Pair Inr show thesis using opened by blast
  qed
qed

end
