(* ===== verification/Cmd.thy ===== *)
theory Cmd
  imports Pg_Pool Pg_Outbox Outbox Dispatcher Memory_Store Http_Api
begin

text \<open>
  The commands \<^verbatim>\<open>cmd/secureledger\<close> and \<^verbatim>\<open>cmd/secureledger-healthcheck\<close>: the settings from the environment,
  the choice of the repository, the wiring of the components, and the life of the process.

  \<open>env\<close> is \<^verbatim>\<open>os.Getenv\<close>, which gives the empty string for a variable that is not set. The goroutines of the
  process are the components that the other theories model; here they are what \<^verbatim>\<open>run\<close> starts.
  Whether the process ends by a signal or because the listener failed, and what \<^verbatim>\<open>Shutdown\<close> then
  returns, is an outcome of the run.
\<close>

type_synonym environment = "go_string \<Rightarrow> go_string"

section \<open>Settings\<close>

definition envString :: "environment \<Rightarrow> go_string \<Rightarrow> go_string \<Rightarrow> go_string" where
  "envString env name fallback = (if env name \<noteq> [] then env name else fallback)"

definition envInt64 :: "environment \<Rightarrow> go_string \<Rightarrow> int64 \<Rightarrow> int64" where
  "envInt64 env name fallback =
     (let value = env name in
      if value = [] then fallback
      else (case ParseInt64 value of
        None \<Rightarrow> fallback
      | Some parsed \<Rightarrow> if parsed \<le> 0 then fallback else word_of_int parsed))"

datatype log_level = LevelDebug | LevelInfo | LevelWarn | LevelError

text \<open>The levels of \<^verbatim>\<open>log/slog\<close> are ordered by their numbers.\<close>

fun level_number :: "log_level \<Rightarrow> int" where
  "level_number LevelDebug = -4"
| "level_number LevelInfo = 0"
| "level_number LevelWarn = 4"
| "level_number LevelError = 8"

instantiation log_level :: linorder
begin

definition less_eq_log_level :: "log_level \<Rightarrow> log_level \<Rightarrow> bool" where
  "a \<le> b \<longleftrightarrow> level_number a \<le> level_number b"

definition less_log_level :: "log_level \<Rightarrow> log_level \<Rightarrow> bool" where
  "a < b \<longleftrightarrow> level_number a < level_number b"

instance
proof
  fix a b :: log_level
  show "a \<le> b \<Longrightarrow> b \<le> a \<Longrightarrow> a = b"
    unfolding less_eq_log_level_def by (cases a; cases b) simp_all
qed (auto simp: less_eq_log_level_def less_log_level_def)

end

definition envLogLevel :: "environment \<Rightarrow> go_string \<Rightarrow> log_level \<Rightarrow> log_level" where
  "envLogLevel env name fallback =
     (let level = ToLower (TrimSpace (env name)) in
      if level = ''debug'' then LevelDebug
      else if level = ''info'' then LevelInfo
      else if level = ''warn'' \<or> level = ''warning'' then LevelWarn
      else if level = ''error'' then LevelError
      else fallback)"

text \<open>The handler of \<^verbatim>\<open>main\<close> writes the lines at or above its level.\<close>

definition log_enabled :: "environment \<Rightarrow> log_level \<Rightarrow> bool" where
  "log_enabled env level \<longleftrightarrow> envLogLevel env ''SECURELEDGER_LOG_LEVEL'' LevelInfo \<le> level"

section \<open>The repository\<close>

datatype opened_repository = MemoryRepository mem_store | PostgresRepository pg_handle

definition openRepository :: "environment \<Rightarrow> driver \<Rightarrow> db \<Rightarrow> (error + opened_repository) \<times> pool_event list" where
  "openRepository env dr d =
     (let kind = ToLower (TrimSpace (envString env ''SECURELEDGER_STORE'' ''memory'')) in
      if kind = ''memory'' then (Inr (MemoryRepository mem_New), [])
      else if kind = ''postgres'' \<or> kind = ''postgresql'' then
        (case pg_Open dr (env ''SECURELEDGER_DATABASE_URL'') d of
           (Inl e, evs) \<Rightarrow> (Inl e, evs)
         | (Inr h, evs) \<Rightarrow> (Inr (PostgresRepository h), evs))
      else (Inl (ErrOther ''unsupported SECURELEDGER_STORE value''), []))"

definition closeRepository :: "opened_repository \<Rightarrow> pool_event list" where
  "closeRepository r = (case r of MemoryRepository _ \<Rightarrow> [] | PostgresRepository h \<Rightarrow> pg_Close h)"

section \<open>Wiring\<close>

definition service_config :: "environment \<Rightarrow> config" where
  "service_config env =
     \<lparr>cfg_MaxTransferMinor = envInt64 env ''SECURELEDGER_MAX_TRANSFER_MINOR'' 100000000,
      cfg_RiskThresholdMinor = envInt64 env ''SECURELEDGER_RISK_THRESHOLD_MINOR'' 1000000\<rparr>"

text \<open>
  The in-memory store is no \<^verbatim>\<open>risk.Outbox\<close>: its service notifies the dispatcher. The PostgreSQL store is
  one: the worker delivers its events, and the service has no notifier.
\<close>

datatype deployment =
    MemoryDeployment "(mem_store, dispatcher) service" mem_store dispatcher
  | PostgresDeployment "(db, unit) service" "worker_line list worker"

definition wire :: "externals \<Rightarrow> (db \<Rightarrow> nat \<Rightarrow> int64) \<Rightarrow> environment \<Rightarrow> opened_repository \<Rightarrow> deployment" where
  "wire X sq env repo =
     (case repo of
        MemoryRepository s \<Rightarrow>
          MemoryDeployment (svc_New mem_repository (Some Submit) (service_config env)) s (NewDispatcher 128)
      | PostgresRepository h \<Rightarrow>
          PostgresDeployment (svc_New (pg_repository X sq) None (service_config env)) (NewWorker LogPublisher_Publish))"

record http_server =
  srv_Addr :: go_string
  srv_Handler :: deployment
  srv_ReadHeaderTimeout :: int
  srv_ReadTimeout :: int
  srv_WriteTimeout :: int
  srv_IdleTimeout :: int
  srv_MaxHeaderBytes :: nat

definition new_server :: "environment \<Rightarrow> deployment \<Rightarrow> http_server" where
  "new_server env dep =
     \<lparr>srv_Addr = envString env ''SECURELEDGER_ADDR'' '':8080'', srv_Handler = dep,
      srv_ReadHeaderTimeout = 5 * second, srv_ReadTimeout = 10 * second, srv_WriteTimeout = 15 * second,
      srv_IdleTimeout = 60 * second, srv_MaxHeaderBytes = 1048576\<rparr>"

section \<open>The process\<close>

text \<open>How serving ends: the listener fails, or a signal arrives and \<^verbatim>\<open>Shutdown\<close> gives its reply.\<close>

datatype serving = ListenFailed error | Signalled "error option"

datatype run_event = Pool pool_event | WorkerStarted | DispatcherStarted | Listening http_server | ShutdownRequested

definition risk_event_of :: "deployment \<Rightarrow> run_event" where
  "risk_event_of dep = (case dep of MemoryDeployment _ _ _ \<Rightarrow> DispatcherStarted | PostgresDeployment _ _ \<Rightarrow> WorkerStarted)"

text \<open>The deferred \<^verbatim>\<open>closeRepository\<close> runs on both ways out.\<close>

definition run :: "externals \<Rightarrow> (db \<Rightarrow> nat \<Rightarrow> int64) \<Rightarrow> environment \<Rightarrow> driver \<Rightarrow> serving \<Rightarrow> db \<Rightarrow> error option \<times> run_event list" where
  "run X sq env dr outcome d =
     (case openRepository env dr d of
        (Inl e, evs) \<Rightarrow> (Some e, map Pool evs)
      | (Inr repo, evs) \<Rightarrow>
          (let dep = wire X sq env repo;
               started = map Pool evs @ [risk_event_of dep, Listening (new_server env dep)];
               closed = map Pool (closeRepository repo) in
           case outcome of
             ListenFailed e \<Rightarrow> (Some e, started @ closed)
           | Signalled shutdown \<Rightarrow> (shutdown, started @ [ShutdownRequested] @ closed)))"

text \<open>The exit status, and the error that was logged.\<close>

definition main :: "externals \<Rightarrow> (db \<Rightarrow> nat \<Rightarrow> int64) \<Rightarrow> environment \<Rightarrow> driver \<Rightarrow> serving \<Rightarrow> db \<Rightarrow> int \<times> error option" where
  "main X sq env dr outcome d =
     (case fst (run X sq env dr outcome d) of
        None \<Rightarrow> (0, None)
      | Some e \<Rightarrow> (1, if log_enabled env LevelError then Some e else None))"

lemma LevelError_top: "level \<le> LevelError"
  by (cases level) (simp_all add: less_eq_log_level_def)

section \<open>The health check\<close>

text \<open>\<open>get\<close> is \<^verbatim>\<open>client.Get\<close>: the status of the response, or the error of the request. The body is read and
  thrown away.\<close>

definition check :: "(go_string \<Rightarrow> error + nat) \<Rightarrow> go_string \<Rightarrow> error option" where
  "check get url =
     (case get url of
        Inl e \<Rightarrow> Some e
      | Inr status \<Rightarrow> if status \<noteq> 200 then Some (ErrOther ''readiness status'') else None)"

definition healthcheck_main :: "environment \<Rightarrow> (go_string \<Rightarrow> error + nat) \<Rightarrow> int" where
  "healthcheck_main env get =
     (let url = (if env ''SECURELEDGER_HEALTHCHECK_URL'' = [] then ''http://127.0.0.1:8080/readyz'' else env ''SECURELEDGER_HEALTHCHECK_URL'') in
      if check get url = None then 0 else 1)"

end
