(* ===== verification/Cmd_Properties.thy ===== *)
theory Cmd_Properties
  imports Cmd Http_Properties Pg_Scenario
begin

text \<open>
  Properties of the commands: what the process serves for an environment, what it releases, and what the
  health check reports; with the composition of all components in the PostgreSQL deployment.
\<close>

section \<open>Settings\<close>



lemma ParseInt64_Nil [simp]: "ParseInt64 [] = None"
  by (simp add: ParseInt64_def)






section \<open>Runs\<close>

lemma openRepository_cases:
  obtains (failed) e evs where "openRepository env dr d = (Inl e, evs)" "open_pools [] evs = []"
  | (memory) "openRepository env dr d = (Inr (MemoryRepository mem_New), [])"
  | (postgres) h where "openRepository env dr d = (Inr (PostgresRepository h), [PoolOpened (ph_pool h)])"
      "pg_Ping (dr_Ping dr) (dr_Query dr) d = None" "ph_maxRetries h = maxRetries"
proof -
  define kind where "kind = ToLower (TrimSpace (envString env ''SECURELEDGER_STORE'' ''memory''))"
  note o = openRepository_def [of env dr d, folded kind_def, unfolded Let_def]
  consider "kind = ''memory''" | "kind \<noteq> ''memory''" "kind = ''postgres'' \<or> kind = ''postgresql''"
    | "kind \<noteq> ''memory''" "\<not> (kind = ''postgres'' \<or> kind = ''postgresql'')" by blast
  then show thesis
  proof cases
    case 1
    with o memory show thesis by simp
  next
    case 2
    then have o2: "openRepository env dr d = (case pg_Open dr (env ''SECURELEDGER_DATABASE_URL'') d of
        (Inl e, evs) \<Rightarrow> (Inl e, evs) | (Inr h, evs) \<Rightarrow> (Inr (PostgresRepository h), evs))" by (simp add: o)
    show thesis
    proof (cases rule: pg_Open_cases [of dr "env ''SECURELEDGER_DATABASE_URL''" d])
      case (failed e evs)
      then have "open_pools [] evs = []" by auto
      with failed(1) o2 that(1) [of e evs] show thesis by simp
    next
      case (opened c0 h)
      with o2 that(3) [of h] show thesis by simp
    qed
  next
    case 3
    with o failed [of _ "[]"] show thesis by simp
  qed
qed

fun pool_trace :: "run_event list \<Rightarrow> pool_event list" where
  "pool_trace [] = []"
| "pool_trace (Pool e # evs) = e # pool_trace evs"
| "pool_trace (_ # evs) = pool_trace evs"

lemma pool_trace_append [simp]: "pool_trace (xs @ ys) = pool_trace xs @ pool_trace ys"
  by (induction xs rule: pool_trace.induct) simp_all

lemma pool_trace_map [simp]: "pool_trace (map Pool evs) = evs"
  by (induction evs) simp_all

lemma pool_trace_risk [simp]: "pool_trace (risk_event_of dep # evs) = pool_trace evs"
  by (cases dep) (simp_all add: risk_event_of_def)


section \<open>The probe\<close>



section \<open>A deployment\<close>






section \<open>Properties\<close>



text \<open>The server releases what it opened: in every run, whether the repository cannot be opened, the listener
  fails or a signal ends it, no connection pool is left open; an error is logged at every log level; and the exit status is zero exactly when the server
  listened, a signal ended it and the shutdown succeeded.\<close>

theorem server_releases:
  "open_pools [] (pool_trace (snd (run X sq env dr outcome d))) = [] \<and>
   snd (main X sq env dr outcome d) = fst (run X sq env dr outcome d) \<and>
   (fst (main X sq env dr outcome d) = 0 \<longleftrightarrow>
      outcome = Signalled None \<and> (\<exists>srv. Listening srv \<in> set (snd (run X sq env dr outcome d))))"
proof (cases rule: openRepository_cases [of env dr d])
  case (failed e evs)
  then show ?thesis by (auto simp: run_def main_def log_enabled_def LevelError_top)
next
  case memory
  then show ?thesis by (cases outcome) (auto simp: run_def main_def log_enabled_def LevelError_top closeRepository_def Let_def split: option.split)
next
  case (postgres h)
  then show ?thesis by (cases outcome) (auto simp: run_def main_def log_enabled_def LevelError_top closeRepository_def pg_Close_def Let_def split: option.split)
qed





end
