(* ===== verification/Spec2Isabelle.thy ===== *)
theory Spec2Isabelle
  imports Domain_Properties Memory_Properties Service_Properties Pg_Properties Pg_Retries Refinement_Properties Outbox_Properties
    Pg_Reconcile Http_Properties Cmd_Properties
begin

text \<open>
  \<^bold>\<open>SecureLedger\<close>, a double-entry ledger service in Go: a model of the whole program and the theorems that
  make it correct.

  \<^bold>\<open>The program.\<close> A client sends HTTP requests (\<^verbatim>\<open>internal/httpapi\<close>). A handler reads the principal, decodes the body and
  calls the application service (\<^verbatim>\<open>internal/app\<close>), which validates the command, authorises the actor, draws identifiers
  and calls a repository (\<^verbatim>\<open>internal/store\<close>): the in-memory store (\<^verbatim>\<open>internal/store/memory\<close>) or the PostgreSQL store
  (\<^verbatim>\<open>internal/store/postgres\<close> on the schema of \<^verbatim>\<open>deploy/postgres/001_init.sql\<close>). A transfer above a threshold carries a
  risk event. Over the in-memory store the service hands it to a dispatcher, a bounded channel with one consumer; over
  PostgreSQL it is written with the transfer and a worker (\<^verbatim>\<open>internal/risk\<close>) claims, publishes and marks it. A command
  reconciles balances with the journal, one probes readiness, one wires and runs the server (\<^verbatim>\<open>cmd\<close>).

  \<^bold>\<open>Conventions.\<close> A Go struct is a record, a sum of cases a datatype, \<^verbatim>\<open>int64\<close> a 64-bit word read with \<open>sint\<close>, a string a
  list of bytes. An error is the end of its \<^verbatim>\<open>Unwrap\<close> chain, a panic an outcome of its own. State is passed
  explicitly. What the program does not determine is a parameter: the context of a call, the random source, the
  faults of a database server, the work of other sessions and requests between two calls, the collation and the
  precision of the server (\<open>externals\<close>), the connection driver, the environment. Definitions of the model stand at the
  top level of their theory and compute; locales state the contracts between components.

  \<^bold>\<open>The theories, by component.\<close>
    \<^item> \<^emph>\<open>Shared\<close>: \<open>Prelude\<close> (64-bit arithmetic, chains of checks, collections of simplification rules), \<open>Go_Strings\<close> (UTF-8, runes,
      \<^verbatim>\<open>strings\<close>), \<open>Go_Encoding\<close> (JSON output, SHA-256), \<open>Go_Net\<close> (\<^verbatim>\<open>strconv\<close>, \<^verbatim>\<open>net/url\<close>, \<^verbatim>\<open>mime\<close>, the scanner and the
      decoder of \<^verbatim>\<open>encoding/json\<close>).
    \<^item> \<^verbatim>\<open>internal/domain\<close>: \<open>Domain\<close> (every type and validation), \<open>Domain_Properties\<close>.
    \<^item> \<^verbatim>\<open>internal/store\<close>: \<open>Store\<close> has the interface as a record of functions and its contract as the locale
      \<open>ledger_repository\<close>: errors change nothing, a scope is bound once, a replay answers with what is bound, a commit moves exactly
      the amount. Its lemmas give idempotency, at most one commit for a scope, and no overspending over any history.
    \<^item> \<^verbatim>\<open>internal/store/memory\<close>: \<open>Memory_Store\<close> (each operation is one atomic step, because it holds the mutex for its whole
      body), \<open>Memory_Invariant\<close>, \<open>Memory_Ledger\<close> (the interpretation \<open>mem\<close> of the contract), \<open>Memory_Scenario\<close>, \<open>Memory_Properties\<close>.
    \<^item> \<^verbatim>\<open>internal/app\<close>: \<open>Service\<close> (each request as a sequence of repository calls with the work of others in between; the locale
      \<open>ledger_service\<close>), \<open>Service_Inputs\<close>, \<open>Service_Properties\<close> (the interpretation \<open>memsvc\<close>).
    \<^item> \<^verbatim>\<open>internal/risk/dispatcher.go\<close>: \<open>Dispatcher\<close>, as a step relation.
    \<^item> \<^verbatim>\<open>internal/store/postgres\<close>: \<open>Pg_Schema\<close> (tables, constraints, the deferred balance trigger), \<open>Pg_Store\<close> (every statement,
      transaction and call with its faults), \<open>Pg_Pool\<close> (\<^verbatim>\<open>Open\<close> and \<^verbatim>\<open>Close\<close>), \<open>Pg_Commit\<close>, \<open>Pg_Opening\<close>, \<open>Pg_Attempts\<close>, \<open>Pg_Views\<close> (what a transaction
      that commits has written), \<open>Pg_Invariant\<close>, \<open>Pg_Sessions\<close> (histories of transactions of all sessions), \<open>Pg_Ledger\<close> (the
      interpretations \<open>pg\<close> and \<open>pgsvc\<close>), \<open>Pg_Success\<close>, \<open>Pg_Retries\<close>, \<open>Pg_Scenario\<close>, \<open>Pg_Properties\<close>.
    \<^item> \<^verbatim>\<open>internal/risk/outbox.go\<close> and \<^verbatim>\<open>postgres/outbox.go\<close>: \<open>Outbox\<close> (the worker), \<open>Pg_Outbox\<close> (claim and marks), \<open>Pg_Events\<close> (the
      invariant of events, leases), \<open>Outbox_Worker\<close> (the locale \<open>risk_outbox\<close>), \<open>Pg_Worker\<close> (its interpretation \<open>pgob\<close>),
      \<open>Outbox_Properties\<close>.
    \<^item> \<^verbatim>\<open>postgres/reconcile.go\<close> and \<^verbatim>\<open>cmd/secureledger-reconcile\<close>: \<open>Pg_Reconcile\<close>.
    \<^item> \<^verbatim>\<open>internal/httpapi\<close>: \<open>Http_Api\<close> (reading, handlers, routes, middleware), \<open>Http_Responses\<close> (the locale \<open>http_ledger\<close>),
      \<open>Json_Roundtrip\<close>, \<open>Http_Properties\<close> (the interpretations \<open>memhttp\<close> and \<open>pghttp\<close>).
    \<^item> \<^verbatim>\<open>cmd/secureledger\<close> and \<^verbatim>\<open>cmd/secureledger-healthcheck\<close>: \<open>Cmd\<close>, \<open>Cmd_Properties\<close>.
    \<^item> The abstract ledger that both stores refine: \<open>Ledger_Spec\<close> (the locale \<open>ledger_refinement\<close>), \<open>Memory_Refinement\<close> (\<open>memref\<close>),
      \<open>Pg_Refinement\<close> (\<open>pgref\<close>), \<open>Refinement_Properties\<close>.

  \<^bold>\<open>What is shown.\<close>
    \<^item> \<^emph>\<open>Ledger\<close>: over both stores, after every history, balances are the sums of the journal, every transaction has two
      postings that cancel, money is conserved in every currency, customer balances are not negative; both stores refine
      the abstract ledger; failures are atomic.
    \<^item> \<^emph>\<open>Idempotency\<close>: at most one commit for an actor and key; a retry is answered with the first transfer, end to end; a client
      that repeats a request against a failing PostgreSQL, with lost commit replies, moves the money at most once; a reply is
      durable; transient faults within the retry bound are invisible; a call ends after at most four attempts.
    \<^item> \<^emph>\<open>Authorisation\<close>: which principals move money and read accounts, journal, audit log and risk events, with any other
      requests between the calls; requests without a valid principal reach nothing.
    \<^item> \<^emph>\<open>Risk events\<close>: recorded exactly when the threshold is met; the dispatcher is first-in first-out and loses nothing it
      accepted; leases are exclusive, publication is final, an event is handed out at most ten times; the worker delivers.
    \<^item> \<^emph>\<open>Boundary\<close>: every request gets one response of a known status with the security headers; what JSON encodes is what is
      decoded; the server is wired as its environment says, with positive limits; reconciliation and the health check
      are exact.

  \<^bold>\<open>Bounds and fuel.\<close> No loop runs on fuel. The retry loop recurses on the attempts left, the constant four of the source. The
  scanner, the decoders of text and the encoders recurse on their input, with a measure where a rune takes several
  bytes. The loop of the worker is a function of the list of cycles that the ticker starts, the loop of the dispatcher
  a step relation.

  \<^bold>\<open>Not modelled.\<close> Concurrency within one PostgreSQL transaction: the server is taken to be serialisable, as the
  isolation level asks, so a history is a sequence of transactions, each of which may fail at any statement or lose its commit
  reply. The append-only triggers and indexes of the schema, which reject or speed up statements the program never
  issues. The text of wrapped errors and of log lines beyond the values in them, the encoding of response bodies, the
  duration that the middleware logs, the timeouts of the HTTP server and of its client, and the exported helper
  \<^verbatim>\<open>Shutdown\<close> of \<^verbatim>\<open>internal/httpapi\<close>, which only calls the standard library. In the composition with the service, a call
  of the PostgreSQL store meets no faults of the server except the context of the request; its faults are the subject of
  \<open>Pg_Properties\<close>.
\<close>

end
